(* ===== verification/Prelude.thy ===== *)
theory Prelude
  imports
    Main
    "HOL-Library.Word"
    "HOL-Library.AList"
    "HOL-Library.Monad_Syntax"
begin

text \<open>
  Shared vocabulary of the development: the widths of the machine integers the
  Rust sources use, the result type of fallible operations with its sequencing
  (the \<^verbatim>\<open>?\<close> operator), and the generic lemmas on lists, association lists and
  options that the component theories rely on.

  Conventions used everywhere:
  \<^item> a Rust \<^verbatim>\<open>Result<T, E>\<close> is a value of type \<open>'e + 'a\<close>, \<open>Inl\<close> the error;
  \<^item> an operation that may panic, or that dereferences a raw pointer, has an \<open>option\<close>
    result in which \<open>None\<close> stands for the panic (or for the undefined behaviour of a
    dangling dereference); such operations are sequenced with the \<open>do\<close> notation of
    the option monad;
  \<^item> mutation is explicit state passing.
\<close>

section \<open>Collections of facts\<close>

named_theorems result_simps \<open>equations of the result monad\<close>
named_theorems alist_simps \<open>deletion and lookup in association lists\<close>

section \<open>Machine integers\<close>

type_synonym u32 = "32 word"
type_synonym u64 = "64 word"

text \<open>
  Subtraction of two \<^verbatim>\<open>usize\<close> values in a release build: it wraps around modulo
  $2^{64}$ when the second operand is larger.
\<close>

definition usize_sub :: "nat \<Rightarrow> nat \<Rightarrow> nat" where
  "usize_sub a b = (if b \<le> a then a - b else 2 ^ 64 + a - b)"

lemma usize_sub_exact [simp]: "b \<le> a \<Longrightarrow> usize_sub a b = a - b"
  by (simp add: usize_sub_def)

lemma unat_u32_of_nat: "n < 2 ^ 32 \<Longrightarrow> unat (of_nat n :: u32) = n"
  by (simp add: unat_of_nat take_bit_nat_eq_self)

lemma unat_u32_less: "unat (w :: u32) < 2 ^ 32"
  using unsigned_less [of w] by simp

lemma word_less_inc:
  fixes n :: "'a :: len word"
  assumes "n \<noteq> - 1"
  shows "n < n + 1"
proof -
  have "1 + n \<noteq> 0" using assms by (simp add: add_eq_0_iff)
  then have "unat (1 + n) = Suc (unat n)" by (rule unatSuc)
  then show ?thesis by (simp add: word_less_nat_alt add.commute)
qed

section \<open>Results\<close>

type_synonym ('e, 'a) result = "'e + 'a"

definition rbind :: "('e, 'a) result \<Rightarrow> ('a \<Rightarrow> ('e, 'b) result) \<Rightarrow> ('e, 'b) result" where
  "rbind m f = (case m of Inl e \<Rightarrow> Inl e | Inr x \<Rightarrow> f x)"

definition map_err :: "('e \<Rightarrow> 'f) \<Rightarrow> ('e, 'a) result \<Rightarrow> ('f, 'a) result" where
  "map_err g m = (case m of Inl e \<Rightarrow> Inl (g e) | Inr x \<Rightarrow> Inr x)"

lemma rbind_simps [simp, result_simps]:
  "rbind (Inl e) f = Inl e"
  "rbind (Inr x) f = f x"
  by (simp_all add: rbind_def)

lemma map_err_simps [simp, result_simps]:
  "map_err g (Inl e) = Inl (g e)"
  "map_err g (Inr x) = Inr x"
  by (simp_all add: map_err_def)

lemma rbind_eq_Inr_conv [result_simps]:
  "rbind m f = Inr y \<longleftrightarrow> (\<exists>x. m = Inr x \<and> f x = Inr y)"
  by (cases m) auto

lemma rbind_eq_Inl_conv [result_simps]:
  "rbind m f = Inl e \<longleftrightarrow> m = Inl e \<or> (\<exists>x. m = Inr x \<and> f x = Inl e)"
  by (cases m) auto

lemma map_err_eq_Inr_conv [result_simps]: "map_err g m = Inr y \<longleftrightarrow> m = Inr y"
  by (cases m) auto

lemma map_err_eq_Inl_conv [result_simps]: "map_err g m = Inl f \<longleftrightarrow> (\<exists>e. m = Inl e \<and> f = g e)"
  by (cases m) auto

section \<open>Association lists\<close>

text \<open>
  Hash maps and the recency lists of caches are association lists with distinct keys;
  removal of a key is \<^const>\<open>AList.delete\<close>.
\<close>

abbreviation keys_of :: "('k \<times> 'v) list \<Rightarrow> 'k list" where
  "keys_of xs \<equiv> map fst xs"

abbreviation (input) wf_alist :: "('k \<times> 'v) list \<Rightarrow> bool" where
  "wf_alist xs \<equiv> distinct (map fst xs)"

lemma adelete_filter [alist_simps]: "AList.delete k xs = filter (\<lambda>p. fst p \<noteq> k) xs"
  by (auto simp: AList.delete_eq case_prod_beta intro: filter_cong)

lemma keys_of_adelete [simp, alist_simps]:
  "keys_of (AList.delete k xs) = filter (\<lambda>x. x \<noteq> k) (keys_of xs)"
  by (simp add: adelete_filter filter_map comp_def)

lemma set_adelete [alist_simps]: "set (AList.delete k xs) = {p \<in> set xs. fst p \<noteq> k}"
  by (auto simp: adelete_filter)

lemma map_of_adelete [simp, alist_simps]: "map_of (AList.delete k xs) = (map_of xs)(k := None)"
  by (simp add: AList.delete_conv')

lemma key_mem_iff:
  "k \<in> set (keys_of xs) \<longleftrightarrow> map_of xs k \<noteq> None"
  "k \<in> fst ` set xs \<longleftrightarrow> map_of xs k \<noteq> None"
  by (simp_all add: map_of_eq_None_iff)

lemma wf_alist_adelete [simp, intro]: "wf_alist xs \<Longrightarrow> wf_alist (AList.delete k xs)"
  by (simp only: keys_of_adelete distinct_filter)

lemma adelete_notin [simp]: "k \<notin> set (keys_of xs) \<Longrightarrow> AList.delete k xs = xs"
  by (auto simp: adelete_filter filter_id_conv)

lemma adelete_Cons_same [simp]: "k \<notin> set (keys_of xs) \<Longrightarrow> AList.delete k ((k, v) # xs) = xs"
  using adelete_notin [of k xs] by (simp add: adelete_filter)

lemma adelete_append: "AList.delete k (xs @ ys) = AList.delete k xs @ AList.delete k ys"
  by (simp add: adelete_filter)

lemma length_adelete_mem:
  "wf_alist xs \<Longrightarrow> k \<in> set (keys_of xs) \<Longrightarrow> Suc (length (AList.delete k xs)) = length xs"
proof (induction xs)
  case (Cons p xs)
  show ?case
  proof (cases "fst p = k")
    case True
    with Cons.prems have "AList.delete k xs = xs" by (intro adelete_notin) auto
    with True show ?thesis by (simp add: adelete_filter)
  next
    case False
    with Cons show ?thesis by (auto simp: adelete_filter)
  qed
qed simp

lemma length_adelete_le [simp]: "length (AList.delete k xs) \<le> length xs"
  by (simp add: adelete_filter)

lemma map_of_split:
  assumes "wf_alist xs" and "map_of xs k = Some v"
  obtains us vs where "xs = us @ (k, v) # vs" and "k \<notin> set (keys_of us)" and "k \<notin> set (keys_of vs)"
proof -
  from assms(2) have "(k, v) \<in> set xs" by (rule map_of_SomeD)
  then obtain us vs where xs: "xs = us @ (k, v) # vs"
    by (meson split_list)
  with assms(1) show ?thesis by (intro that [of us vs]) auto
qed

lemma adelete_mid:
  "k \<notin> set (keys_of us) \<Longrightarrow> k \<notin> set (keys_of vs) \<Longrightarrow> AList.delete k (us @ (k, v) # vs) = us @ vs"
  by (simp add: adelete_append)

section \<open>Lists\<close>

lemma takeWhile_sorted_filter:
  assumes "sorted_wrt (\<lambda>a b. P b \<longrightarrow> P a) xs"
  shows "takeWhile P xs = filter P xs"
  using assms
proof (induction xs)
  case (Cons x xs)
  show ?case
  proof (cases "P x")
    case True
    with Cons show ?thesis by simp
  next
    case False
    with Cons.prems have "\<forall>y\<in>set xs. \<not> P y" by auto
    with False show ?thesis by simp
  qed
qed simp

lemma snoc_cases:
  obtains (Nil) "xs = []" | (Snoc) ys y where "xs = ys @ [y]"
  by (cases xs rule: rev_cases) auto

lemma sum_list_adelete:
  fixes f :: "'k \<times> 'v \<Rightarrow> nat"
  assumes "wf_alist xs" and "map_of xs k = Some v"
  shows "sum_list (map f xs) = f (k, v) + sum_list (map f (AList.delete k xs))"
proof -
  obtain us vs where xs: "xs = us @ (k, v) # vs"
    and k: "k \<notin> set (keys_of us)" "k \<notin> set (keys_of vs)"
    using map_of_split [OF assms] .
  have del: "AList.delete k xs = us @ vs"
    unfolding xs by (rule adelete_mid [OF k])
  show ?thesis unfolding del unfolding xs by simp
qed

end
