(* ===== verification/Lru_Cache.thy ===== *)
theory Lru_Cache
  imports Prelude
begin

text \<open>
  The interface of the \<^verbatim>\<open>lru\<close> crate's \<^verbatim>\<open>LruCache\<close>. The crate is not part of the
  repository: its operations are a parameter of the model, the record \<open>lru_ops\<close>,
  and the locale \<open>lru_cache\<close> states the documented behaviour that the code relies on, in
  terms of the entries from the most to the least recently used one (the order of
  \<^verbatim>\<open>LruCache::iter\<close>). \<open>lru_get_mut\<close> takes the write that the caller makes through the
  reference \<^verbatim>\<open>get_mut\<close> returns, and gives back the value found before that write.

  The components that use a cache (the fragment logs, the blockchain heads, the reference
  cache, the quarantine records, the handshakes in progress, the leadership logs) take
  the record as an argument. The interpretation at the end, on a bounded
  recency list, shows that the documented laws can hold together.
\<close>

record ('c, 'k, 'v) lru_ops =
  lru_new :: "nat \<Rightarrow> 'c"
  lru_cap :: "'c \<Rightarrow> nat"
  lru_iter :: "'c \<Rightarrow> ('k \<times> 'v) list"
  lru_put :: "'c \<Rightarrow> 'k \<Rightarrow> 'v \<Rightarrow> 'c"
  lru_get :: "'c \<Rightarrow> 'k \<Rightarrow> 'v option \<times> 'c"
  lru_get_mut :: "'c \<Rightarrow> 'k \<Rightarrow> ('v \<Rightarrow> 'v) \<Rightarrow> 'v option \<times> 'c"
  lru_peek :: "'c \<Rightarrow> 'k \<Rightarrow> 'v option"
  lru_contains :: "'c \<Rightarrow> 'k \<Rightarrow> bool"
  lru_pop :: "'c \<Rightarrow> 'k \<Rightarrow> 'v option \<times> 'c"
  lru_peek_lru :: "'c \<Rightarrow> ('k \<times> 'v) option"
  lru_pop_lru :: "'c \<Rightarrow> ('k \<times> 'v) option \<times> 'c"

text \<open>Moving a key to the most recent position.\<close>

definition to_front :: "'k \<Rightarrow> ('v \<Rightarrow> 'v) \<Rightarrow> ('k \<times> 'v) list \<Rightarrow> ('k \<times> 'v) list" where
  "to_front k f xs = (case map_of xs k of None \<Rightarrow> xs | Some v \<Rightarrow> (k, f v) # AList.delete k xs)"

lemma to_front_absent [simp]: "map_of xs k = None \<Longrightarrow> to_front k f xs = xs"
  by (simp add: to_front_def)

lemma to_front_present [simp]: "map_of xs k = Some v \<Longrightarrow> to_front k f xs = (k, f v) # AList.delete k xs"
  by (simp add: to_front_def)

lemma keys_to_front: "set (keys_of (to_front k f xs)) = set (keys_of xs)"
  by (cases "map_of xs k") (auto simp: to_front_def set_adelete dest: map_of_SomeD intro: rev_image_eqI)

lemma wf_alist_to_front: "wf_alist xs \<Longrightarrow> wf_alist (to_front k f xs)"
  by (cases "map_of xs k") (auto simp del: keys_of_adelete simp: set_adelete intro: wf_alist_adelete)

lemma length_to_front: "wf_alist xs \<Longrightarrow> length (to_front k f xs) = length xs"
proof (cases "map_of xs k")
  case (Some v)
  assume "wf_alist xs"
  moreover have "k \<in> set (keys_of xs)" using Some by (force dest: map_of_SomeD)
  ultimately show ?thesis using Some length_adelete_mem by simp
qed simp

locale lru_cache =
  fixes L :: "('c, 'k, 'v) lru_ops"
  assumes iter_new: "lru_iter L (lru_new L n) = []"
    and keys_distinct: "distinct (map fst (lru_iter L c))"
    and iter_length: "length (lru_iter L c) \<le> lru_cap L c"
    and iter_put: "0 < lru_cap L c \<Longrightarrow>
          lru_iter L (lru_put L c k v) = take (lru_cap L c) ((k, v) # AList.delete k (lru_iter L c))"
    and get_result: "fst (lru_get L c k) = map_of (lru_iter L c) k"
    and iter_get: "lru_iter L (snd (lru_get L c k)) = to_front k (\<lambda>v. v) (lru_iter L c)"
    and get_mut_result: "fst (lru_get_mut L c k f) = map_of (lru_iter L c) k"
    and iter_get_mut: "lru_iter L (snd (lru_get_mut L c k f)) = to_front k f (lru_iter L c)"
    and peek_result: "lru_peek L c k = map_of (lru_iter L c) k"
    and contains_iff: "lru_contains L c k \<longleftrightarrow> k \<in> set (map fst (lru_iter L c))"
    and pop_result: "fst (lru_pop L c k) = map_of (lru_iter L c) k"
    and iter_pop: "lru_iter L (snd (lru_pop L c k)) = AList.delete k (lru_iter L c)"
    and peek_lru_result: "lru_peek_lru L c = (if lru_iter L c = [] then None else Some (last (lru_iter L c)))"
    and pop_lru_result: "fst (lru_pop_lru L c) = lru_peek_lru L c"
    and iter_pop_lru: "lru_iter L (snd (lru_pop_lru L c)) = butlast (lru_iter L c)"
    and cap_new: "lru_cap L (lru_new L n) = n"
    and cap_put: "lru_cap L (lru_put L c k v) = lru_cap L c"
    and cap_get: "lru_cap L (snd (lru_get L c k)) = lru_cap L c"
    and cap_get_mut: "lru_cap L (snd (lru_get_mut L c k f)) = lru_cap L c"
    and cap_pop: "lru_cap L (snd (lru_pop L c k)) = lru_cap L c"
    and cap_pop_lru: "lru_cap L (snd (lru_pop_lru L c)) = lru_cap L c"
begin

lemmas caps = cap_new cap_put cap_get cap_get_mut cap_pop cap_pop_lru
lemmas iters = iter_new iter_put iter_get iter_get_mut iter_pop iter_pop_lru
lemmas results = get_result get_mut_result peek_result contains_iff pop_result peek_lru_result pop_lru_result

text \<open>The key just put is the most recent one, and it is retrievable.\<close>

lemma put_front: "0 < lru_cap L c \<Longrightarrow> \<exists>xs. lru_iter L (lru_put L c k v) = (k, v) # xs"
  by (cases "lru_cap L c") (auto simp: iter_put)

lemma get_put: "0 < lru_cap L c \<Longrightarrow> fst (lru_get L (lru_put L c k v) k) = Some v"
  using put_front [of c k v] by (auto simp: get_result)

text \<open>A put evicts only when the cache is full and the key is new.\<close>

lemma iter_put_room:
  assumes "length (lru_iter L c) < lru_cap L c"
  shows "lru_iter L (lru_put L c k v) = (k, v) # AList.delete k (lru_iter L c)"
proof -
  have "length (AList.delete k (lru_iter L c)) < lru_cap L c"
    by (rule le_less_trans [OF length_adelete_le assms])
  then show ?thesis by (cases "lru_cap L c") (simp_all add: iter_put)
qed

lemma put_keys_subset:
  assumes "0 < lru_cap L c" and "p \<in> set (lru_iter L (lru_put L c k v))"
  shows "p = (k, v) \<or> p \<in> set (lru_iter L c) \<and> fst p \<noteq> k"
proof -
  have "p \<in> set ((k, v) # AList.delete k (lru_iter L c))"
    using assms by (metis in_set_takeD iter_put)
  then show ?thesis by (auto simp: set_adelete)
qed

end

section \<open>A bounded recency list satisfies the laws\<close>

typedef ('k, 'v) recency_list =
  "{p :: nat \<times> ('k \<times> 'v) list. wf_alist (snd p) \<and> length (snd p) \<le> fst p}"
  by (rule exI [of _ "(0, [])"]) simp

setup_lifting type_definition_recency_list

lift_definition rl_new :: "nat \<Rightarrow> ('k, 'v) recency_list" is "\<lambda>n. (n, [])"
  by simp

lift_definition rl_cap :: "('k, 'v) recency_list \<Rightarrow> nat" is fst .

lift_definition rl_iter :: "('k, 'v) recency_list \<Rightarrow> ('k \<times> 'v) list" is snd .

lift_definition rl_put :: "('k, 'v) recency_list \<Rightarrow> 'k \<Rightarrow> 'v \<Rightarrow> ('k, 'v) recency_list" is
  "\<lambda>(n, xs) k v. (n, take n ((k, v) # AList.delete k xs))"
  by (auto simp: take_map [symmetric] simp del: take_Suc_Cons intro!: distinct_take)

lift_definition rl_modify :: "('k, 'v) recency_list \<Rightarrow> 'k \<Rightarrow> ('v \<Rightarrow> 'v) \<Rightarrow> ('k, 'v) recency_list" is
  "\<lambda>(n, xs) k f. (n, to_front k f xs)"
  by (auto simp: wf_alist_to_front length_to_front)

lift_definition rl_delete :: "('k, 'v) recency_list \<Rightarrow> 'k \<Rightarrow> ('k, 'v) recency_list" is
  "\<lambda>(n, xs) k. (n, AList.delete k xs)"
  by (auto simp del: keys_of_adelete intro: wf_alist_adelete order_trans [OF length_adelete_le])

lift_definition rl_butlast :: "('k, 'v) recency_list \<Rightarrow> ('k, 'v) recency_list" is
  "\<lambda>(n, xs). (n, butlast xs)"
  by (auto simp: map_butlast distinct_butlast)

definition recency_ops :: "(('k, 'v) recency_list, 'k, 'v) lru_ops" where
  "recency_ops =
     (let last_entry = (\<lambda>c. if rl_iter c = [] then None else Some (last (rl_iter c))) in
      \<lparr>lru_new = rl_new, lru_cap = rl_cap, lru_iter = rl_iter, lru_put = rl_put,
       lru_get = (\<lambda>c k. (map_of (rl_iter c) k, rl_modify c k (\<lambda>v. v))),
       lru_get_mut = (\<lambda>c k f. (map_of (rl_iter c) k, rl_modify c k f)),
       lru_peek = (\<lambda>c. map_of (rl_iter c)),
       lru_contains = (\<lambda>c k. k \<in> set (keys_of (rl_iter c))),
       lru_pop = (\<lambda>c k. (map_of (rl_iter c) k, rl_delete c k)),
       lru_peek_lru = last_entry,
       lru_pop_lru = (\<lambda>c. (last_entry c, rl_butlast c))\<rparr>)"

interpretation recency: lru_cache recency_ops
  by unfold_locales
    (simp_all add: recency_ops_def Let_def; transfer; auto)+

end
