(* ===== verification/Block_Date.thy ===== *)
theory Block_Date
  imports Prelude
begin

text \<open>
  Block dates (\<^verbatim>\<open>jormungandr-lib/src/interfaces/blockdate.rs\<close>): a pair of an epoch number
  and a slot number within the epoch, both 32-bit, ordered lexicographically (the order
  \<^verbatim>\<open>derive(Ord)\<close> gives the two fields). The textual form is produced and
  parsed by the ledger library and is not modelled.
\<close>

datatype block_date = BlockDate (epoch: u32) (slot_id: u32)

instantiation block_date :: linorder
begin

definition less_eq_block_date :: "block_date \<Rightarrow> block_date \<Rightarrow> bool" where
  "less_eq_block_date a b \<longleftrightarrow> epoch a < epoch b \<or> epoch a = epoch b \<and> slot_id a \<le> slot_id b"

definition less_block_date :: "block_date \<Rightarrow> block_date \<Rightarrow> bool" where
  "less_block_date a b \<longleftrightarrow> epoch a < epoch b \<or> epoch a = epoch b \<and> slot_id a < slot_id b"

instance
  by intro_classes
    (auto simp: less_eq_block_date_def less_block_date_def block_date.expand)

end

lemma block_date_less_simp [simp]:
  "BlockDate e s < BlockDate e' s' \<longleftrightarrow> e < e' \<or> e = e' \<and> s < s'"
  by (simp add: less_block_date_def)

lemma block_date_le_simp [simp]:
  "BlockDate e s \<le> BlockDate e' s' \<longleftrightarrow> e < e' \<or> e = e' \<and> s \<le> s'"
  by (simp add: less_eq_block_date_def)

text \<open>
  \<^verbatim>\<open>shift_epoch\<close> and \<^verbatim>\<open>shift_slot\<close> iterate the ledger library's successor functions
  \<^verbatim>\<open>next_epoch\<close> and \<^verbatim>\<open>next\<close>, which are parameters.
\<close>

definition shift_epoch :: "(block_date \<Rightarrow> block_date) \<Rightarrow> block_date \<Rightarrow> u32 \<Rightarrow> block_date" where
  "shift_epoch next_epoch d epoch_shift = (next_epoch ^^ unat epoch_shift) d"

definition shift_slot :: "(block_date \<Rightarrow> 'era \<Rightarrow> block_date) \<Rightarrow> block_date \<Rightarrow> u32 \<Rightarrow> 'era \<Rightarrow> block_date" where
  "shift_slot next_date d slot_shift time_era = ((\<lambda>x. next_date x time_era) ^^ unat slot_shift) d"

end
