(* ===== verification/Reference_Chain.thy ===== *)
theory Reference_Chain
  imports Block_Date
begin

text \<open>
  References to blocks, the crate \<^verbatim>\<open>modules/blockchain\<close>: the settings of block 0
  (\<^verbatim>\<open>block0.rs\<close>), the information of an epoch (\<^verbatim>\<open>epoch_info.rs\<close>), and \<^verbatim>\<open>Reference\<close>
  (\<^verbatim>\<open>reference.rs\<close>), a block header with the ledger after the block and a link to
  an earlier reference.

  Ledgers, leaderships and time frames are types of the ledger library, used through the
  record \<open>chain_ops\<close>, an argument of the definitions. The locale \<open>chain_length_laws\<close> states the
  documented behaviour of the arithmetic on chain lengths. A system time is a number of
  seconds since the Unix epoch; reading the clock is an argument.
\<close>

section \<open>Headers, blocks and the ledger library\<close>

record ('hid, 'x) header =
  h_hash :: 'hid
  h_block_parent_hash :: 'hid
  h_block_date :: block_date
  h_chain_length :: u32
  h_content :: 'x

datatype 'q config_param = SlotDuration "8 word" | Block0Date u64 | OtherParam 'q

text \<open>
  The fragments of a block, of which block 0 has one with the initial settings:
  \<open>Some params\<close> is the contents of \<^verbatim>\<open>Fragment::Initial\<close>, \<open>None\<close> any other fragment.
\<close>

record ('hid, 'x, 'f, 'q) block =
  b_header :: "('hid, 'x) header"
  b_contents :: "('f \<times> 'q config_param list option) list"

record ('hid, 'x, 'f, 'q, 'lg, 'ld, 'e, 'tf) chain_ops =
  chain_length_increase :: "u32 \<Rightarrow> u32"
  chain_length_nth_ancestor :: "u32 \<Rightarrow> u32 \<Rightarrow> u32 option"
  ledger_new :: "'hid \<Rightarrow> ('f \<times> 'q config_param list option) list \<Rightarrow> ('e, 'lg) result"
  ledger_apply_block :: "'lg \<Rightarrow> ('f \<times> 'q config_param list option) list \<Rightarrow> ('hid, 'x) header \<Rightarrow> ('e, 'lg) result"
  ledger_apply_protocol_changes :: "'lg \<Rightarrow> ('e, 'lg) result"
  ledger_is_genesis_praos :: "'lg \<Rightarrow> bool"
  ledger_epoch_stability_depth :: "'lg \<Rightarrow> u32"
  leadership_new :: "u32 \<Rightarrow> 'lg \<Rightarrow> 'ld"
  leadership_epoch :: "'ld \<Rightarrow> u32"
  leadership_verify :: "'ld \<Rightarrow> ('hid, 'x) header \<Rightarrow> 'e option"
  leadership_distribute_rewards :: "'ld \<Rightarrow> ('lg \<Rightarrow> ('e, 'lg) result) option"
  leadership_era_slot :: "'ld \<Rightarrow> block_date \<Rightarrow> u64"
  time_frame_new :: "nat \<Rightarrow> u32 \<Rightarrow> 'tf"
  time_frame_slot_time :: "'tf \<Rightarrow> u64 \<Rightarrow> nat option"

section \<open>Block 0\<close>

datatype block0_error = NoInitialSettings | NoStartTime | NoDiscrimination | NoSlotDuration | NoSlotsPerEpoch

fun block0_initial :: "('f \<times> 'q config_param list option) list \<Rightarrow> (block0_error, 'q config_param list) result" where
  "block0_initial [] = Inl NoInitialSettings"
| "block0_initial ((_, Some init) # fs) = Inr init"
| "block0_initial ((_, None) # fs) = block0_initial fs"

fun find_slot_duration :: "'q config_param list \<Rightarrow> (block0_error, u64) result" where
  "find_slot_duration [] = Inl NoSlotDuration"
| "find_slot_duration (SlotDuration d # cs) = Inr (ucast d)"
| "find_slot_duration (_ # cs) = find_slot_duration cs"

definition slot_duration :: "('hid, 'x, 'f, 'q) block \<Rightarrow> (block0_error, u64) result" where
  "slot_duration block0 = rbind (block0_initial (b_contents block0)) find_slot_duration"

text \<open>
  \<^verbatim>\<open>SystemTime::UNIX_EPOCH + Duration\<close> panics when the seconds exceed the signed 64-bit range.
\<close>

definition unix_epoch_plus :: "u64 \<Rightarrow> nat option" where
  "unix_epoch_plus secs = (if unat secs < 2 ^ 63 then Some (unat secs) else None)"

fun find_start_time :: "'q config_param list \<Rightarrow> (block0_error, nat) result option" where
  "find_start_time [] = Some (Inl NoStartTime)"
| "find_start_time (Block0Date d # cs) = map_option Inr (unix_epoch_plus d)"
| "find_start_time (_ # cs) = find_start_time cs"

definition start_time :: "('hid, 'x, 'f, 'q) block \<Rightarrow> (block0_error, nat) result option" where
  "start_time block0 =
     (case block0_initial (b_contents block0) of
        Inl e \<Rightarrow> Some (Inl e)
      | Inr init \<Rightarrow> find_start_time init)"

section \<open>Epoch information\<close>

record ('ld, 'tf, 'rw) epoch_info =
  ei_time_frame :: 'tf
  ei_leadership :: 'ld
  ei_rewards_info :: "'rw option"

datatype 'e epoch_info_error = InvalidBlock0 block0_error | HeaderVerification 'e

definition epoch_info_new ::
  "('hid, 'x, 'f, 'q, 'lg, 'ld, 'e, 'tf) chain_ops \<Rightarrow> ('hid, 'x, 'f, 'q) block \<Rightarrow> 'lg
    \<Rightarrow> ('e epoch_info_error, ('ld, 'tf, 'rw) epoch_info) result option" where
  "epoch_info_new C block0 ledger = do {
     started \<leftarrow> start_time block0;
     Some (map_err InvalidBlock0
       (rbind started (\<lambda>start. rbind (slot_duration block0) (\<lambda>duration.
          Inr \<lparr>ei_time_frame = time_frame_new C start (ucast duration),
               ei_leadership = leadership_new C (epoch (h_block_date (b_header block0))) ledger,
               ei_rewards_info = None\<rparr>))))
   }"

definition epoch_info_chain ::
  "('ld, 'tf, 'rw) epoch_info \<Rightarrow> 'ld \<Rightarrow> 'rw option \<Rightarrow> ('ld, 'tf, 'rw) epoch_info" where
  "epoch_info_chain ei leadership rewards_info =
     \<lparr>ei_time_frame = ei_time_frame ei, ei_leadership = leadership, ei_rewards_info = rewards_info\<rparr>"

definition check_header ::
  "('hid, 'x, 'f, 'q, 'lg, 'ld, 'e, 'tf) chain_ops \<Rightarrow> ('ld, 'tf, 'rw) epoch_info \<Rightarrow> ('hid, 'x) header
    \<Rightarrow> ('e epoch_info_error, unit) result" where
  "check_header C ei header =
     (case leadership_verify C (ei_leadership ei) header of
        Some error \<Rightarrow> Inl (HeaderVerification error)
      | None \<Rightarrow> Inr ())"

definition epoch_info_slot_of ::
  "('hid, 'x, 'f, 'q, 'lg, 'ld, 'e, 'tf) chain_ops \<Rightarrow> ('ld, 'tf, 'rw) epoch_info \<Rightarrow> block_date \<Rightarrow> u64" where
  "epoch_info_slot_of C ei date = leadership_era_slot C (ei_leadership ei) date"

definition epoch_info_time_of ::
  "('hid, 'x, 'f, 'q, 'lg, 'ld, 'e, 'tf) chain_ops \<Rightarrow> ('ld, 'tf, 'rw) epoch_info \<Rightarrow> block_date \<Rightarrow> nat option" where
  "epoch_info_time_of C ei date = time_frame_slot_time C (ei_time_frame ei) (epoch_info_slot_of C ei date)"

section \<open>References\<close>

datatype ('hid, 'x, 'lg, 'ld, 'tf, 'rw) reference =
  Reference (r_ledger: 'lg) (r_header: "('hid, 'x) header") (r_epoch_info: "('ld, 'tf, 'rw) epoch_info")
    (r_previous_epoch_state: "('hid, 'x, 'lg, 'ld, 'tf, 'rw) reference option")

definition r_hash :: "('hid, 'x, 'lg, 'ld, 'tf, 'rw) reference \<Rightarrow> 'hid" where
  "r_hash r = h_hash (r_header r)"

definition r_block_parent_hash :: "('hid, 'x, 'lg, 'ld, 'tf, 'rw) reference \<Rightarrow> 'hid" where
  "r_block_parent_hash r = h_block_parent_hash (r_header r)"

definition r_block_date :: "('hid, 'x, 'lg, 'ld, 'tf, 'rw) reference \<Rightarrow> block_date" where
  "r_block_date r = h_block_date (r_header r)"

definition r_chain_length :: "('hid, 'x, 'lg, 'ld, 'tf, 'rw) reference \<Rightarrow> u32" where
  "r_chain_length r = h_chain_length (r_header r)"

datatype ('hid, 'e) reference_error =
    LedgerError 'e
  | EpochInfoError "'e epoch_info_error"
  | NotTheParentBlock 'hid 'hid
  | InvalidChainLength u32 u32
  | InvalidBlockDate block_date block_date

definition reference_new ::
  "('hid, 'x, 'f, 'q, 'lg, 'ld, 'e, 'tf) chain_ops \<Rightarrow> ('hid, 'x, 'f, 'q) block
    \<Rightarrow> (('hid, 'e) reference_error, ('hid, 'x, 'lg, 'ld, 'tf, 'rw) reference) result option" where
  "reference_new C block0 =
     (case ledger_new C (h_hash (b_header block0)) (b_contents block0) of
        Inl e \<Rightarrow> Some (Inl (LedgerError e))
      | Inr ledger \<Rightarrow>
          map_option (\<lambda>ei. rbind (map_err EpochInfoError ei)
              (\<lambda>ei. Inr (Reference ledger (b_header block0) ei None)))
            (epoch_info_new C block0 ledger))"

definition check_child ::
  "('hid, 'x, 'lg, 'ld, 'tf, 'rw) reference \<Rightarrow> ('hid, 'x, 'f, 'q) block \<Rightarrow> (('hid, 'e) reference_error, unit) result" where
  "check_child r block =
     (if r_hash r \<noteq> h_block_parent_hash (b_header block)
      then Inl (NotTheParentBlock (r_hash r) (h_block_parent_hash (b_header block)))
      else Inr ())"

definition check_chain_length ::
  "('hid, 'x, 'f, 'q, 'lg, 'ld, 'e, 'tf) chain_ops \<Rightarrow> ('hid, 'x, 'lg, 'ld, 'tf, 'rw) reference
    \<Rightarrow> ('hid, 'x, 'f, 'q) block \<Rightarrow> (('hid, 'e) reference_error, unit) result" where
  "check_chain_length C r block =
     (if chain_length_increase C (r_chain_length r) \<noteq> h_chain_length (b_header block)
      then Inl (InvalidChainLength (chain_length_increase C (r_chain_length r)) (h_chain_length (b_header block)))
      else Inr ())"

definition check_block_date ::
  "('hid, 'x, 'lg, 'ld, 'tf, 'rw) reference \<Rightarrow> ('hid, 'x, 'f, 'q) block \<Rightarrow> (('hid, 'e) reference_error, unit) result" where
  "check_block_date r block =
     (if h_block_date (b_header block) \<le> r_block_date r
      then Inl (InvalidBlockDate (r_block_date r) (h_block_date (b_header block)))
      else Inr ())"

definition epoch_transition ::
  "('hid, 'x, 'f, 'q, 'lg, 'ld, 'e, 'tf) chain_ops \<Rightarrow> ('hid, 'x, 'lg, 'ld, 'tf, 'rw) reference
    \<Rightarrow> (('hid, 'e) reference_error, ('hid, 'x, 'lg, 'ld, 'tf, 'rw) reference) result" where
  "epoch_transition C r =
     rbind (map_err LedgerError (ledger_apply_protocol_changes C (r_ledger r))) (\<lambda>ledger.
     rbind (case leadership_distribute_rewards C (ei_leadership (r_epoch_info r)) of
              Some distribute \<Rightarrow> map_err LedgerError (distribute ledger)
            | None \<Rightarrow> Inr ledger) (\<lambda>ledger.
     Inr (Reference ledger (r_header r) (r_epoch_info r) (r_previous_epoch_state r))))"

definition new_epoch_info ::
  "('hid, 'x, 'f, 'q, 'lg, 'ld, 'e, 'tf) chain_ops \<Rightarrow> ('hid, 'x, 'lg, 'ld, 'tf, 'rw) reference \<Rightarrow> u32 \<Rightarrow> ('ld, 'tf, 'rw) epoch_info" where
  "new_epoch_info C r ep =
     epoch_info_chain (r_epoch_info r)
       (if ledger_is_genesis_praos C (r_ledger r) then
          (case r_previous_epoch_state r of
             Some previous_state \<Rightarrow> leadership_new C ep (r_ledger previous_state)
           | None \<Rightarrow> leadership_new C ep (r_ledger r))
        else leadership_new C ep (r_ledger r)) None"

definition chain_epoch_info ::
  "('hid, 'x, 'f, 'q, 'lg, 'ld, 'e, 'tf) chain_ops \<Rightarrow> ('hid, 'x, 'lg, 'ld, 'tf, 'rw) reference
    \<Rightarrow> ('hid, 'x, 'f, 'q) block \<Rightarrow> (('hid, 'e) reference_error, ('hid, 'x, 'lg, 'ld, 'tf, 'rw) reference) result" where
  "chain_epoch_info C r block =
     (let epoch' = epoch (h_block_date (b_header block)) in
      if epoch (r_block_date r) < epoch'
      then rbind (epoch_transition C r) (\<lambda>transition.
             Inr (Reference (r_ledger transition) (r_header transition)
                    (new_epoch_info C transition epoch') (r_previous_epoch_state r)))
      else Inr r)"

definition reference_chain ::
  "('hid, 'x, 'f, 'q, 'lg, 'ld, 'e, 'tf) chain_ops \<Rightarrow> ('hid, 'x, 'lg, 'ld, 'tf, 'rw) reference
    \<Rightarrow> ('hid, 'x, 'f, 'q) block \<Rightarrow> (('hid, 'e) reference_error, ('hid, 'x, 'lg, 'ld, 'tf, 'rw) reference) result" where
  "reference_chain C r block =
     rbind (check_child r block) (\<lambda>_.
     rbind (check_chain_length C r block) (\<lambda>_.
     rbind (check_block_date r block) (\<lambda>_.
     rbind (chain_epoch_info C r block) (\<lambda>transition_state.
     rbind (map_err EpochInfoError (check_header C (r_epoch_info transition_state) (b_header block))) (\<lambda>_.
     rbind (map_err LedgerError
              (ledger_apply_block C (r_ledger transition_state) (b_contents block) (b_header block))) (\<lambda>ledger.
     Inr (Reference ledger (b_header block) (r_epoch_info transition_state) (Some r))))))))"

definition reference_time ::
  "('hid, 'x, 'f, 'q, 'lg, 'ld, 'e, 'tf) chain_ops \<Rightarrow> ('hid, 'x, 'lg, 'ld, 'tf, 'rw) reference \<Rightarrow> nat option" where
  "reference_time C r = epoch_info_time_of C (r_epoch_info r) (r_block_date r)"

text \<open>\<^verbatim>\<open>elapsed\<close>: \<open>Inl\<close> the lead of a block that is scheduled in the future.\<close>

definition reference_elapsed ::
  "('hid, 'x, 'f, 'q, 'lg, 'ld, 'e, 'tf) chain_ops \<Rightarrow> nat \<Rightarrow> ('hid, 'x, 'lg, 'ld, 'tf, 'rw) reference
    \<Rightarrow> (nat, nat) result option" where
  "reference_elapsed C now r =
     map_option (\<lambda>t. if t \<le> now then Inr (now - t) else Inl (t - now)) (reference_time C r)"

section \<open>Common ancestors and selection\<close>

function common_ancestor_loop ::
  "('hid, 'x, 'lg, 'ld, 'tf, 'rw) reference \<Rightarrow> ('hid, 'x, 'lg, 'ld, 'tf, 'rw) reference
    \<Rightarrow> ('hid, 'x, 'lg, 'ld, 'tf, 'rw) reference option" where
  "common_ancestor_loop index1 index2 =
     (if r_hash index1 = r_hash index2 then Some index1
      else if r_chain_length index1 < r_chain_length index2
      then (case r_previous_epoch_state index2 of
              Some prev \<Rightarrow> common_ancestor_loop index1 prev
            | None \<Rightarrow> None)
      else (case r_previous_epoch_state index1 of
              Some prev \<Rightarrow> common_ancestor_loop prev index2
            | None \<Rightarrow> None))"
  by pat_completeness auto

termination
proof (relation "measure (\<lambda>(a, b). size a + size b)", goal_cases)
  case (2 index1 index2 prev)
  then show ?case by (cases index2) auto
next
  case (3 index1 index2 prev)
  then show ?case by (cases index1) auto
qed simp

declare common_ancestor_loop.simps [simp del]

definition approximate_common_ancestor ::
  "('hid, 'x, 'lg, 'ld, 'tf, 'rw) reference \<Rightarrow> ('hid, 'x, 'lg, 'ld, 'tf, 'rw) reference
    \<Rightarrow> ('hid, 'x, 'lg, 'ld, 'tf, 'rw) reference option" where
  "approximate_common_ancestor index1 index2 =
     (if r_hash index1 = r_block_parent_hash index2 then Some index1
      else if r_block_parent_hash index1 = r_hash index2 then Some index2
      else common_ancestor_loop index1 index2)"

datatype selection_choice = PreferCurrent | PreferCandidate

definition reference_select ::
  "('hid, 'x, 'f, 'q, 'lg, 'ld, 'e, 'tf) chain_ops \<Rightarrow> nat \<Rightarrow> ('hid, 'x, 'lg, 'ld, 'tf, 'rw) reference
    \<Rightarrow> ('hid, 'x, 'lg, 'ld, 'tf, 'rw) reference \<Rightarrow> selection_choice option" where
  "reference_select C now current candidate = do {
     let epoch_stability_depth = ledger_epoch_stability_depth C (r_ledger current);
     elapsed \<leftarrow> reference_elapsed C now candidate;
     Some (case elapsed of
        Inl _ \<Rightarrow> PreferCurrent
      | Inr _ \<Rightarrow>
          if r_chain_length current < r_chain_length candidate then
            (case approximate_common_ancestor current candidate of
               Some common \<Rightarrow>
                 (case chain_length_nth_ancestor C (r_chain_length candidate) epoch_stability_depth of
                    Some ancestor \<Rightarrow>
                      if ancestor < r_chain_length common then PreferCurrent else PreferCandidate
                  | None \<Rightarrow> PreferCandidate)
             | None \<Rightarrow> PreferCurrent)
          else PreferCurrent)
   }"

section \<open>Checkpoints\<close>

text \<open>The loop of \<^verbatim>\<open>Checkpoints::new\<close> over the earlier references.\<close>

function checkpoints_loop ::
  "'hid \<Rightarrow> ('hid, 'x, 'lg, 'ld, 'tf, 'rw) reference \<Rightarrow> nat \<Rightarrow> nat \<Rightarrow> 'hid list" where
  "checkpoints_loop from_parent cursor to_skip skipped =
     (case r_previous_epoch_state cursor of
        None \<Rightarrow> []
      | Some prev \<Rightarrow>
          if r_hash prev = from_parent then checkpoints_loop from_parent prev to_skip skipped
          else if to_skip \<le> skipped
          then r_hash prev # checkpoints_loop from_parent prev (1 + to_skip * 2) 0
          else checkpoints_loop from_parent prev to_skip (skipped + 1))"
  by pat_completeness auto

termination
proof (relation "measure (\<lambda>(p, c, t, s). size c)", goal_cases)
  case (2 from_parent cursor to_skip skipped prev)
  then show ?case by (cases cursor) auto
next
  case (3 from_parent cursor to_skip skipped prev)
  then show ?case by (cases cursor) auto
next
  case (4 from_parent cursor to_skip skipped prev)
  then show ?case by (cases cursor) auto
qed simp

declare checkpoints_loop.simps [simp del]

definition checkpoints_new :: "('hid, 'x, 'lg, 'ld, 'tf, 'rw) reference \<Rightarrow> 'hid list" where
  "checkpoints_new from = [r_hash from, r_block_parent_hash from] @ checkpoints_loop (r_block_parent_hash from) from 0 0"

section \<open>Lineages\<close>

text \<open>A reference and the earlier references it keeps, newest first.\<close>

function lineage :: "('hid, 'x, 'lg, 'ld, 'tf, 'rw) reference \<Rightarrow> ('hid, 'x, 'lg, 'ld, 'tf, 'rw) reference list" where
  "lineage r = r # (case r_previous_epoch_state r of None \<Rightarrow> [] | Some p \<Rightarrow> lineage p)"
  by pat_completeness auto

termination
proof (relation "measure size", goal_cases)
  case (2 r p)
  then show ?case by (cases r) auto
qed simp

declare lineage.simps [simp del]

text \<open>The references the code can build.\<close>

inductive valid_reference ::
  "('hid, 'x, 'f, 'q, 'lg, 'ld, 'e, 'tf) chain_ops \<Rightarrow> ('hid, 'x, 'lg, 'ld, 'tf, 'rw) reference \<Rightarrow> bool"
  for C :: "('hid, 'x, 'f, 'q, 'lg, 'ld, 'e, 'tf) chain_ops" where
  genesis: "reference_new C block0 = Some (Inr r) \<Longrightarrow> valid_reference C r"
| chained: "valid_reference C r \<Longrightarrow> reference_chain C r block = Inr r' \<Longrightarrow> valid_reference C r'"

text \<open>The documented arithmetic of chain lengths.\<close>

locale chain_length_laws =
  fixes C :: "('hid, 'x, 'f, 'q, 'lg, 'ld, 'e, 'tf) chain_ops"
  assumes increase: "n \<noteq> - 1 \<Longrightarrow> chain_length_increase C n = n + 1"
    and nth_ancestor: "chain_length_nth_ancestor C n d = (if d \<le> n then Some (n - d) else None)"
begin

lemma increase_greater: "n \<noteq> - 1 \<Longrightarrow> n < chain_length_increase C n"
  by (simp add: increase word_less_inc)

end

lemma lineage_None: "r_previous_epoch_state r = None \<Longrightarrow> lineage r = [r]"
  by (subst lineage.simps) simp

lemma lineage_Some: "r_previous_epoch_state r = Some p \<Longrightarrow> lineage r = r # lineage p"
  by (subst lineage.simps) simp

lemma lineage_head: "\<exists>rs. lineage r = r # rs"
  by (subst lineage.simps) simp

lemma chain_epoch_info_header:
  "chain_epoch_info C r block = Inr ts \<Longrightarrow> r_header ts = r_header r"
  by (auto simp: chain_epoch_info_def Let_def epoch_transition_def result_simps split: if_splits option.splits)

lemma reference_chain_Inr:
  assumes "reference_chain C r block = Inr r'"
  shows "h_block_parent_hash (b_header block) = r_hash r"
    "h_chain_length (b_header block) = chain_length_increase C (r_chain_length r)"
    "r_block_date r < h_block_date (b_header block)"
    "r_header r' = b_header block" "r_previous_epoch_state r' = Some r"
    "\<exists>ts. chain_epoch_info C r block = Inr ts \<and> r_epoch_info r' = r_epoch_info ts \<and>
       leadership_verify C (ei_leadership (r_epoch_info ts)) (b_header block) = None \<and>
       ledger_apply_block C (r_ledger ts) (b_contents block) (b_header block) = Inr (r_ledger r')"
  using assms
  by (auto simp: reference_chain_def result_simps check_child_def check_chain_length_def check_block_date_def
      check_header_def split: if_splits option.splits)

lemma reference_new_Inr:
  assumes "reference_new C block0 = Some (Inr r)"
  shows "r_header r = b_header block0" "r_previous_epoch_state r = None"
  using assms by (auto simp: reference_new_def result_simps split: sum.splits)

lemma valid_lineage_linked:
  assumes "valid_reference C r"
  shows "successively (\<lambda>a b. r_block_parent_hash a = r_hash b \<and> r_block_date b < r_block_date a \<and>
       r_chain_length a = chain_length_increase C (r_chain_length b)) (lineage r)
     \<and> r_previous_epoch_state (last (lineage r)) = None"
  using assms
proof (induction rule: valid_reference.induct)
  case (genesis block0 r)
  then show ?case using reference_new_Inr(2) [OF genesis] by (simp add: lineage_None)
next
  case (chained r block r')
  note D = reference_chain_Inr [OF chained(2)]
  obtain rs where rs: "lineage r = r # rs" using lineage_head by blast
  with chained.IH D(1-4) show ?case
    unfolding lineage_Some [OF D(5)]
    by (simp add: r_block_parent_hash_def r_block_date_def r_chain_length_def)
qed


context chain_length_laws
begin

lemma valid_lineage_lengths:
  assumes "valid_reference C r" and "\<forall>a\<in>set (lineage r). r_chain_length a \<noteq> - 1"
  shows "sorted_wrt (\<lambda>a b. r_chain_length b < r_chain_length a) (lineage r)"
  using assms
proof (induction rule: valid_reference.induct)
  case (genesis block0 r)
  then show ?case using reference_new_Inr(2) [OF genesis(1)] by (simp add: lineage_None)
next
  case (chained r block r')
  note D = reference_chain_Inr [OF chained(2)]
  obtain rs where rs: "lineage r = r # rs" using lineage_head by blast
  have "r_chain_length r < r_chain_length r'"
    using chained.prems D increase_greater [of "r_chain_length r"]
    by (simp add: lineage_Some rs r_chain_length_def)
  with chained rs show ?case unfolding lineage_Some [OF D(5)] by (auto dest: less_trans)
qed

end

section \<open>The common ancestor\<close>

abbreviation hashes :: "('hid, 'x, 'lg, 'ld, 'tf, 'rw) reference \<Rightarrow> 'hid set" where
  "hashes r \<equiv> r_hash ` set (lineage r)"

text \<open>Blocks of the two lineages with the same hash have the same header.\<close>

definition collision_free ::
  "('hid, 'x, 'lg, 'ld, 'tf, 'rw) reference \<Rightarrow> ('hid, 'x, 'lg, 'ld, 'tf, 'rw) reference \<Rightarrow> bool" where
  "collision_free a b \<longleftrightarrow> (\<forall>x\<in>set (lineage a). \<forall>y\<in>set (lineage b). r_hash x = r_hash y \<longrightarrow> r_header x = r_header y)"

lemma hash_not_in_shorter:
  assumes "collision_free a b" and "sorted_wrt (\<lambda>x y. r_chain_length y < r_chain_length x) (lineage a)"
    and "r_chain_length a < r_chain_length b \<or> r_chain_length a = r_chain_length b \<and> r_hash a \<noteq> r_hash b"
  shows "r_hash b \<notin> hashes a"
proof
  assume "r_hash b \<in> hashes a"
  then obtain x where x: "x \<in> set (lineage a)" "r_hash x = r_hash b" by auto
  have "b \<in> set (lineage b)" using lineage_head [of b] by auto
  with x assms(1) have "r_chain_length x = r_chain_length b" by (auto simp: collision_free_def r_chain_length_def)
  moreover have "x = a \<or> r_chain_length x < r_chain_length a"
    using x(1) assms(2) lineage_head [of a] by auto
  ultimately show False using assms(3) x(2) by auto
qed

lemma collision_free_sym: "collision_free a b \<Longrightarrow> collision_free b a"
  by (auto simp: collision_free_def)

lemma collision_free_mono:
  "collision_free a b \<Longrightarrow> set (lineage a') \<subseteq> set (lineage a) \<Longrightarrow> set (lineage b') \<subseteq> set (lineage b) \<Longrightarrow> collision_free a' b'"
  by (auto simp: collision_free_def)

lemma common_ancestor_loop_correct:
  assumes "collision_free a b"
    and "sorted_wrt (\<lambda>x y. r_chain_length y < r_chain_length x) (lineage a)"
    and "sorted_wrt (\<lambda>x y. r_chain_length y < r_chain_length x) (lineage b)"
  shows "case common_ancestor_loop a b of
      None \<Rightarrow> hashes a \<inter> hashes b = {}
    | Some c \<Rightarrow> r_hash c \<in> hashes a \<and> r_hash c \<in> hashes b \<and> hashes a \<inter> hashes b \<subseteq> hashes c"
  using assms
proof (induction a b rule: common_ancestor_loop.induct)
  case (1 a b)
  have heads: "a \<in> set (lineage a)" "b \<in> set (lineage b)" using lineage_head [of a] lineage_head [of b] by auto
  consider (same) "r_hash a = r_hash b" | (older) "r_hash a \<noteq> r_hash b" "r_chain_length a < r_chain_length b"
    | (newer) "r_hash a \<noteq> r_hash b" "\<not> r_chain_length a < r_chain_length b" by blast
  then show ?case
  proof cases
    case same
    then have "common_ancestor_loop a b = Some a" by (subst common_ancestor_loop.simps) simp
    moreover have "r_hash a \<in> hashes a" "r_hash a \<in> hashes b"
      using imageI [OF heads(1), of r_hash] imageI [OF heads(2), of r_hash] same by simp_all
    ultimately show ?thesis by auto
  next
    case older
    have nb: "r_hash b \<notin> hashes a" by (rule hash_not_in_shorter [OF "1.prems"(1,2)]) (use older in blast)
    show ?thesis
    proof (cases "r_previous_epoch_state b")
      case None
      with older nb show ?thesis by (subst common_ancestor_loop.simps) (simp add: lineage_None)
    next
      case (Some p)
      have "collision_free a p" using "1.prems"(1) by (rule collision_free_mono) (auto simp: lineage_Some [OF Some])
      with "1.IH"(1) [OF older Some] "1.prems" have IH: "case common_ancestor_loop a p of
          None \<Rightarrow> hashes a \<inter> hashes p = {}
        | Some c \<Rightarrow> r_hash c \<in> hashes a \<and> r_hash c \<in> hashes p \<and> hashes a \<inter> hashes p \<subseteq> hashes c"
        by (simp add: lineage_Some [OF Some])
      have "common_ancestor_loop a b = common_ancestor_loop a p" using older Some by (subst common_ancestor_loop.simps) simp
      moreover have "hashes a \<inter> hashes b = hashes a \<inter> hashes p" using nb by (auto simp: lineage_Some [OF Some])
      ultimately show ?thesis using IH by (auto simp: lineage_Some [OF Some] split: option.splits)
    qed
  next
    case newer
    have na: "r_hash a \<notin> hashes b"
      by (rule hash_not_in_shorter [OF collision_free_sym [OF "1.prems"(1)] "1.prems"(3)]) (use newer in auto)
    show ?thesis
    proof (cases "r_previous_epoch_state a")
      case None
      with newer na show ?thesis by (subst common_ancestor_loop.simps) (simp add: lineage_None)
    next
      case (Some p)
      have "collision_free p b" using "1.prems"(1) by (rule collision_free_mono) (auto simp: lineage_Some [OF Some])
      with "1.IH"(2) [OF newer Some] "1.prems" have IH: "case common_ancestor_loop p b of
          None \<Rightarrow> hashes p \<inter> hashes b = {}
        | Some c \<Rightarrow> r_hash c \<in> hashes p \<and> r_hash c \<in> hashes b \<and> hashes p \<inter> hashes b \<subseteq> hashes c"
        by (simp add: lineage_Some [OF Some])
      have "common_ancestor_loop a b = common_ancestor_loop p b" using newer Some by (subst common_ancestor_loop.simps) simp
      moreover have "hashes a \<inter> hashes b = hashes p \<inter> hashes b" using na by (auto simp: lineage_Some [OF Some])
      ultimately show ?thesis using IH by (auto simp: lineage_Some [OF Some] split: option.splits)
    qed
  qed
qed

section \<open>Checkpoints as a selection of indices\<close>

fun pick :: "nat \<Rightarrow> nat \<Rightarrow> 'a list \<Rightarrow> 'a list" where
  "pick to_skip skipped [] = []"
| "pick to_skip skipped (h # hs) =
     (if to_skip \<le> skipped then h # pick (1 + to_skip * 2) 0 hs else pick to_skip (skipped + 1) hs)"

text \<open>The earlier blocks that the loop considers: all but the parent of the first one.\<close>

definition earlier_hashes :: "'hid \<Rightarrow> ('hid, 'x, 'lg, 'ld, 'tf, 'rw) reference \<Rightarrow> 'hid list" where
  "earlier_hashes parent r = filter (\<lambda>h. h \<noteq> parent) (map r_hash (tl (lineage r)))"

lemma checkpoints_loop_pick:
  "checkpoints_loop parent cursor to_skip skipped = pick to_skip skipped (earlier_hashes parent cursor)"
proof (induction parent cursor to_skip skipped rule: checkpoints_loop.induct)
  case (1 parent cursor to_skip skipped)
  show ?case
  proof (cases "r_previous_epoch_state cursor")
    case None
    then show ?thesis by (subst checkpoints_loop.simps) (simp add: earlier_hashes_def lineage_None)
  next
    case (Some prev)
    obtain rs where rs: "lineage prev = prev # rs" using lineage_head by blast
    have "earlier_hashes parent cursor =
        (if r_hash prev = parent then earlier_hashes parent prev else r_hash prev # earlier_hashes parent prev)"
      by (simp add: earlier_hashes_def lineage_Some [OF Some] rs)
    with "1.IH" [OF Some] Some show ?thesis by (subst checkpoints_loop.simps) simp
  qed
qed

lemma pick_skip:
  "skipped \<le> to_skip \<Longrightarrow> pick to_skip skipped hs =
     (if to_skip - skipped < length hs
      then hs ! (to_skip - skipped) # pick (1 + to_skip * 2) 0 (drop (Suc (to_skip - skipped)) hs) else [])"
proof (induction to_skip skipped hs rule: pick.induct)
  case (2 to_skip skipped h hs)
  show ?case
  proof (cases "to_skip \<le> skipped")
    case True
    with "2.prems" show ?thesis by simp
  next
    case False
    then have "to_skip - skipped = Suc (to_skip - (skipped + 1))" by simp
    with False "2.IH"(2) [OF False] show ?thesis by simp
  qed
qed simp

lemma pick_powers:
  assumes "2 ^ j - 1 \<le> length hs" and "length hs < 2 ^ n"
  shows "pick (2 ^ j - 1) 0 (drop (2 ^ j - 1) hs) =
     map (\<lambda>k. hs ! (2 ^ Suc k - 2)) (filter (\<lambda>k. 2 ^ Suc k - 2 < length hs) [j..<n])"
  using assms(1)
proof (induction "n - j" arbitrary: j)
  case 0
  then have "n \<le> j" by simp
  then have "(2 :: nat) ^ n \<le> 2 ^ j" by (rule power_increasing) simp
  with assms(2) have "length hs \<le> 2 ^ j - 1" by linarith
  then have "drop (2 ^ j - 1) hs = []" by simp
  with \<open>n \<le> j\<close> show ?case by simp
next
  case (Suc m)
  define t :: nat where "t = 2 ^ j - 1"
  have t: "2 ^ Suc j - 2 = t + t" "2 ^ Suc j - 1 = Suc (t + t)"
    using one_le_power [of "2 :: nat" j] unfolding t_def power_Suc by linarith+
  have up: "[j..<n] = j # [Suc j..<n]" using Suc.hyps(2) by (simp add: upt_rec)
  have step: "pick t 0 (drop t hs) =
      (if t + t < length hs then hs ! (t + t) # pick (Suc (t + t)) 0 (drop (Suc (t + t)) hs) else [])"
    using Suc.prems unfolding t_def [symmetric] by (subst pick_skip) (auto simp: add.commute mult_2_right)
  show ?case
  proof (cases "t + t < length hs")
    case True
    then have le: "2 ^ Suc j - 1 \<le> length hs" unfolding t by simp
    have "m = n - Suc j" using Suc.hyps(2) by simp
    from Suc.hyps(1) [OF this le] have "pick (Suc (t + t)) 0 (drop (Suc (t + t)) hs) =
        map (\<lambda>k. hs ! (2 ^ Suc k - 2)) (filter (\<lambda>k. 2 ^ Suc k - 2 < length hs) [Suc j..<n])"
      unfolding t(2) .
    with True step show ?thesis unfolding t_def [symmetric] up by (simp add: t(1) del: power_Suc)
  next
    case False
    have "length hs \<le> 2 ^ Suc k - 2" if "k \<in> set [j..<n]" for k
    proof -
      have "(2 :: nat) ^ Suc j \<le> 2 ^ Suc k" using that by (intro power_increasing) simp_all
      with False show ?thesis unfolding t(1) [symmetric] by linarith
    qed
    then have "filter (\<lambda>k. 2 ^ Suc k - 2 < length hs) [j..<n] = []" by (auto simp: filter_empty_conv not_less)
    with False step show ?thesis unfolding t_def [symmetric] by simp
  qed
qed

lemma pick_length: "2 ^ length (pick t 0 hs) * (t + 1) \<le> length hs + t + 1"
proof (induction "length hs" arbitrary: t hs rule: less_induct)
  case less
  show ?case
  proof (cases "t < length hs")
    case True
    then have "length (drop (Suc t) hs) < length hs" by simp
    from less [OF this, of "1 + t * 2"] True show ?thesis by (subst pick_skip) (auto simp: algebra_simps)
  next
    case False
    then show ?thesis by (subst pick_skip) auto
  qed
qed

section \<open>Correctness\<close>


text \<open>
  (C31) The common ancestor of two references. The search always ends; it returns a reference exactly when the
  two chains share a block, and then the lowest one: all blocks the two chains share are on the chain of the result.
  The hypotheses exclude hash collisions, a chain length at the end of its range, and a block 0 that
  names one of the blocks as its parent.
\<close>

theorem common_ancestor_is_lowest:
  assumes "chain_length_laws C" and "valid_reference C a" and "valid_reference C b" and "collision_free a b"
    and "\<forall>x\<in>set (lineage a) \<union> set (lineage b). r_chain_length x \<noteq> - 1"
    and "\<forall>x\<in>set (lineage a) \<union> set (lineage b).
           r_previous_epoch_state x = None \<longrightarrow> r_block_parent_hash x \<notin> hashes a \<union> hashes b"
  shows "case approximate_common_ancestor a b of
      None \<Rightarrow> hashes a \<inter> hashes b = {}
    | Some c \<Rightarrow> r_hash c \<in> hashes a \<and> r_hash c \<in> hashes b \<and> hashes a \<inter> hashes b \<subseteq> hashes c"
proof -
  have heads: "a \<in> set (lineage a)" "b \<in> set (lineage b)" using lineage_head [of a] lineage_head [of b] by auto
  have up: "r_block_parent_hash x \<in> hashes x" if "valid_reference C x" "r_previous_epoch_state x \<noteq> None" for x
  proof -
    from that(2) obtain p where p: "r_previous_epoch_state x = Some p" by blast
    moreover obtain ps where "lineage p = p # ps" using lineage_head by blast
    ultimately show ?thesis using valid_lineage_linked [OF that(1)] by (simp add: lineage_Some)
  qed
  have lens: "sorted_wrt (\<lambda>x y. r_chain_length y < r_chain_length x) (lineage a)"
    "sorted_wrt (\<lambda>x y. r_chain_length y < r_chain_length x) (lineage b)"
    using chain_length_laws.valid_lineage_lengths [OF assms(1,2)] chain_length_laws.valid_lineage_lengths [OF assms(1,3)]
      assms(5) by blast+
  have in_a: "r_hash a \<in> hashes a" and in_b: "r_hash b \<in> hashes b" using heads by blast+
  consider (child) "r_hash a = r_block_parent_hash b" | (parent) "r_hash a \<noteq> r_block_parent_hash b" "r_block_parent_hash a = r_hash b"
    | (other) "r_hash a \<noteq> r_block_parent_hash b" "r_block_parent_hash a \<noteq> r_hash b" by blast
  then show ?thesis
  proof cases
    case child
    then have "r_hash a \<in> hashes b" using up [OF assms(3)] assms(6) heads(2) in_a by (metis UnI1 UnI2)
    with child in_a show ?thesis by (simp add: approximate_common_ancestor_def)
  next
    case parent
    then have "r_hash b \<in> hashes a" using up [OF assms(2)] assms(6) heads(1) in_b by (metis UnI1 UnI2)
    with parent in_b show ?thesis by (simp add: approximate_common_ancestor_def)
  next
    case other
    then show ?thesis
      using common_ancestor_loop_correct [OF assms(4) lens] by (simp add: approximate_common_ancestor_def)
  qed
qed

text \<open>
  The checkpoints of a reference are its hash, its parent's hash, and then among the earlier blocks (without
  the parent) those at the positions 0, 2, 6, 14, ...: the gaps double, so their number
  is logarithmic in the length of the chain.
\<close>

theorem checkpoints_positions:
  "checkpoints_new r = [r_hash r, r_block_parent_hash r] @
     map (\<lambda>k. earlier_hashes (r_block_parent_hash r) r ! (2 ^ Suc k - 2))
       (filter (\<lambda>k. 2 ^ Suc k - 2 < length (earlier_hashes (r_block_parent_hash r) r))
          [0..<length (earlier_hashes (r_block_parent_hash r) r)]) \<and>
   2 ^ (length (checkpoints_new r) - 2) \<le> length (earlier_hashes (r_block_parent_hash r) r) + 1"
proof -
  let ?es = "earlier_hashes (r_block_parent_hash r) r"
  have "pick 0 0 ?es = map (\<lambda>k. ?es ! (2 ^ Suc k - 2)) (filter (\<lambda>k. 2 ^ Suc k - 2 < length ?es) [0..<length ?es])"
    using pick_powers [of 0 ?es "length ?es"] less_exp [of "length ?es"] by simp
  moreover have "2 ^ length (pick 0 0 ?es) \<le> length ?es + 1" using pick_length [of 0 ?es] by simp
  ultimately show ?thesis by (simp add: checkpoints_new_def checkpoints_loop_pick del: power_Suc)
qed

text \<open>
  The selection between the tip and a candidate compares the common ancestor with the stability depth the wrong way
  round: a valid direct successor of the tip that is already due is refused as soon as the chain is at least as
  long as a stability depth of two or more, since its common ancestor with the tip, the tip
  itself, lies above the block at that depth.
\<close>

theorem select_refuses_direct_child:
  assumes "chain_length_laws C" and "reference_chain C current block = Inr candidate"
    and "reference_elapsed C now candidate = Some (Inr elapsed)" and "r_chain_length current \<noteq> - 1"
    and "2 \<le> ledger_epoch_stability_depth C (r_ledger current)"
    and "ledger_epoch_stability_depth C (r_ledger current) \<le> r_chain_length candidate"
  shows "r_chain_length current < r_chain_length candidate \<and> reference_select C now current candidate = Some PreferCurrent"
proof -
  let ?d = "ledger_epoch_stability_depth C (r_ledger current)" and ?n = "r_chain_length current"
  note D = reference_chain_Inr [OF assms(2)]
  have len: "r_chain_length candidate = ?n + 1"
    using D(2,4) chain_length_laws.increase [OF assms(1,4)] by (simp add: r_chain_length_def)
  have longer: "?n < ?n + 1" using assms(4) by (rule word_less_inc)
  have "1 + ?n \<noteq> 0" using assms(4) by (simp add: add_eq_0_iff)
  then have "unat (?n + 1) = Suc (unat ?n)" using unatSuc [of ?n] by (simp add: add.commute)
  then have "?n + 1 - ?d < ?n"
    using assms(5,6) len by (simp add: word_less_nat_alt word_le_nat_alt unat_sub)
  moreover have "approximate_common_ancestor current candidate = Some current"
    using D(1,4) by (simp add: approximate_common_ancestor_def r_block_parent_hash_def)
  ultimately show ?thesis
    using assms(3,6) longer len by (simp add: reference_select_def chain_length_laws.nth_ancestor [OF assms(1)])
qed

section \<open>An example chain\<close>

definition example_chain_ops :: "(nat, unit, unit, unit, nat, unit, unit, unit) chain_ops" where
  "example_chain_ops = \<lparr>chain_length_increase = (\<lambda>n. n + 1),
     chain_length_nth_ancestor = (\<lambda>n d. if d \<le> n then Some (n - d) else None),
     ledger_new = (\<lambda>_ _. Inr 0), ledger_apply_block = (\<lambda>n _ _. Inr (Suc n)),
     ledger_apply_protocol_changes = Inr, ledger_is_genesis_praos = (\<lambda>_. True),
     ledger_epoch_stability_depth = (\<lambda>_. 2), leadership_new = (\<lambda>_ _. ()), leadership_epoch = (\<lambda>_. 0),
     leadership_verify = (\<lambda>_ _. None), leadership_distribute_rewards = (\<lambda>_. None),
     leadership_era_slot = (\<lambda>_ d. ucast (slot_id d)), time_frame_new = (\<lambda>_ _. ()),
     time_frame_slot_time = (\<lambda>_ s. Some (unat s))\<rparr>"

interpretation example_chain: chain_length_laws example_chain_ops
  by unfold_locales (simp_all add: example_chain_ops_def)

definition example_block :: "nat \<Rightarrow> nat \<Rightarrow> u32 \<Rightarrow> (nat, unit, unit, unit) block" where
  "example_block h parent n = \<lparr>b_header = \<lparr>h_hash = h, h_block_parent_hash = parent,
     h_block_date = BlockDate 0 n, h_chain_length = n, h_content = ()\<rparr>,
     b_contents = [((), Some [SlotDuration 1, Block0Date 5])]\<rparr>"

definition example_child :: "(nat, unit, nat, unit, unit, unit) reference \<Rightarrow> nat \<Rightarrow> (nat, unit, nat, unit, unit, unit) reference" where
  "example_child r h = Reference (Suc (r_ledger r)) (b_header (example_block h (r_hash r) (r_chain_length r + 1)))
     (r_epoch_info r) (Some r)"

definition example_genesis :: "(nat, unit, nat, unit, unit, unit) reference" where
  "example_genesis = Reference 0 (b_header (example_block 1 0 0)) \<lparr>ei_time_frame = (), ei_leadership = (), ei_rewards_info = None\<rparr> None"

lemma example_genesis_new: "reference_new example_chain_ops (example_block 1 0 0) = Some (Inr example_genesis)"
  by (simp add: reference_new_def example_chain_ops_def epoch_info_new_def start_time_def slot_duration_def example_block_def
      unix_epoch_plus_def example_genesis_def)

lemma example_child_chain:
  assumes "epoch (r_block_date r) = 0" "slot_id (r_block_date r) = r_chain_length r" "r_chain_length r \<noteq> - 1"
  shows "reference_chain example_chain_ops r (example_block h (r_hash r) (r_chain_length r + 1)) = Inr (example_child r h)"
proof -
  have "r_block_date r < BlockDate 0 (r_chain_length r + 1)"
    using assms by (cases "r_block_date r") (simp add: word_less_inc)
  then show ?thesis using assms(1)
    by (auto simp: reference_chain_def check_child_def check_chain_length_def check_block_date_def chain_epoch_info_def
      check_header_def example_chain_ops_def example_block_def example_child_def r_hash_def)
qed

lemmas example_defs = example_child_def example_genesis_def example_block_def r_hash_def r_chain_length_def
  r_block_date_def r_block_parent_hash_def

lemma example_valid: "valid_reference example_chain_ops (example_child example_genesis h)"
proof -
  have "valid_reference example_chain_ops example_genesis" using example_genesis_new by (rule genesis)
  then show ?thesis by (rule chained [OF _ example_child_chain]) (simp_all add: example_defs)
qed

lemma example_lineage: "lineage (example_child example_genesis h) = [example_child example_genesis h, example_genesis]"
  by (simp add: lineage_Some [of _ example_genesis] lineage_None example_child_def example_genesis_def)


theorem common_ancestor_is_lowest_witness:
  "\<exists>c. approximate_common_ancestor (example_child example_genesis 2) (example_child example_genesis 3) = Some c \<and>
     r_hash c = 1"
proof -
  have free: "collision_free (example_child example_genesis 2) (example_child example_genesis 3)"
    by (simp add: collision_free_def example_lineage) (simp add: example_defs)
  have "\<forall>x\<in>set (lineage (example_child example_genesis 2)) \<union> set (lineage (example_child example_genesis 3)). r_chain_length x \<noteq> - 1"
    by (simp add: example_lineage) (simp add: example_defs)
  moreover have "\<forall>x\<in>set (lineage (example_child example_genesis 2)) \<union> set (lineage (example_child example_genesis 3)).
       r_previous_epoch_state x = None \<longrightarrow>
       r_block_parent_hash x \<notin> hashes (example_child example_genesis 2) \<union> hashes (example_child example_genesis 3)"
    by (simp add: example_lineage) (simp add: example_defs)
  ultimately have "case approximate_common_ancestor (example_child example_genesis 2) (example_child example_genesis 3) of
      None \<Rightarrow> hashes (example_child example_genesis 2) \<inter> hashes (example_child example_genesis 3) = {}
    | Some c \<Rightarrow> r_hash c \<in> hashes (example_child example_genesis 2) \<and> r_hash c \<in> hashes (example_child example_genesis 3) \<and>
        hashes (example_child example_genesis 2) \<inter> hashes (example_child example_genesis 3) \<subseteq> hashes c"
    by (rule common_ancestor_is_lowest [OF example_chain.chain_length_laws_axioms example_valid example_valid free])
  moreover have "hashes (example_child example_genesis 2) = {2, 1}" "hashes (example_child example_genesis 3) = {3, 1}"
    by (simp_all add: example_lineage) (simp_all add: example_defs)
  ultimately show ?thesis by (cases "approximate_common_ancestor (example_child example_genesis 2) (example_child example_genesis 3)") auto
qed

theorem select_refuses_direct_child_witness:
  "reference_select example_chain_ops 9 (example_child example_genesis 2) (example_child (example_child example_genesis 2) 3)
     = Some PreferCurrent"
proof -
  let ?t = "example_child example_genesis 2"
  have ch: "reference_chain example_chain_ops ?t (example_block 3 (r_hash ?t) (r_chain_length ?t + 1)) = Inr (example_child ?t 3)"
    by (rule example_child_chain) (simp_all add: example_defs)
  have el: "reference_elapsed example_chain_ops 9 (example_child ?t 3) = Some (Inr 7)"
    by (simp add: reference_elapsed_def reference_time_def epoch_info_time_of_def epoch_info_slot_of_def
        example_chain_ops_def example_defs)
  show ?thesis
    using select_refuses_direct_child [OF example_chain.chain_length_laws_axioms ch el]
    by (simp add: example_chain_ops_def example_defs)
qed

end
