(* ===== verification/Blockchain_Heads.thy ===== *)
theory Blockchain_Heads
  imports Lru_Cache Reference_Chain
begin

text \<open>
  The set of branches of the crate \<^verbatim>\<open>modules/blockchain\<close> (\<^verbatim>\<open>blockchain.rs\<close>): the tip, an LRU cache of
  the heads and an LRU cache of all known references. Both caches are used through the
  operations \<open>lru_ops\<close>. An operation returns \<open>None\<close> where the code panics, which happens only when the
  date of a reference is outside the time frame of its epoch.
\<close>

type_synonym ('c, 'hid, 'x, 'lg, 'ld, 'tf, 'rw) reference_cache =
  "('c, 'hid, ('hid, 'x, 'lg, 'ld, 'tf, 'rw) reference) lru_ops"

record ('c, 'hid, 'x, 'lg, 'ld, 'tf, 'rw) blockchain =
  bc_tip :: "('hid, 'x, 'lg, 'ld, 'tf, 'rw) reference"
  bc_heads :: 'c
  bc_cache :: 'c

record blockchain_configuration =
  heads_capacity :: nat
  cache_capacity :: nat

definition default_configuration :: blockchain_configuration where
  "default_configuration = \<lparr>heads_capacity = 1024, cache_capacity = 1024 * 1024 * 1024\<rparr>"

datatype ('hid, 'r) blockchain_event =
    Added (new_branch: bool) (new_tip: bool) (new_epoch: bool) (new_reference: 'r)
  | MissingParent (missing_parent: 'hid)

definition blockchain_new ::
  "('c, 'hid, 'x, 'lg, 'ld, 'tf, 'rw) reference_cache \<Rightarrow> blockchain_configuration
    \<Rightarrow> ('hid, 'x, 'lg, 'ld, 'tf, 'rw) reference \<Rightarrow> ('c, 'hid, 'x, 'lg, 'ld, 'tf, 'rw) blockchain" where
  "blockchain_new L configuration block0 =
     \<lparr>bc_tip = block0,
      bc_heads = lru_put L (lru_new L (heads_capacity configuration)) (r_hash block0) block0,
      bc_cache = lru_put L (lru_new L (cache_capacity configuration)) (r_hash block0) block0\<rparr>"

definition branches ::
  "('c, 'hid, 'x, 'lg, 'ld, 'tf, 'rw) reference_cache \<Rightarrow> ('c, 'hid, 'x, 'lg, 'ld, 'tf, 'rw) blockchain
    \<Rightarrow> ('hid \<times> ('hid, 'x, 'lg, 'ld, 'tf, 'rw) reference) list" where
  "branches L bc = lru_iter L (bc_heads bc)"

definition put_head ::
  "('hid, 'x, 'f, 'q, 'lg, 'ld, 'e, 'tf) chain_ops \<Rightarrow> ('c, 'hid, 'x, 'lg, 'ld, 'tf, 'rw) reference_cache \<Rightarrow> nat
    \<Rightarrow> ('c, 'hid, 'x, 'lg, 'ld, 'tf, 'rw) blockchain \<Rightarrow> ('hid, 'x, 'lg, 'ld, 'tf, 'rw) reference \<Rightarrow> bool \<Rightarrow> bool
    \<Rightarrow> (('hid, ('hid, 'x, 'lg, 'ld, 'tf, 'rw) reference) blockchain_event
        \<times> ('c, 'hid, 'x, 'lg, 'ld, 'tf, 'rw) blockchain) option" where
  "put_head C L now bc r branch transition = do {
     let heads = lru_put L (bc_heads bc) (r_hash r) r;
     let cache = lru_put L (bc_cache bc) (r_hash r) r;
     choice \<leftarrow> reference_select C now (bc_tip bc) r;
     Some (case choice of
        PreferCurrent \<Rightarrow>
          (Added branch False transition r,
           bc\<lparr>bc_heads := lru_put L heads (r_hash (bc_tip bc)) (bc_tip bc),
              bc_cache := lru_put L cache (r_hash (bc_tip bc)) (bc_tip bc)\<rparr>)
      | PreferCandidate \<Rightarrow>
          (Added branch True transition r, bc\<lparr>bc_tip := r, bc_heads := heads, bc_cache := cache\<rparr>))
   }"

definition blockchain_put ::
  "('hid, 'x, 'f, 'q, 'lg, 'ld, 'e, 'tf) chain_ops \<Rightarrow> ('c, 'hid, 'x, 'lg, 'ld, 'tf, 'rw) reference_cache \<Rightarrow> nat
    \<Rightarrow> ('c, 'hid, 'x, 'lg, 'ld, 'tf, 'rw) blockchain \<Rightarrow> ('hid, 'x, 'f, 'q) block
    \<Rightarrow> ((('hid, 'e) reference_error, ('hid, ('hid, 'x, 'lg, 'ld, 'tf, 'rw) reference) blockchain_event) result
        \<times> ('c, 'hid, 'x, 'lg, 'ld, 'tf, 'rw) blockchain) option" where
  "blockchain_put C L now bc block =
     (let parent_hash = h_block_parent_hash (b_header block);
          (in_heads, heads) = lru_get L (bc_heads bc) parent_hash;
          bc = bc\<lparr>bc_heads := heads\<rparr>;
          extend = (\<lambda>bc parent branch.
            case reference_chain C parent block of
              Inl e \<Rightarrow> Some (Inl e, bc)
            | Inr r \<Rightarrow> map_option (\<lambda>(event, bc'). (Inr event, bc'))
                (put_head C L now bc r branch (epoch (r_block_date parent) < epoch (r_block_date r))))
      in case in_heads of
           Some parent \<Rightarrow> extend (bc\<lparr>bc_cache := lru_put L (bc_cache bc) parent_hash parent\<rparr>) parent False
         | None \<Rightarrow>
             (let (in_cache, cache) = lru_get L (bc_cache bc) parent_hash;
                  bc = bc\<lparr>bc_cache := cache\<rparr>
              in case in_cache of
                   Some parent \<Rightarrow> extend bc parent True
                 | None \<Rightarrow> Some (Inr (MissingParent (h_hash (b_header block))), bc)))"

section \<open>Invariant\<close>

definition cache_ok ::
  "('hid, 'x, 'f, 'q, 'lg, 'ld, 'e, 'tf) chain_ops \<Rightarrow> ('hid \<times> ('hid, 'x, 'lg, 'ld, 'tf, 'rw) reference) list \<Rightarrow> bool" where
  "cache_ok C xs \<longleftrightarrow> (\<forall>(h, r)\<in>set xs. r_hash r = h \<and> valid_reference C r)"

definition blockchain_inv ::
  "('hid, 'x, 'f, 'q, 'lg, 'ld, 'e, 'tf) chain_ops \<Rightarrow> ('c, 'hid, 'x, 'lg, 'ld, 'tf, 'rw) reference_cache
    \<Rightarrow> ('c, 'hid, 'x, 'lg, 'ld, 'tf, 'rw) blockchain \<Rightarrow> bool" where
  "blockchain_inv C L bc \<longleftrightarrow>
     0 < lru_cap L (bc_heads bc) \<and> 0 < lru_cap L (bc_cache bc) \<and>
     cache_ok C (lru_iter L (bc_heads bc)) \<and> cache_ok C (lru_iter L (bc_cache bc)) \<and>
     valid_reference C (bc_tip bc) \<and> map_of (lru_iter L (bc_heads bc)) (r_hash (bc_tip bc)) = Some (bc_tip bc)"

text \<open>The reference the code finds for the parent of a block, heads first.\<close>

definition known_parent ::
  "('c, 'hid, 'x, 'lg, 'ld, 'tf, 'rw) reference_cache \<Rightarrow> ('c, 'hid, 'x, 'lg, 'ld, 'tf, 'rw) blockchain \<Rightarrow> 'hid
    \<Rightarrow> ('hid, 'x, 'lg, 'ld, 'tf, 'rw) reference option" where
  "known_parent L bc h =
     (case map_of (lru_iter L (bc_heads bc)) h of
        Some r \<Rightarrow> Some r
      | None \<Rightarrow> map_of (lru_iter L (bc_cache bc)) h)"

text \<open>The states that a sequence of \<^verbatim>\<open>put\<close> calls reaches from a new blockchain.\<close>

inductive blockchain_run ::
  "('hid, 'x, 'f, 'q, 'lg, 'ld, 'e, 'tf) chain_ops \<Rightarrow> ('c, 'hid, 'x, 'lg, 'ld, 'tf, 'rw) reference_cache
    \<Rightarrow> ('c, 'hid, 'x, 'lg, 'ld, 'tf, 'rw) blockchain \<Rightarrow> ('c, 'hid, 'x, 'lg, 'ld, 'tf, 'rw) blockchain \<Rightarrow> bool"
  for C L bc where
  run_start: "blockchain_run C L bc bc"
| run_put: "blockchain_run C L bc bc1 \<Longrightarrow> blockchain_put C L now bc1 block = Some (res, bc2) \<Longrightarrow> blockchain_run C L bc bc2"

lemma cache_ok_map_of: "cache_ok C xs \<Longrightarrow> map_of xs h = Some r \<Longrightarrow> r_hash r = h \<and> valid_reference C r"
  by (auto simp: cache_ok_def dest: map_of_SomeD)

lemma cache_ok_to_front: "cache_ok C xs \<Longrightarrow> cache_ok C (to_front h (\<lambda>v. v) xs)"
  by (cases "map_of xs h") (auto simp: cache_ok_def set_adelete dest: map_of_SomeD)

lemma map_of_to_front: "map_of (to_front h (\<lambda>v. v) xs) = map_of xs"
  by (cases "map_of xs h") (auto simp: delete_conv)

lemma select_longer:
  "reference_select C now current candidate = Some PreferCandidate \<Longrightarrow> r_chain_length current < r_chain_length candidate"
  by (cases "reference_elapsed C now candidate"; cases "the (reference_elapsed C now candidate)")
    (auto simp: reference_select_def split: if_splits option.splits)

locale head_caches = lru_cache L
  for L :: "('c, 'hid, ('hid, 'x, 'lg, 'ld, 'tf, 'rw) reference) lru_ops"
begin

lemma cache_ok_put:
  assumes "0 < lru_cap L c" and "cache_ok C (lru_iter L c)" and "valid_reference C r"
  shows "cache_ok C (lru_iter L (lru_put L c (r_hash r) r))"
  using assms put_keys_subset [OF assms(1), of _ "r_hash r" r] by (fastforce simp: cache_ok_def)

lemma map_of_put: "0 < lru_cap L c \<Longrightarrow> map_of (lru_iter L (lru_put L c h r)) h = Some r"
  using put_front [of c h r] by auto

lemma new_inv:
  assumes "0 < heads_capacity cfg" "0 < cache_capacity cfg" "valid_reference C r"
  shows "blockchain_inv C L (blockchain_new L cfg r)"
proof -
  have "cache_ok C (lru_iter L (lru_put L (lru_new L n) (r_hash r) r))" if "0 < n" for n
    using that assms(3) by (intro cache_ok_put) (simp_all add: cap_new iter_new cache_ok_def)
  with assms show ?thesis by (simp add: blockchain_inv_def blockchain_new_def cap_put cap_new map_of_put)
qed

lemma put_head_correct:
  assumes inv: "blockchain_inv C L bc" and r: "valid_reference C r"
    and put: "put_head C L now bc r branch transition = Some (ev, bc')"
  shows "blockchain_inv C L bc' \<and> (\<exists>moved. ev = Added branch moved transition r \<and>
     (if moved then bc_tip bc' = r \<and> r_chain_length (bc_tip bc) < r_chain_length r else bc_tip bc' = bc_tip bc))"
proof -
  obtain choice where sel: "reference_select C now (bc_tip bc) r = Some choice"
    using put by (auto simp: put_head_def Let_def bind_eq_Some_conv)
  have ok: "0 < lru_cap L (bc_heads bc)" "0 < lru_cap L (bc_cache bc)" "cache_ok C (lru_iter L (bc_heads bc))"
      "cache_ok C (lru_iter L (bc_cache bc))" "valid_reference C (bc_tip bc)"
    using inv by (auto simp: blockchain_inv_def)
  note simps = ex_bool_eq blockchain_inv_def cap_put map_of_put cache_ok_put ok r
  show ?thesis
  proof (cases choice)
    case PreferCurrent
    then have "ev = Added branch False transition r \<and>
        bc' = bc\<lparr>bc_heads := lru_put L (lru_put L (bc_heads bc) (r_hash r) r) (r_hash (bc_tip bc)) (bc_tip bc),
                 bc_cache := lru_put L (lru_put L (bc_cache bc) (r_hash r) r) (r_hash (bc_tip bc)) (bc_tip bc)\<rparr>"
      using put sel by (auto simp: put_head_def)
    then show ?thesis by (simp add: simps)
  next
    case PreferCandidate
    then have "ev = Added branch True transition r \<and>
        bc' = bc\<lparr>bc_tip := r, bc_heads := lru_put L (bc_heads bc) (r_hash r) r, bc_cache := lru_put L (bc_cache bc) (r_hash r) r\<rparr>"
      using put sel by (auto simp: put_head_def)
    moreover have "r_chain_length (bc_tip bc) < r_chain_length r" using sel PreferCandidate by (auto dest: select_longer)
    ultimately show ?thesis by (simp add: simps)
  qed
qed

text \<open>The three ways a \<open>put\<close> can go, in terms of the state before it.\<close>

lemma put_cases:
  assumes inv: "blockchain_inv C L bc" and put: "blockchain_put C L now bc block = Some (res, bc')"
  obtains (missing) "known_parent L bc (h_block_parent_hash (b_header block)) = None"
      "res = Inr (MissingParent (h_hash (b_header block)))" "blockchain_inv C L bc'" "bc_tip bc' = bc_tip bc"
  | (rejected) parent e where "known_parent L bc (h_block_parent_hash (b_header block)) = Some parent"
      "reference_chain C parent block = Inl e" "res = Inl e" "blockchain_inv C L bc'" "bc_tip bc' = bc_tip bc"
  | (added) parent r bc0 branch ev where "known_parent L bc (h_block_parent_hash (b_header block)) = Some parent"
      "reference_chain C parent block = Inr r" "res = Inr ev" "blockchain_inv C L bc0" "bc_tip bc0 = bc_tip bc"
      "put_head C L now bc0 r branch (epoch (r_block_date parent) < epoch (r_block_date r)) = Some (ev, bc')"
      "valid_reference C r" "branch \<longleftrightarrow> map_of (lru_iter L (bc_heads bc)) (h_block_parent_hash (b_header block)) = None"
proof -
  let ?h = "h_block_parent_hash (b_header block)"
  have ok: "0 < lru_cap L (bc_heads bc)" "0 < lru_cap L (bc_cache bc)" "cache_ok C (lru_iter L (bc_heads bc))"
      "cache_ok C (lru_iter L (bc_cache bc))" "valid_reference C (bc_tip bc)"
      "map_of (lru_iter L (bc_heads bc)) (r_hash (bc_tip bc)) = Some (bc_tip bc)"
    using inv by (auto simp: blockchain_inv_def)
  obtain ih heads where gh: "lru_get L (bc_heads bc) ?h = (ih, heads)" by (rule prod.exhaust)
  obtain ic cache where gc: "lru_get L (bc_cache bc) ?h = (ic, cache)" by (rule prod.exhaust)
  have ih: "ih = map_of (lru_iter L (bc_heads bc)) ?h" "cache_ok C (lru_iter L heads)" "0 < lru_cap L heads"
      "map_of (lru_iter L heads) (r_hash (bc_tip bc)) = Some (bc_tip bc)"
    using gh get_result [of "bc_heads bc" ?h] iter_get [of "bc_heads bc" ?h] cap_get [of "bc_heads bc" ?h]
      cache_ok_to_front [OF ok(3)] ok(1,6) by (simp_all add: map_of_to_front)
  have ic: "ic = map_of (lru_iter L (bc_cache bc)) ?h" "cache_ok C (lru_iter L cache)" "0 < lru_cap L cache"
    using gc get_result [of "bc_cache bc" ?h] iter_get [of "bc_cache bc" ?h] cap_get [of "bc_cache bc" ?h]
      cache_ok_to_front [OF ok(4)] ok(2) by simp_all
  show ?thesis
  proof (cases ih)
    case (Some parent)
    then have parent: "known_parent L bc ?h = Some parent" "r_hash parent = ?h" "valid_reference C parent"
      using ih(1) cache_ok_map_of [OF ok(3), of ?h parent] by (simp_all add: known_parent_def)
    let ?bc = "bc\<lparr>bc_heads := heads, bc_cache := lru_put L (bc_cache bc) ?h parent\<rparr>"
    have inv': "blockchain_inv C L ?bc"
      using ok ih cache_ok_put [OF ok(2,4) parent(3)] parent(2) by (simp add: blockchain_inv_def cap_put)
    show ?thesis
    proof (cases "reference_chain C parent block")
      case (Inl e)
      with put Some gh show ?thesis by (intro rejected [OF parent(1) Inl]) (auto simp: blockchain_put_def inv')
    next
      case (Inr r)
      obtain ev where ev: "put_head C L now ?bc r False (epoch (r_block_date parent) < epoch (r_block_date r)) = Some (ev, bc')"
          "res = Inr ev"
        using put Some gh Inr by (auto simp: blockchain_put_def)
      show ?thesis
        by (rule added [OF parent(1) Inr ev(2) inv' _ ev(1) chained [OF parent(3) Inr]]) (use ih(1) [symmetric] Some in simp_all)
    qed
  next
    case None
    then have nh: "map_of (lru_iter L (bc_heads bc)) ?h = None" using ih(1) by simp
    let ?bc = "bc\<lparr>bc_heads := heads, bc_cache := cache\<rparr>"
    have inv': "blockchain_inv C L ?bc" using ok ih ic by (simp add: blockchain_inv_def)
    show ?thesis
    proof (cases ic)
      case None
      with put gh gc \<open>ih = None\<close> nh ic(1) show ?thesis
        by (intro missing) (auto simp: blockchain_put_def known_parent_def inv')
    next
      case (Some parent)
      then have parent: "known_parent L bc ?h = Some parent" "valid_reference C parent"
        using ic(1) nh cache_ok_map_of [OF ok(4), of ?h parent] by (simp_all add: known_parent_def)
      show ?thesis
      proof (cases "reference_chain C parent block")
        case (Inl e)
        with put Some gh gc \<open>ih = None\<close> show ?thesis by (intro rejected [OF parent(1) Inl]) (auto simp: blockchain_put_def inv')
      next
        case (Inr r)
        obtain ev where ev: "put_head C L now ?bc r True (epoch (r_block_date parent) < epoch (r_block_date r)) = Some (ev, bc')"
            "res = Inr ev"
          using put Some gh gc \<open>ih = None\<close> Inr by (auto simp: blockchain_put_def)
        show ?thesis
          by (rule added [OF parent(1) Inr ev(2) inv' _ ev(1) chained [OF parent(2) Inr]]) (use nh in auto)
      qed
    qed
  qed
qed


lemma put_inv:
  assumes "blockchain_inv C L bc" and "blockchain_put C L now bc block = Some (res, bc')"
  shows "blockchain_inv C L bc' \<and> r_chain_length (bc_tip bc) \<le> r_chain_length (bc_tip bc')"
  using assms
proof (cases rule: put_cases)
  case (added parent r bc0 branch ev)
  then show ?thesis using put_head_correct [OF added(4,7,6)] by (auto split: if_splits)
qed simp_all

lemma run_inv:
  assumes "blockchain_run C L bc bc'" and "blockchain_inv C L bc"
  shows "blockchain_inv C L bc' \<and> r_chain_length (bc_tip bc) \<le> r_chain_length (bc_tip bc')"
  using assms(1)
proof induction
  case run_start
  show ?case using assms(2) by simp
next
  case (run_put bc1 now block res bc2)
  then show ?case using put_inv [of C bc1 now block res bc2] order_trans by blast
qed

lemma put_panics:
  assumes "blockchain_put C L now bc block = None"
  obtains parent r where "known_parent L bc (h_block_parent_hash (b_header block)) = Some parent"
    "reference_chain C parent block = Inr r" "reference_elapsed C now r = None"
proof -
  let ?h = "h_block_parent_hash (b_header block)"
  have sel: "reference_elapsed C now r = None" if "put_head C L now bc' r b t = None" for bc' r b t
    using that by (cases "reference_elapsed C now r") (auto simp: put_head_def reference_select_def Let_def)
  obtain ih heads where gh: "lru_get L (bc_heads bc) ?h = (ih, heads)" by (rule prod.exhaust)
  obtain ic cache where gc: "lru_get L (bc_cache bc) ?h = (ic, cache)" by (rule prod.exhaust)
  have found: "map_of (lru_iter L (bc_heads bc)) ?h = ih" "map_of (lru_iter L (bc_cache bc)) ?h = ic"
    using get_result [of "bc_heads bc" ?h] get_result [of "bc_cache bc" ?h] gh gc by simp_all
  show ?thesis
  proof (cases ih)
    case (Some parent)
    then have "known_parent L bc ?h = Some parent" using found by (simp add: known_parent_def)
    moreover obtain r where "reference_chain C parent block = Inr r" "reference_elapsed C now r = None"
      using assms gh Some by (cases "reference_chain C parent block") (auto simp: blockchain_put_def dest: sel)
    ultimately show ?thesis by (rule that)
  next
    case None
    then obtain parent where parent: "ic = Some parent"
      using assms gh gc by (cases ic) (auto simp: blockchain_put_def)
    then have "known_parent L bc ?h = Some parent" using found None by (simp add: known_parent_def)
    moreover obtain r where "reference_chain C parent block = Inr r" "reference_elapsed C now r = None"
      using assms gh gc None parent by (cases "reference_chain C parent block") (auto simp: blockchain_put_def dest: sel)
    ultimately show ?thesis by (rule that)
  qed
qed

end


section \<open>Properties\<close>


text \<open>(C28) Over every run from a new blockchain, the tip is among the branches (as the documentation of
  \<^verbatim>\<open>Blockchain::branches\<close> says, and in spite of evictions), every branch is filed under its own hash and was
  obtained by chaining blocks from a start reference, and the chain length of the tip never goes
  below the one it had at any earlier point of the run.\<close>

theorem blockchain_run_safe:
  assumes "lru_cache L" and "0 < heads_capacity cfg" and "0 < cache_capacity cfg" and "valid_reference C block0"
    and "blockchain_run C L (blockchain_new L cfg block0) bc1" and "blockchain_run C L bc1 bc2"
  shows "(r_hash (bc_tip bc2), bc_tip bc2) \<in> set (branches L bc2)
    \<and> (\<forall>(h, r)\<in>set (branches L bc2). r_hash r = h \<and> valid_reference C r)
    \<and> r_chain_length (bc_tip bc1) \<le> r_chain_length (bc_tip bc2)"
proof -
  note run = head_caches.run_inv [OF head_caches.intro [OF assms(1)]]
  have "blockchain_inv C L bc1"
    using run [OF assms(5)] head_caches.new_inv [OF head_caches.intro [OF assms(1)] assms(2-4)] by blast
  with run [OF assms(6)] have "blockchain_inv C L bc2 \<and> r_chain_length (bc_tip bc1) \<le> r_chain_length (bc_tip bc2)"
    by blast
  then show ?thesis
    by (auto simp: blockchain_inv_def cache_ok_def branches_def dest: map_of_SomeD)
qed

section \<open>An example\<close>

type_synonym example_reference = "(nat, unit, nat, unit, unit, unit) reference"

definition example_blockchain ::
  "((nat, example_reference) recency_list, nat, unit, nat, unit, unit, unit) blockchain" where
  "example_blockchain = blockchain_new recency_ops \<lparr>heads_capacity = 2, cache_capacity = 4\<rparr> example_genesis"

lemma example_blockchain_iter:
  "lru_iter recency_ops (bc_heads example_blockchain) = [(1, example_genesis)]"
  "lru_iter recency_ops (bc_cache example_blockchain) = [(1, example_genesis)]"
  "bc_tip example_blockchain = example_genesis"
  by (simp_all add: example_blockchain_def blockchain_new_def recency.iter_put recency.iter_new recency.cap_new
      r_hash_def example_genesis_def example_block_def)



theorem blockchain_run_safe_witness:
  "\<exists>bc'. blockchain_run example_chain_ops recency_ops example_blockchain bc'
     \<and> bc_tip bc' \<in> snd ` set (branches recency_ops bc') \<and> bc_tip bc' = example_child example_genesis 2"
proof -
  let ?b = "example_block 2 1 1" and ?c = "example_child example_genesis 2"
  have ch: "reference_chain example_chain_ops example_genesis ?b = Inr ?c"
    using example_child_chain [of example_genesis 2] by (simp add: example_defs)
  have sel: "reference_select example_chain_ops 9 example_genesis ?c = Some PreferCandidate"
    by (simp add: reference_select_def reference_elapsed_def reference_time_def epoch_info_time_of_def
        epoch_info_slot_of_def approximate_common_ancestor_def example_chain_ops_def example_defs)
  have get: "fst (lru_get recency_ops (bc_heads example_blockchain) 1) = Some example_genesis"
    by (simp add: recency.get_result example_blockchain_iter)
  obtain bc' res where put: "blockchain_put example_chain_ops recency_ops 9 example_blockchain ?b = Some (res, bc')"
      and tip: "bc_tip bc' = ?c"
    using get ch sel
    by (cases "lru_get recency_ops (bc_heads example_blockchain) 1")
      (simp add: blockchain_put_def put_head_def example_blockchain_iter,
       simp add: blockchain_put_def put_head_def example_blockchain_iter example_block_def)
  have run: "blockchain_run example_chain_ops recency_ops example_blockchain bc'"
    by (rule run_put [OF run_start put])
  show ?thesis
    using blockchain_run_safe [OF recency.lru_cache_axioms, of "\<lparr>heads_capacity = 2, cache_capacity = 4\<rparr>"
        example_chain_ops example_genesis example_blockchain bc']
      genesis [OF example_genesis_new] run tip run_start
    by (force simp: example_blockchain_def)
qed

end
