(* ===== verification/Actions.thy ===== *)
theory Actions
  imports Prelude
begin

text \<open>
  Operations on shared mutable state. An action maps a state to \<open>None\<close> (a panic) or to a result, an error or a
  value, and a new state. \<open>act_bind\<close> is sequencing with the \<^verbatim>\<open>?\<close> operator: an error
  ends the sequence and keeps the state reached so far. \<open>keeps I m\<close> says that \<open>m\<close> preserves
  the invariant \<open>I\<close>, whatever its result.
\<close>

type_synonym ('s, 'e, 'a) action = "'s \<Rightarrow> (('e, 'a) result \<times> 's) option"

definition act_return :: "'a \<Rightarrow> ('s, 'e, 'a) action" where
  "act_return x s = Some (Inr x, s)"

definition act_throw :: "'e \<Rightarrow> ('s, 'e, 'a) action" where
  "act_throw e s = Some (Inl e, s)"

definition act_panic :: "('s, 'e, 'a) action" where
  "act_panic s = None"

definition act_result :: "('e, 'a) result \<Rightarrow> ('s, 'e, 'a) action" where
  "act_result r s = Some (r, s)"

definition act_get :: "('s, 'e, 's) action" where
  "act_get s = Some (Inr s, s)"

definition act_modify :: "('s \<Rightarrow> 's) \<Rightarrow> ('s, 'e, unit) action" where
  "act_modify f s = Some (Inr (), f s)"

definition act_unwrap :: "'a option \<Rightarrow> ('s, 'e, 'a) action" where
  "act_unwrap x s = (case x of None \<Rightarrow> None | Some v \<Rightarrow> Some (Inr v, s))"

definition act_bind :: "('s, 'e, 'a) action \<Rightarrow> ('a \<Rightarrow> ('s, 'e, 'b) action) \<Rightarrow> ('s, 'e, 'b) action" where
  "act_bind m f s =
     (case m s of
        None \<Rightarrow> None
      | Some (Inl e, s') \<Rightarrow> Some (Inl e, s')
      | Some (Inr x, s') \<Rightarrow> f x s')"

definition act_map_err :: "('e \<Rightarrow> 'f) \<Rightarrow> ('s, 'e, 'a) action \<Rightarrow> ('s, 'f, 'a) action" where
  "act_map_err g m s = map_option (\<lambda>(r, s'). (map_err g r, s')) (m s)"

text \<open>Running an action on a component of a larger state.\<close>

definition act_focus ::
  "('t \<Rightarrow> 's) \<Rightarrow> ('s \<Rightarrow> 't \<Rightarrow> 't) \<Rightarrow> ('s, 'e, 'a) action \<Rightarrow> ('t, 'e, 'a) action" where
  "act_focus view replace m t = map_option (\<lambda>(r, s'). (r, replace s' t)) (m (view t))"

lemmas act_basic_defs = act_return_def act_throw_def act_panic_def act_result_def act_get_def act_modify_def act_unwrap_def

lemma act_return_simp [simp]: "act_return x s = Some (Inr x, s)"
  and act_throw_simp [simp]: "act_throw e s = Some (Inl e, s)"
  and act_result_simp [simp]: "act_result r s = Some (r, s)"
  by (simp_all add: act_basic_defs)

lemma act_panic_simp [simp]: "act_panic s = None"
  by (simp add: act_basic_defs)

lemma act_get_simp [simp]: "act_get s = Some (Inr s, s)"
  by (simp add: act_basic_defs)

lemma act_modify_simp [simp]: "act_modify f s = Some (Inr (), f s)"
  by (simp add: act_basic_defs)

lemma act_unwrap_simps [simp]: "act_unwrap None s = None" "act_unwrap (Some v) s = Some (Inr v, s)"
  by (simp_all add: act_basic_defs)

lemma act_bind_eqs:
  "m s = None \<Longrightarrow> act_bind m f s = None"
  "m s = Some (Inl e, s') \<Longrightarrow> act_bind m f s = Some (Inl e, s')"
  "m s = Some (Inr x, s') \<Longrightarrow> act_bind m f s = f x s'"
  by (simp_all add: act_bind_def)

lemma act_bind_value [simp]:
  "act_bind (act_return x) f s = f x s" "act_bind (act_throw e) f s = Some (Inl e, s)" "act_bind act_panic f s = None"
  "act_bind (act_result (Inr x)) f s = f x s" "act_bind (act_result (Inl e)) f s = Some (Inl e, s)"
  "act_bind (act_unwrap None) f s = None" "act_bind (act_unwrap (Some x)) f s = f x s"
  by (simp_all add: act_bind_def)

lemma act_bind_get [simp]: "act_bind act_get f s = f s s"
  by (simp add: act_bind_def)

lemma act_bind_modify [simp]: "act_bind (act_modify g) f s = f () (g s)"
  by (simp add: act_bind_def)

lemma act_bind_assoc: "act_bind (act_bind m f) g = act_bind m (\<lambda>x. act_bind (f x) g)"
  by (rule ext) (auto simp: act_bind_def split: option.splits sum.splits prod.splits)

lemma act_bind_eq_Some_conv:
  "act_bind m f s = Some (r, s') \<longleftrightarrow>
     (\<exists>e. m s = Some (Inl e, s') \<and> r = Inl e) \<or> (\<exists>x s1. m s = Some (Inr x, s1) \<and> f x s1 = Some (r, s'))"
  by (auto simp: act_bind_def split: option.splits sum.splits)

lemma act_bind_Inr:
  "act_bind m f s = Some (Inr y, s') \<longleftrightarrow> (\<exists>x s1. m s = Some (Inr x, s1) \<and> f x s1 = Some (Inr y, s'))"
  by (auto simp: act_bind_eq_Some_conv)

lemma act_result_bind_Inr:
  "act_bind (act_result r) f s = Some (Inr y, s') \<longleftrightarrow> (\<exists>x. r = Inr x \<and> f x s = Some (Inr y, s'))"
  by (cases r) auto

section \<open>Preservation of invariants\<close>

definition keeps :: "('s \<Rightarrow> bool) \<Rightarrow> ('s, 'e, 'a) action \<Rightarrow> bool" where
  "keeps I m \<longleftrightarrow> (\<forall>s r s'. I s \<longrightarrow> m s = Some (r, s') \<longrightarrow> I s')"

named_theorems keeps_rules \<open>rules for the preservation of invariants\<close>

lemma keepsD: "keeps I m \<Longrightarrow> I s \<Longrightarrow> m s = Some (r, s') \<Longrightarrow> I s'"
  by (auto simp: keeps_def)

lemma keeps_get [keeps_rules]: "keeps I act_get"
  by (simp add: keeps_def)

lemma keeps_basic [keeps_rules]:
  "keeps I (act_return x)" "keeps I (act_throw e)" "keeps I act_panic" "keeps I (act_result res)" "keeps I (act_unwrap v)"
  by (auto simp: keeps_def act_basic_defs split: option.splits)

lemma keeps_modify: "(\<And>s. I s \<Longrightarrow> I (f s)) \<Longrightarrow> keeps I (act_modify f)"
  by (auto simp: keeps_def)

lemma keeps_bind [keeps_rules]:
  assumes "keeps I m" and "\<And>x. keeps I (f x)"
  shows "keeps I (act_bind m f)"
  unfolding keeps_def [of I "act_bind m f"] act_bind_eq_Some_conv
  by (blast dest: keepsD [OF assms(1)] keepsD [OF assms(2)])

lemma keeps_map_err [keeps_rules]: "keeps I m \<Longrightarrow> keeps I (act_map_err g m)"
  by (auto simp: keeps_def act_map_err_def)

lemma keeps_option [keeps_rules]:
  "keeps I m \<Longrightarrow> (\<And>x. keeps I (f x)) \<Longrightarrow> keeps I (case v of None \<Rightarrow> m | Some x \<Rightarrow> f x)"
  by (cases v) auto

lemma keeps_sum [keeps_rules]:
  "(\<And>x. keeps I (f x)) \<Longrightarrow> (\<And>x. keeps I (g x)) \<Longrightarrow> keeps I (case v of Inl x \<Rightarrow> f x | Inr x \<Rightarrow> g x)"
  by (cases v) auto

lemma keeps_if [keeps_rules]: "keeps I m \<Longrightarrow> keeps I n \<Longrightarrow> keeps I (if b then m else n)"
  by auto

section \<open>Preservation with a result\<close>

text \<open>\<open>yields I Q m\<close> says that \<open>m\<close> preserves \<open>I\<close> and that a value it returns satisfies \<open>Q\<close>.\<close>

definition yields :: "('s \<Rightarrow> bool) \<Rightarrow> ('a \<Rightarrow> bool) \<Rightarrow> ('s, 'e, 'a) action \<Rightarrow> bool" where
  "yields I Q m \<longleftrightarrow> (\<forall>s r s'. I s \<longrightarrow> m s = Some (r, s') \<longrightarrow> I s' \<and> (\<forall>x. r = Inr x \<longrightarrow> Q x))"

lemma yieldsI: "(\<And>s r s'. I s \<Longrightarrow> m s = Some (r, s') \<Longrightarrow> I s' \<and> (\<forall>x. r = Inr x \<longrightarrow> Q x)) \<Longrightarrow> yields I Q m"
  by (auto simp: yields_def)

lemma yieldsD: "yields I Q m \<Longrightarrow> I s \<Longrightarrow> m s = Some (r, s') \<Longrightarrow> I s' \<and> (\<forall>x. r = Inr x \<longrightarrow> Q x)"
  by (auto simp: yields_def)

lemma yields_keeps: "yields I Q m \<Longrightarrow> keeps I m"
  by (auto simp: yields_def keeps_def)

lemma keeps_yields: "keeps I m \<Longrightarrow> yields I (\<lambda>_. True) m"
  by (auto simp: yields_def keeps_def)

lemma yields_return: "Q x \<Longrightarrow> yields I Q (act_return x)"
  by (auto simp: yields_def)

lemma yields_throw: "yields I Q (act_throw e)"
  by (auto simp: yields_def)

lemma yields_bind:
  assumes "yields I Q m" and "\<And>x. Q x \<Longrightarrow> yields I R (f x)"
  shows "yields I R (act_bind m f)"
proof (rule yieldsI)
  fix s r s' assume "I s" and "act_bind m f s = Some (r, s')"
  then consider e where "m s = Some (Inl e, s')" "r = Inl e"
    | x s1 where "m s = Some (Inr x, s1)" "f x s1 = Some (r, s')"
    by (auto simp: act_bind_eq_Some_conv)
  then show "I s' \<and> (\<forall>x. r = Inr x \<longrightarrow> R x)"
  proof cases
    case 1
    then show ?thesis using yieldsD [OF assms(1) \<open>I s\<close> 1(1)] by simp
  next
    case 2
    have "I s1" "Q x" using yieldsD [OF assms(1) \<open>I s\<close> 2(1)] by auto
    then show ?thesis using yieldsD [OF assms(2) _ 2(2)] by blast
  qed
qed

section \<open>Collecting results\<close>

text \<open>\<^verbatim>\<open>Iterator::collect\<close> into a \<^verbatim>\<open>Result\<close>: the first error, or all the values.\<close>

fun collect_results :: "('e, 'a) result list \<Rightarrow> ('e, 'a list) result" where
  "collect_results [] = Inr []"
| "collect_results (Inl e # rs) = Inl e"
| "collect_results (Inr x # rs) = rbind (collect_results rs) (\<lambda>xs. Inr (x # xs))"

lemma collect_results_Inr: "collect_results rs = Inr xs \<longleftrightarrow> rs = map Inr xs"
proof (induction rs arbitrary: xs)
  case (Cons r rs)
  show ?case
  proof (cases r)
    case (Inr x)
    then show ?thesis by (cases xs) (auto simp: rbind_eq_Inr_conv Cons.IH)
  qed (cases xs; simp)
qed auto

end
