(* ===== verification/Block_Storage.thy ===== *)
theory Block_Storage
  imports Actions Reference_Chain
begin

text \<open>
  The block storage of the node, \<^verbatim>\<open>jormungandr/src/blockchain/storage.rs\<close>: a wrapper around the block
  store of the \<^verbatim>\<open>chain-storage\<close> crate that converts hashes and blocks to and from bytes and translates
  errors. The store and the codecs are not part of the repository: they are the record \<open>store_ops\<close>, an argument of
  the definitions, and the locale \<open>block_store\<close> states what their documentation promises.

  The loops of the wrapper are modelled: \<^verbatim>\<open>find_closest_ancestor\<close> and the garbage
  collection \<^verbatim>\<open>gc\<close>. A stream of blocks is the list of its items.
\<close>

type_synonym bytes = "8 word list"

datatype 'io store_error = StoreBlockNotFound | StoreBlockAlreadyPresent | StoreMissingParent | StoreOther 'io

record block_info =
  bi_id :: bytes
  bi_parent_id :: bytes
  bi_chain_length :: u32

record ('s, 'hid, 'x, 'f, 'q, 'io) store_ops =
  bs_put_block :: "'s \<Rightarrow> bytes \<Rightarrow> block_info \<Rightarrow> ('io store_error, unit) result \<times> 's"
  bs_get_block :: "'s \<Rightarrow> bytes \<Rightarrow> ('io store_error, bytes) result"
  bs_get_block_info :: "'s \<Rightarrow> bytes \<Rightarrow> ('io store_error, block_info) result"
  bs_block_exists :: "'s \<Rightarrow> bytes \<Rightarrow> ('io store_error, bool) result"
  bs_get_tips_ids :: "'s \<Rightarrow> ('io store_error, bytes list) result"
  bs_get_blocks_by_chain_length :: "'s \<Rightarrow> u32 \<Rightarrow> ('io store_error, bytes list) result"
  bs_get_nth_ancestor :: "'s \<Rightarrow> bytes \<Rightarrow> u32 \<Rightarrow> ('io store_error, block_info) result"
  bs_is_ancestor :: "'s \<Rightarrow> bytes \<Rightarrow> bytes \<Rightarrow> ('io store_error, u32 option) result"
  bs_iter :: "'s \<Rightarrow> bytes \<Rightarrow> u32 \<Rightarrow> ('io store_error, ('io store_error, bytes) result list) result"
  bs_lowest_common_ancestor :: "'s \<Rightarrow> bytes \<Rightarrow> bytes \<Rightarrow> ('io store_error, block_info option) result"
  bs_prune_branch :: "'s \<Rightarrow> bytes \<Rightarrow> ('io store_error, unit) result \<times> 's"
  bs_flush_to_permanent_store :: "'s \<Rightarrow> bytes \<Rightarrow> nat \<Rightarrow> ('io store_error, nat) result \<times> 's"
  bs_get_tag :: "'s \<Rightarrow> string \<Rightarrow> ('io store_error, bytes option) result"
  bs_put_tag :: "'s \<Rightarrow> string \<Rightarrow> bytes \<Rightarrow> ('io store_error, unit) result \<times> 's"
  hash_bytes :: "'hid \<Rightarrow> bytes"
  hash_serialize :: "'hid \<Rightarrow> ('io, bytes) result"
  hash_deserialize :: "bytes \<Rightarrow> ('io, 'hid) result"
  block_serialize :: "('hid, 'x, 'f, 'q) block \<Rightarrow> ('io, bytes) result"
  block_deserialize :: "bytes \<Rightarrow> ('io, ('hid, 'x, 'f, 'q) block) result"

datatype 'io storage_error =
    BlockNotFound
  | BackendError "'io store_error"
  | DeserializeError 'io
  | SerializeError 'io
  | BlockAlreadyPresent
  | MissingParentOfBlock
  | CannotIterate

record 'hid ancestor =
  an_header_hash :: 'hid
  an_distance :: u32

fun from_store_error :: "'io store_error \<Rightarrow> 'io storage_error" where
  "from_store_error StoreBlockNotFound = BlockNotFound"
| "from_store_error StoreBlockAlreadyPresent = BlockAlreadyPresent"
| "from_store_error StoreMissingParent = MissingParentOfBlock"
| "from_store_error e = BackendError e"

definition storage_get_tag ::
  "('s, 'hid, 'x, 'f, 'q, 'io) store_ops \<Rightarrow> 's \<Rightarrow> string \<Rightarrow> ('io storage_error, 'hid option) result" where
  "storage_get_tag S st tag =
     rbind (map_err from_store_error (bs_get_tag S st tag)) (\<lambda>maybe_block_id.
       case maybe_block_id of
         None \<Rightarrow> Inr None
       | Some block_id \<Rightarrow> rbind (map_err DeserializeError (hash_deserialize S block_id)) (\<lambda>h. Inr (Some h)))"

definition storage_put_tag ::
  "('s, 'hid, 'x, 'f, 'q, 'io) store_ops \<Rightarrow> string \<Rightarrow> 'hid \<Rightarrow> ('s, 'io storage_error, unit) action" where
  "storage_put_tag S tag h st =
     (let (res, st') = bs_put_tag S st tag (hash_bytes S h) in Some (map_err from_store_error res, st'))"

definition storage_get ::
  "('s, 'hid, 'x, 'f, 'q, 'io) store_ops \<Rightarrow> 's \<Rightarrow> 'hid \<Rightarrow> ('io storage_error, ('hid, 'x, 'f, 'q) block option) result" where
  "storage_get S st h =
     (case bs_get_block S st (hash_bytes S h) of
        Inr raw \<Rightarrow> rbind (map_err DeserializeError (block_deserialize S raw)) (\<lambda>b. Inr (Some b))
      | Inl StoreBlockNotFound \<Rightarrow> Inr None
      | Inl e \<Rightarrow> Inl (BackendError e))"

definition storage_block_exists ::
  "('s, 'hid, 'x, 'f, 'q, 'io) store_ops \<Rightarrow> 's \<Rightarrow> 'hid \<Rightarrow> ('io storage_error, bool) result" where
  "storage_block_exists S st h = map_err from_store_error (bs_block_exists S st (hash_bytes S h))"

definition storage_get_branches ::
  "('s, 'hid, 'x, 'f, 'q, 'io) store_ops \<Rightarrow> 's \<Rightarrow> ('io storage_error, 'hid list) result" where
  "storage_get_branches S st =
     rbind (map_err from_store_error (bs_get_tips_ids S st)) (\<lambda>ids.
       collect_results (map (\<lambda>branch. map_err DeserializeError (hash_deserialize S branch)) ids))"

definition get_blocks_by_chain_length ::
  "('s, 'hid, 'x, 'f, 'q, 'io) store_ops \<Rightarrow> 's \<Rightarrow> u32 \<Rightarrow> ('io storage_error, ('hid, 'x, 'f, 'q) block list) result" where
  "get_blocks_by_chain_length S st chain_length =
     rbind (map_err from_store_error (bs_get_blocks_by_chain_length S st chain_length)) (\<lambda>blocks.
       map_err DeserializeError (collect_results (map (block_deserialize S) blocks)))"

text \<open>\<open>None\<close> is the failed \<^verbatim>\<open>expect\<close> on a block that was just found.\<close>

definition storage_get_nth_ancestor ::
  "('s, 'hid, 'x, 'f, 'q, 'io) store_ops \<Rightarrow> 's \<Rightarrow> 'hid \<Rightarrow> u32
    \<Rightarrow> ('io storage_error, ('hid, 'x, 'f, 'q) block option) result option" where
  "storage_get_nth_ancestor S st h distance =
     (case bs_get_nth_ancestor S st (hash_bytes S h) distance of
        Inr info \<Rightarrow>
          (case bs_get_block S st (bi_id info) of
             Inr raw \<Rightarrow> Some (rbind (map_err DeserializeError (block_deserialize S raw)) (\<lambda>b. Inr (Some b)))
           | Inl _ \<Rightarrow> None)
      | Inl StoreBlockNotFound \<Rightarrow> Some (Inr None)
      | Inl e \<Rightarrow> Some (Inl (BackendError e)))"

definition storage_put_block ::
  "('s, 'hid, 'x, 'f, 'q, 'io) store_ops \<Rightarrow> ('hid, 'x, 'f, 'q) block \<Rightarrow> ('s, 'io storage_error, unit) action" where
  "storage_put_block S block =
     act_bind (act_result (map_err SerializeError (hash_serialize S (h_hash (b_header block))))) (\<lambda>bid.
     act_bind (act_result (map_err SerializeError (hash_serialize S (h_block_parent_hash (b_header block))))) (\<lambda>parent_id.
     let info = \<lparr>bi_id = bid, bi_parent_id = parent_id, bi_chain_length = h_chain_length (b_header block)\<rparr> in
     act_bind (act_result (map_err SerializeError (block_serialize S block))) (\<lambda>raw st.
     let (res, st') = bs_put_block S st raw info in Some (map_err from_store_error res, st'))))"

definition storage_get_parent ::
  "('s, 'hid, 'x, 'f, 'q, 'io) store_ops \<Rightarrow> 's \<Rightarrow> 'hid \<Rightarrow> ('io storage_error, 'hid option) result" where
  "storage_get_parent S st h =
     (case bs_get_block_info S st (hash_bytes S h) of
        Inl _ \<Rightarrow> Inr None
      | Inr info \<Rightarrow> rbind (map_err DeserializeError (hash_deserialize S (bi_parent_id info))) (\<lambda>p. Inr (Some p)))"

definition storage_is_ancestor :: "('s, 'hid, 'x, 'f, 'q, 'io) store_ops \<Rightarrow> 's \<Rightarrow> 'hid \<Rightarrow> 'hid \<Rightarrow> bool" where
  "storage_is_ancestor S st a b =
     (case bs_is_ancestor S st (hash_bytes S a) (hash_bytes S b) of Inr x \<Rightarrow> x \<noteq> None | Inl _ \<Rightarrow> False)"

definition storage_get_chain_length :: "('s, 'hid, 'x, 'f, 'q, 'io) store_ops \<Rightarrow> 's \<Rightarrow> 'hid \<Rightarrow> u32 option" where
  "storage_get_chain_length S st h =
     (case bs_get_block_info S st (hash_bytes S h) of Inl _ \<Rightarrow> None | Inr info \<Rightarrow> Some (bi_chain_length info))"

definition stream_item ::
  "('s, 'hid, 'x, 'f, 'q, 'io) store_ops \<Rightarrow> ('io store_error, bytes) result \<Rightarrow> ('io storage_error, ('hid, 'x, 'f, 'q) block) result" where
  "stream_item S raw_block =
     rbind (map_err from_store_error raw_block) (\<lambda>raw. map_err DeserializeError (block_deserialize S raw))"

definition stream_from_to ::
  "('s, 'hid, 'x, 'f, 'q, 'io) store_ops \<Rightarrow> 's \<Rightarrow> 'hid \<Rightarrow> 'hid
    \<Rightarrow> ('io storage_error, ('io storage_error, ('hid, 'x, 'f, 'q) block) result list) result" where
  "stream_from_to S st from to =
     rbind (map_err from_store_error (bs_is_ancestor S st (hash_bytes S from) (hash_bytes S to))) (\<lambda>ancestor.
       case ancestor of
         None \<Rightarrow> Inl CannotIterate
       | Some distance \<Rightarrow>
           rbind (map_err from_store_error (bs_iter S st (hash_bytes S to) distance)) (\<lambda>items.
             Inr (map (stream_item S) items)))"

text \<open>What \<^verbatim>\<open>send_branch_with\<close> hands to the reply channel: an error, or the transformed stream.\<close>

definition send_branch_with ::
  "('s, 'hid, 'x, 'f, 'q, 'io) store_ops \<Rightarrow> 's \<Rightarrow> 'hid \<Rightarrow> u32 option \<Rightarrow> (('hid, 'x, 'f, 'q) block \<Rightarrow> 't)
    \<Rightarrow> ('io storage_error, ('io storage_error, 't) result list) result" where
  "send_branch_with S st to depth transform =
     (case bs_iter S st (hash_bytes S to) (case depth of Some d \<Rightarrow> d | None \<Rightarrow> 1) of
        Inl err \<Rightarrow> Inl (from_store_error err)
      | Inr items \<Rightarrow> Inr (map (\<lambda>raw. rbind (stream_item S raw) (\<lambda>b. Inr (transform b))) items))"

definition send_branch ::
  "('s, 'hid, 'x, 'f, 'q, 'io) store_ops \<Rightarrow> 's \<Rightarrow> 'hid \<Rightarrow> u32 option
    \<Rightarrow> ('io storage_error, ('io storage_error, ('hid, 'x, 'f, 'q) block) result list) result" where
  "send_branch S st to depth = send_branch_with S st to depth (\<lambda>b. b)"

fun closest_ancestor_loop ::
  "('s, 'hid, 'x, 'f, 'q, 'io) store_ops \<Rightarrow> 's \<Rightarrow> 'hid \<Rightarrow> 'hid option \<Rightarrow> u32 \<Rightarrow> 'hid list
    \<Rightarrow> ('io storage_error, 'hid option \<times> u32) result" where
  "closest_ancestor_loop S st descendant ancestor closest_found [] = Inr (ancestor, closest_found)"
| "closest_ancestor_loop S st descendant ancestor closest_found (checkpoint # checkpoints) =
     (case bs_is_ancestor S st (hash_bytes S checkpoint) (hash_bytes S descendant) of
        Inr None \<Rightarrow> closest_ancestor_loop S st descendant ancestor closest_found checkpoints
      | Inr (Some distance) \<Rightarrow>
          if distance < closest_found
          then closest_ancestor_loop S st descendant (Some checkpoint) distance checkpoints
          else closest_ancestor_loop S st descendant ancestor closest_found checkpoints
      | Inl StoreBlockNotFound \<Rightarrow> closest_ancestor_loop S st descendant ancestor closest_found checkpoints
      | Inl e \<Rightarrow> Inl (from_store_error e))"

definition find_closest_ancestor ::
  "('s, 'hid, 'x, 'f, 'q, 'io) store_ops \<Rightarrow> 's \<Rightarrow> 'hid list \<Rightarrow> 'hid \<Rightarrow> ('io storage_error, 'hid ancestor option) result" where
  "find_closest_ancestor S st checkpoints descendant =
     rbind (closest_ancestor_loop S st descendant None (- 1) checkpoints) (\<lambda>(ancestor, closest_found).
       Inr (map_option (\<lambda>h. \<lparr>an_header_hash = h, an_distance = closest_found\<rparr>) ancestor))"

text \<open>\<open>None\<close> is the failed \<^verbatim>\<open>unwrap\<close> when two tips have no common ancestor.\<close>

definition find_common_ancestor ::
  "('s, 'hid, 'x, 'f, 'q, 'io) store_ops \<Rightarrow> 's \<Rightarrow> 'hid \<Rightarrow> 'hid \<Rightarrow> ('io storage_error, 'hid) result option" where
  "find_common_ancestor S st tip_1 tip_2 =
     (case bs_lowest_common_ancestor S st (hash_bytes S tip_1) (hash_bytes S tip_2) of
        Inl e \<Rightarrow> Some (Inl (from_store_error e))
      | Inr None \<Rightarrow> None
      | Inr (Some info) \<Rightarrow> Some (map_err DeserializeError (hash_deserialize S (bi_id info))))"

definition minimum_blocks_to_flush :: nat where
  "minimum_blocks_to_flush = 256"

fun gc_prune_loop ::
  "('s, 'hid, 'x, 'f, 'q, 'io) store_ops \<Rightarrow> u32 \<Rightarrow> bytes list \<Rightarrow> ('s, 'io storage_error, unit) action" where
  "gc_prune_loop S threshold_length [] st = Some (Inr (), st)"
| "gc_prune_loop S threshold_length (i # ids) st =
     (case bs_get_block_info S st i of
        Inl e \<Rightarrow> Some (Inl (from_store_error e), st)
      | Inr info \<Rightarrow>
          if threshold_length < bi_chain_length info then gc_prune_loop S threshold_length ids st
          else (case bs_prune_branch S st i of
                  (Inl e, st') \<Rightarrow> Some (Inl (from_store_error e), st')
                | (Inr _, st') \<Rightarrow> gc_prune_loop S threshold_length ids st'))"

definition storage_gc ::
  "('s, 'hid, 'x, 'f, 'q, 'io) store_ops \<Rightarrow> u32 \<Rightarrow> bytes \<Rightarrow> ('s, 'io storage_error, unit) action" where
  "storage_gc S threshold_depth main_branch_tip st =
     (case bs_get_block_info S st main_branch_tip of
        Inl e \<Rightarrow> Some (Inl (from_store_error e), st)
      | Inr main_info \<Rightarrow>
          if bi_chain_length main_info < threshold_depth then Some (Inr (), st)
          else
            let threshold_length = bi_chain_length main_info - threshold_depth in
            act_bind (act_result (map_err from_store_error (bs_get_tips_ids S st))) (\<lambda>tips_ids.
            act_bind (gc_prune_loop S threshold_length tips_ids) (\<lambda>_.
            act_bind (\<lambda>st. Some (map_err from_store_error (bs_get_nth_ancestor S st main_branch_tip threshold_depth), st))
              (\<lambda>to_block_info.
            act_bind (\<lambda>st. let (res, st') = bs_flush_to_permanent_store S st (bi_id to_block_info) minimum_blocks_to_flush
                          in Some (map_err from_store_error res, st'))
              (\<lambda>blocks_flushed. act_return ())))) st)"

section \<open>The documented behaviour of the store\<close>

locale block_store =
  fixes S :: "('s, 'hid, 'x, 'f, 'q, 'io) store_ops"
  assumes de_ser_block: "block_serialize S b = Inr raw \<Longrightarrow> block_deserialize S raw = Inr b"
    and ser_hash: "hash_serialize S h = Inr k \<Longrightarrow> k = hash_bytes S h"
    and de_hash: "hash_deserialize S (hash_bytes S h) = Inr h"
    and put_found: "bs_put_block S st raw info = (Inr (), st') \<Longrightarrow>
          bs_get_block S st' (bi_id info) = Inr raw \<and> bs_get_block_info S st' (bi_id info) = Inr info \<and>
          bs_block_exists S st' (bi_id info) = Inr True"
    and put_frame: "bs_put_block S st raw info = (res, st') \<Longrightarrow> k \<noteq> bi_id info \<Longrightarrow>
          bs_get_block S st' k = bs_get_block S st k \<and> bs_get_block_info S st' k = bs_get_block_info S st k \<and>
          bs_block_exists S st' k = bs_block_exists S st k"
    and put_again: "bs_block_exists S st (bi_id info) = Inr True \<Longrightarrow>
          bs_put_block S st raw info = (Inl StoreBlockAlreadyPresent, st)"
    and put_tag: "bs_put_tag S st tag k = (Inr (), st') \<Longrightarrow> bs_get_tag S st' tag = Inr (Some k)"
    and put_tag_frame: "bs_put_tag S st tag k = (res, st') \<Longrightarrow>
          bs_get_block S st' = bs_get_block S st \<and> bs_get_block_info S st' = bs_get_block_info S st \<and>
          bs_block_exists S st' = bs_block_exists S st"
    and tips_distinct: "bs_get_tips_ids S st = Inr tips \<Longrightarrow> distinct tips"
    and prune_tips: "bs_get_tips_ids S st = Inr tips \<Longrightarrow> i \<in> set tips \<Longrightarrow> bs_prune_branch S st i = (Inr (), st') \<Longrightarrow>
          bs_get_block_info S st' i = Inl StoreBlockNotFound \<and>
          (\<exists>tips'. bs_get_tips_ids S st' = Inr tips' \<and> set tips - {i} \<subseteq> set tips')"
    and prune_keeps: "bs_get_tips_ids S st = Inr tips \<Longrightarrow> j \<in> set tips \<Longrightarrow> j \<noteq> i \<Longrightarrow>
          bs_prune_branch S st i = (Inr (), st') \<Longrightarrow> bs_get_block_info S st' j = bs_get_block_info S st j"
    and prune_shrinks: "bs_get_block_info S st k = Inl StoreBlockNotFound \<Longrightarrow>
          bs_prune_branch S st i = (Inr (), st') \<Longrightarrow> bs_get_block_info S st' k = Inl StoreBlockNotFound"
    and flush_keeps: "bs_flush_to_permanent_store S st k n = (Inr m, st') \<Longrightarrow>
          bs_get_block_info S st' = bs_get_block_info S st"
begin

lemma hash_bytes_inject: "hash_bytes S a = hash_bytes S b \<longleftrightarrow> a = b"
  by (metis de_hash sum.inject(2))

lemma put_block_Inr:
  assumes "storage_put_block S block st = Some (Inr (), st')"
  obtains raw where "block_serialize S block = Inr raw" and "block_deserialize S raw = Inr block"
    and "bs_put_block S st raw \<lparr>bi_id = hash_bytes S (h_hash (b_header block)),
          bi_parent_id = hash_bytes S (h_block_parent_hash (b_header block)),
          bi_chain_length = h_chain_length (b_header block)\<rparr> = (Inr (), st')"
proof -
  obtain bid pid raw where ser: "hash_serialize S (h_hash (b_header block)) = Inr bid"
      "hash_serialize S (h_block_parent_hash (b_header block)) = Inr pid" "block_serialize S block = Inr raw"
    and put: "map_prod (map_err from_store_error) (\<lambda>s. s) (bs_put_block S st raw
        \<lparr>bi_id = bid, bi_parent_id = pid, bi_chain_length = h_chain_length (b_header block)\<rparr>) = (Inr (), st')"
    using assms unfolding storage_put_block_def Let_def
    by (simp only: act_result_bind_Inr map_err_eq_Inr_conv) (auto simp: case_prod_beta map_prod_def)
  then show ?thesis
    by (cases "bs_put_block S st raw \<lparr>bi_id = bid, bi_parent_id = pid, bi_chain_length = h_chain_length (b_header block)\<rparr>")
      (simp add: that [OF ser(3) de_ser_block [OF ser(3)]] map_err_eq_Inr_conv ser_hash [OF ser(1)] ser_hash [OF ser(2)])
qed

text \<open>The pruning loop over tips of the current store removes exactly those up to the threshold.\<close>

lemma gc_prune_loop_Inr:
  assumes "gc_prune_loop S threshold ids st = Some (Inr (), st')"
    and "bs_get_tips_ids S st = Inr tips" and "set ids \<subseteq> set tips" and "distinct ids"
  shows "(\<forall>j\<in>set tips - set ids. bs_get_block_info S st' j = bs_get_block_info S st j) \<and>
     (\<forall>k. bs_get_block_info S st k = Inl StoreBlockNotFound \<longrightarrow> bs_get_block_info S st' k = Inl StoreBlockNotFound) \<and>
     (\<forall>j\<in>set ids. \<exists>info. bs_get_block_info S st j = Inr info \<and>
        bs_get_block_info S st' j = (if threshold < bi_chain_length info then Inr info else Inl StoreBlockNotFound))"
  using assms
proof (induction ids arbitrary: st tips)
  case Nil
  then show ?case by simp
next
  case (Cons i ids)
  obtain info where info: "bs_get_block_info S st i = Inr info"
    using Cons.prems(1) by (cases "bs_get_block_info S st i") simp_all
  have sub: "i \<in> set tips" "set ids \<subseteq> set tips" "i \<notin> set ids" "distinct ids" using Cons.prems(3,4) by auto
  show ?case
  proof (cases "threshold < bi_chain_length info")
    case True
    then have "gc_prune_loop S threshold ids st = Some (Inr (), st')" using Cons.prems(1) info by simp
    note IH = Cons.IH [OF this Cons.prems(2) sub(2,4)]
    have "bs_get_block_info S st' i = Inr info" using IH sub info by auto
    with True info IH show ?thesis by auto
  next
    case False
    then obtain st1 where st1: "bs_prune_branch S st i = (Inr (), st1)" "gc_prune_loop S threshold ids st1 = Some (Inr (), st')"
      using Cons.prems(1) info by (auto split: prod.splits sum.splits)
    obtain tips1 where tips1: "bs_get_tips_ids S st1 = Inr tips1" "set tips - {i} \<subseteq> set tips1"
        and gone: "bs_get_block_info S st1 i = Inl StoreBlockNotFound"
      using prune_tips [OF Cons.prems(2) sub(1) st1(1)] by blast
    have same: "bs_get_block_info S st1 j = bs_get_block_info S st j" if "j \<in> set tips" "j \<noteq> i" for j
      by (rule prune_keeps [OF Cons.prems(2) that st1(1)])
    have "set ids \<subseteq> set tips1" using sub tips1(2) by auto
    note IH = Cons.IH [OF st1(2) tips1(1) this sub(4)]
    have "bs_get_block_info S st' i = Inl StoreBlockNotFound" using IH gone by blast
    moreover have "\<forall>j\<in>set tips - set (i # ids). bs_get_block_info S st' j = bs_get_block_info S st j"
    proof
      fix j assume j: "j \<in> set tips - set (i # ids)"
      then have "j \<in> set tips1 - set ids" using tips1(2) by auto
      then have "bs_get_block_info S st' j = bs_get_block_info S st1 j" using IH by blast
      with same [of j] j show "bs_get_block_info S st' j = bs_get_block_info S st j" by simp
    qed
    moreover have "\<forall>j\<in>set ids. \<exists>info. bs_get_block_info S st j = Inr info \<and>
        bs_get_block_info S st' j = (if threshold < bi_chain_length info then Inr info else Inl StoreBlockNotFound)"
    proof
      fix j assume j: "j \<in> set ids"
      then have st1j: "bs_get_block_info S st1 j = bs_get_block_info S st j" using sub by (intro same) auto
      show "\<exists>info. bs_get_block_info S st j = Inr info \<and>
        bs_get_block_info S st' j = (if threshold < bi_chain_length info then Inr info else Inl StoreBlockNotFound)"
        using IH [THEN conjunct2, THEN conjunct2, rule_format, OF j] unfolding st1j .
    qed
    moreover have "\<forall>k. bs_get_block_info S st k = Inl StoreBlockNotFound \<longrightarrow> bs_get_block_info S st' k = Inl StoreBlockNotFound"
      using IH prune_shrinks [OF _ st1(1)] by blast
    ultimately show ?thesis using False info by simp
  qed
qed

end

section \<open>Properties\<close>

text \<open>The distance from a checkpoint to a descendant, when the store knows both and one leads to the other.\<close>

definition checkpoint_distance :: "('s, 'hid, 'x, 'f, 'q, 'io) store_ops \<Rightarrow> 's \<Rightarrow> 'hid \<Rightarrow> 'hid \<Rightarrow> u32 option" where
  "checkpoint_distance S st descendant checkpoint =
     (case bs_is_ancestor S st (hash_bytes S checkpoint) (hash_bytes S descendant) of Inr d \<Rightarrow> d | Inl _ \<Rightarrow> None)"

lemma closest_ancestor_loop_Inr:
  assumes "closest_ancestor_loop S st d ancestor c cps = Inr (ancestor', c')"
  shows "(ancestor' = ancestor \<and> c' = c \<and> (\<forall>cp\<in>set cps. \<forall>n. checkpoint_distance S st d cp = Some n \<longrightarrow> c \<le> n)) \<or>
    (\<exists>us h vs. cps = us @ h # vs \<and> ancestor' = Some h \<and> checkpoint_distance S st d h = Some c' \<and> c' < c \<and>
       (\<forall>u\<in>set us. \<forall>n. checkpoint_distance S st d u = Some n \<longrightarrow> c' < n) \<and>
       (\<forall>v\<in>set vs. \<forall>n. checkpoint_distance S st d v = Some n \<longrightarrow> c' \<le> n))"
  using assms
proof (induction cps arbitrary: ancestor c)
  case Nil
  then show ?case by simp
next
  case (Cons cp cps)
  let ?dist = "checkpoint_distance S st d"
  let ?goal = "\<lambda>anc c cps. (ancestor' = anc \<and> c' = c \<and> (\<forall>cp\<in>set cps. \<forall>n. ?dist cp = Some n \<longrightarrow> c \<le> n)) \<or>
    (\<exists>us h vs. cps = us @ h # vs \<and> ancestor' = Some h \<and> ?dist h = Some c' \<and> c' < c \<and>
       (\<forall>u\<in>set us. \<forall>n. ?dist u = Some n \<longrightarrow> c' < n) \<and> (\<forall>v\<in>set vs. \<forall>n. ?dist v = Some n \<longrightarrow> c' \<le> n))"
  have skip: "?goal ancestor c (cp # cps)"
    if "closest_ancestor_loop S st d ancestor c cps = Inr (ancestor', c')" "\<forall>n. ?dist cp = Some n \<longrightarrow> c \<le> n"
  proof -
    have "?goal ancestor c cps" by (rule Cons.IH [OF that(1)])
    then show ?thesis
    proof (elim disjE exE conjE)
      fix us h vs
      assume *: "cps = us @ h # vs" "ancestor' = Some h" "?dist h = Some c'" "c' < c"
        "\<forall>u\<in>set us. \<forall>n. ?dist u = Some n \<longrightarrow> c' < n" "\<forall>v\<in>set vs. \<forall>n. ?dist v = Some n \<longrightarrow> c' \<le> n"
      have "\<forall>u\<in>set (cp # us). \<forall>n. ?dist u = Some n \<longrightarrow> c' < n" using *(4,5) that(2) by (auto intro: less_le_trans)
      with * have "cp # cps = (cp # us) @ h # vs \<and> ancestor' = Some h \<and> ?dist h = Some c' \<and> c' < c \<and>
        (\<forall>u\<in>set (cp # us). \<forall>n. ?dist u = Some n \<longrightarrow> c' < n) \<and> (\<forall>v\<in>set vs. \<forall>n. ?dist v = Some n \<longrightarrow> c' \<le> n)" by simp
      then show ?thesis by blast
    qed (use that(2) in simp)
  qed
  have take: "?goal ancestor c (cp # cps)"
    if "closest_ancestor_loop S st d (Some cp) n cps = Inr (ancestor', c')" "?dist cp = Some n" "n < c" for n
  proof -
    have "?goal (Some cp) n cps" by (rule Cons.IH [OF that(1)])
    then show ?thesis
    proof (elim disjE exE conjE)
      assume *: "ancestor' = Some cp" "c' = n" "\<forall>cp\<in>set cps. \<forall>m. ?dist cp = Some m \<longrightarrow> n \<le> m"
      then have "cp # cps = [] @ cp # cps \<and> ancestor' = Some cp \<and> ?dist cp = Some c' \<and> c' < c \<and>
        (\<forall>u\<in>set []. \<forall>n. ?dist u = Some n \<longrightarrow> c' < n) \<and> (\<forall>v\<in>set cps. \<forall>n. ?dist v = Some n \<longrightarrow> c' \<le> n)"
        using that by simp
      then show ?thesis by blast
    next
      fix us h vs
      assume *: "cps = us @ h # vs" "ancestor' = Some h" "?dist h = Some c'" "c' < n"
        "\<forall>u\<in>set us. \<forall>n. ?dist u = Some n \<longrightarrow> c' < n" "\<forall>v\<in>set vs. \<forall>n. ?dist v = Some n \<longrightarrow> c' \<le> n"
      then have "cp # cps = (cp # us) @ h # vs \<and> ancestor' = Some h \<and> ?dist h = Some c' \<and> c' < c \<and>
        (\<forall>u\<in>set (cp # us). \<forall>n. ?dist u = Some n \<longrightarrow> c' < n) \<and> (\<forall>v\<in>set vs. \<forall>n. ?dist v = Some n \<longrightarrow> c' \<le> n)"
        using that by auto
      then show ?thesis by blast
    qed
  qed
  show ?case
  proof (cases "bs_is_ancestor S st (hash_bytes S cp) (hash_bytes S d)")
    case (Inl e)
    with Cons.prems show ?thesis by (intro skip) (cases e; simp add: checkpoint_distance_def)+
  next
    case (Inr r)
    show ?thesis
    proof (cases r)
      case None
      with Inr Cons.prems show ?thesis by (intro skip) (simp_all add: checkpoint_distance_def)
    next
      case (Some n)
      show ?thesis
      proof (cases "n < c")
        case True
        with Inr Some Cons.prems show ?thesis by (intro take) (simp_all add: checkpoint_distance_def)
      next
        case False
        with Inr Some Cons.prems show ?thesis by (intro skip) (simp_all add: checkpoint_distance_def)
      qed
    qed
  qed
qed

lemma closest_ancestor_loop_Inl:
  "closest_ancestor_loop S st d ancestor c cps = Inl e \<Longrightarrow>
     \<exists>cp\<in>set cps. \<exists>se. bs_is_ancestor S st (hash_bytes S cp) (hash_bytes S d) = Inl se \<and> se \<noteq> StoreBlockNotFound \<and>
       e = from_store_error se"
  by (induction S st d ancestor c cps rule: closest_ancestor_loop.induct)
    (auto split: sum.splits option.splits store_error.splits if_splits)

text \<open> \<^verbatim>\<open>Storage::find_closest_ancestor\<close> returns the checkpoint at the smallest distance from the
  descendant, the first one among equals, with that distance; checkpoints the store does not know are skipped. It
  returns nothing only when no checkpoint is an ancestor at a distance below the largest 32-bit number, and an error only
  when the store reports one other than a missing block.\<close>

theorem find_closest_ancestor_correct:
  "case find_closest_ancestor S st checkpoints descendant of
     Inl e \<Rightarrow> \<exists>cp\<in>set checkpoints. \<exists>se. bs_is_ancestor S st (hash_bytes S cp) (hash_bytes S descendant) = Inl se \<and>
        se \<noteq> StoreBlockNotFound \<and> e = from_store_error se
   | Inr None \<Rightarrow> \<forall>cp\<in>set checkpoints. \<forall>n. checkpoint_distance S st descendant cp = Some n \<longrightarrow> n = - 1
   | Inr (Some a) \<Rightarrow> \<exists>us vs. checkpoints = us @ an_header_hash a # vs \<and>
        checkpoint_distance S st descendant (an_header_hash a) = Some (an_distance a) \<and>
        (\<forall>u\<in>set us. \<forall>n. checkpoint_distance S st descendant u = Some n \<longrightarrow> an_distance a < n) \<and>
        (\<forall>v\<in>set vs. \<forall>n. checkpoint_distance S st descendant v = Some n \<longrightarrow> an_distance a \<le> n)"
proof (cases "closest_ancestor_loop S st descendant None (- 1) checkpoints")
  case (Inl e)
  then show ?thesis using closest_ancestor_loop_Inl [OF Inl] by (simp add: find_closest_ancestor_def)
next
  case (Inr p)
  obtain anc c where p: "p = (anc, c)" by (rule prod.exhaust)
  from closest_ancestor_loop_Inr [OF Inr [unfolded p]] show ?thesis
  proof (elim disjE exE conjE)
    assume "anc = None" "\<forall>cp\<in>set checkpoints. \<forall>n. checkpoint_distance S st descendant cp = Some n \<longrightarrow> - 1 \<le> n"
    then show ?thesis using Inr p by (auto simp: find_closest_ancestor_def word_order.extremum_unique)
  next
    fix us h vs
    assume "checkpoints = us @ h # vs" "anc = Some h" "checkpoint_distance S st descendant h = Some c"
      "\<forall>u\<in>set us. \<forall>n. checkpoint_distance S st descendant u = Some n \<longrightarrow> c < n"
      "\<forall>v\<in>set vs. \<forall>n. checkpoint_distance S st descendant v = Some n \<longrightarrow> c \<le> n"
    then show ?thesis using Inr p by (auto simp: find_closest_ancestor_def)
  qed
qed

text \<open>(C32) Storing a block and reading it back. After a successful \<^verbatim>\<open>put_block\<close> the storage returns the same
  block under its hash, together with its parent and its chain length; what it returns for any other hash is
  unchanged; and a second \<^verbatim>\<open>put_block\<close> of the block reports that it is already present and changes nothing.\<close>

theorem storage_put_get:
  assumes "block_store S" and "storage_put_block S block st = Some (Inr (), st')"
  shows "storage_get S st' (h_hash (b_header block)) = Inr (Some block)
    \<and> storage_block_exists S st' (h_hash (b_header block)) = Inr True
    \<and> storage_get_parent S st' (h_hash (b_header block)) = Inr (Some (h_block_parent_hash (b_header block)))
    \<and> storage_get_chain_length S st' (h_hash (b_header block)) = Some (h_chain_length (b_header block))
    \<and> (\<forall>h. h \<noteq> h_hash (b_header block) \<longrightarrow> storage_get S st' h = storage_get S st h
         \<and> storage_block_exists S st' h = storage_block_exists S st h)
    \<and> storage_put_block S block st' = Some (Inl BlockAlreadyPresent, st')"
proof -
  obtain raw where raw: "block_serialize S block = Inr raw" "block_deserialize S raw = Inr block"
    and put: "bs_put_block S st raw \<lparr>bi_id = hash_bytes S (h_hash (b_header block)),
          bi_parent_id = hash_bytes S (h_block_parent_hash (b_header block)),
          bi_chain_length = h_chain_length (b_header block)\<rparr> = (Inr (), st')"
    by (rule block_store.put_block_Inr [OF assms])
  have found: "bs_get_block S st' (hash_bytes S (h_hash (b_header block))) = Inr raw"
      "bs_get_block_info S st' (hash_bytes S (h_hash (b_header block))) = Inr \<lparr>bi_id = hash_bytes S (h_hash (b_header block)),
          bi_parent_id = hash_bytes S (h_block_parent_hash (b_header block)),
          bi_chain_length = h_chain_length (b_header block)\<rparr>"
      "bs_block_exists S st' (hash_bytes S (h_hash (b_header block))) = Inr True"
    using block_store.put_found [OF assms(1) put] by simp_all
  have frame: "bs_get_block S st' (hash_bytes S h) = bs_get_block S st (hash_bytes S h) \<and>
      bs_block_exists S st' (hash_bytes S h) = bs_block_exists S st (hash_bytes S h)"
    if "h \<noteq> h_hash (b_header block)" for h
    using block_store.put_frame [OF assms(1) put, of "hash_bytes S h"] that
    by (simp add: block_store.hash_bytes_inject [OF assms(1)])
  obtain bid pid where ser: "hash_serialize S (h_hash (b_header block)) = Inr bid"
      "hash_serialize S (h_block_parent_hash (b_header block)) = Inr pid"
    using assms(2) unfolding storage_put_block_def Let_def
    by (simp only: act_result_bind_Inr map_err_eq_Inr_conv) blast
  have "bid = hash_bytes S (h_hash (b_header block))" by (rule block_store.ser_hash [OF assms(1) ser(1)])
  then have "storage_put_block S block st' = Some (Inl BlockAlreadyPresent, st')"
    using ser raw found(3) by (simp add: storage_put_block_def Let_def block_store.put_again [OF assms(1)])
  then show ?thesis
    using raw found frame block_store.de_hash [OF assms(1)]
    by (simp add: storage_get_def storage_block_exists_def storage_get_parent_def storage_get_chain_length_def)
qed

text \<open>(C33) Garbage collection. When the main branch is shorter than the stability depth nothing happens. Otherwise,
  if \<^verbatim>\<open>gc\<close> succeeds, the tips whose chain length is at most the length of the main branch minus the depth
  are removed, and every longer tip is still there; in particular the main tip survives when the
  depth is not zero.\<close>

theorem storage_gc_correct:
  assumes "block_store S" and "bs_get_block_info S st main = Inr main_info" and "bs_get_tips_ids S st = Inr tips"
    and "main \<in> set tips" and "storage_gc S depth main st = Some (Inr (), st')"
  shows "if bi_chain_length main_info < depth then st' = st
    else (\<forall>j\<in>set tips. \<exists>info. bs_get_block_info S st j = Inr info \<and>
       bs_get_block_info S st' j =
         (if bi_chain_length main_info - depth < bi_chain_length info then Inr info else Inl StoreBlockNotFound)) \<and>
      (depth \<noteq> 0 \<longrightarrow> bs_get_block_info S st' main = Inr main_info)"
proof (cases "bi_chain_length main_info < depth")
  case True
  then show ?thesis using assms(2,5) by (simp add: storage_gc_def)
next
  case False
  let ?t = "bi_chain_length main_info - depth"
  obtain st1 and a :: block_info where loop: "gc_prune_loop S ?t tips st = Some (Inr (), st1)"
      and flush: "\<exists>n. fst (bs_flush_to_permanent_store S st1 (bi_id a) minimum_blocks_to_flush) = Inr n"
        "snd (bs_flush_to_permanent_store S st1 (bi_id a) minimum_blocks_to_flush) = st'"
    using assms(2,3,5) False unfolding storage_gc_def Let_def
    by (simp add: act_bind_Inr map_err_eq_Inr_conv case_prod_beta) blast
  have same: "bs_get_block_info S st' = bs_get_block_info S st1"
    using flush block_store.flush_keeps [OF assms(1), of st1 "bi_id a" minimum_blocks_to_flush] by (metis prod.collapse)
  have all: "\<forall>j\<in>set tips. \<exists>info. bs_get_block_info S st j = Inr info \<and>
      bs_get_block_info S st' j = (if ?t < bi_chain_length info then Inr info else Inl StoreBlockNotFound)"
    using block_store.gc_prune_loop_Inr [OF assms(1) loop assms(3) order_refl block_store.tips_distinct [OF assms(1,3)]]
    by (simp add: same)
  moreover have "?t < bi_chain_length main_info" if "depth \<noteq> 0"
  proof -
    have "0 < unat depth" using that by (simp add: unat_gt_0)
    then show ?thesis using False by (simp add: word_less_nat_alt word_le_nat_alt unat_sub not_less)
  qed
  ultimately show ?thesis using False assms(2,4) by auto
qed

section \<open>A store in memory\<close>

text \<open>
  A reference implementation of the store: an association list from identifiers to blocks, and the tags. It shows that
  the documented laws can hold together, and the examples run on it. Blocks without contents are encoded
  as five numbers in unary notation.
\<close>

record mem_store =
  ms_blocks :: "(bytes \<times> bytes \<times> block_info) list"
  ms_tags :: "(string \<times> bytes) list"

definition ms_info :: "mem_store \<Rightarrow> bytes \<Rightarrow> block_info option" where
  "ms_info st k = map_option snd (map_of (ms_blocks st) k)"

text \<open>The identifiers from a block up to the root, at most as many as there are blocks.\<close>

fun ms_path :: "nat \<Rightarrow> mem_store \<Rightarrow> bytes \<Rightarrow> bytes list" where
  "ms_path 0 st k = []"
| "ms_path (Suc n) st k = (case ms_info st k of None \<Rightarrow> [] | Some info \<Rightarrow> k # ms_path n st (bi_parent_id info))"

definition ms_ancestors :: "mem_store \<Rightarrow> bytes \<Rightarrow> bytes list" where
  "ms_ancestors st k = ms_path (length (ms_blocks st)) st k"

definition ms_tips :: "mem_store \<Rightarrow> bytes list" where
  "ms_tips st = remdups (filter (\<lambda>k. \<forall>(j, raw, info)\<in>set (ms_blocks st). bi_parent_id info \<noteq> k) (keys_of (ms_blocks st)))"

definition ms_put_block :: "mem_store \<Rightarrow> bytes \<Rightarrow> block_info \<Rightarrow> (unit store_error, unit) result \<times> mem_store" where
  "ms_put_block st raw info =
     (if ms_info st (bi_id info) \<noteq> None then (Inl StoreBlockAlreadyPresent, st)
      else if bi_parent_id info \<noteq> [] \<and> ms_info st (bi_parent_id info) = None then (Inl StoreMissingParent, st)
      else (Inr (), st\<lparr>ms_blocks := (bi_id info, raw, info) # ms_blocks st\<rparr>))"

definition ms_prune_branch :: "mem_store \<Rightarrow> bytes \<Rightarrow> (unit store_error, unit) result \<times> mem_store" where
  "ms_prune_branch st i =
     (if i \<in> set (ms_tips st)
      then (Inr (), st\<lparr>ms_blocks := filter (\<lambda>(k, _). k \<noteq> i \<and>
              (k \<notin> set (ms_ancestors st i) \<or> (\<exists>j\<in>set (ms_tips st) - {i}. k = j \<or> k \<in> set (ms_ancestors st j)))) (ms_blocks st)\<rparr>)
      else (Inl StoreBlockNotFound, st))"

definition found :: "'a option \<Rightarrow> (unit store_error, 'a) result" where
  "found x = (case x of None \<Rightarrow> Inl StoreBlockNotFound | Some v \<Rightarrow> Inr v)"

definition ms_distance :: "mem_store \<Rightarrow> bytes \<Rightarrow> bytes \<Rightarrow> u32 option" where
  "ms_distance st a b =
     (if a \<in> set (ms_ancestors st b) then Some (of_nat (length (takeWhile (\<lambda>k. k \<noteq> a) (ms_ancestors st b)))) else None)"

fun unary_enc :: "nat list \<Rightarrow> bytes" where
  "unary_enc [] = []"
| "unary_enc (n # ns) = replicate n 0 @ 1 # unary_enc ns"

fun unary_dec :: "nat \<Rightarrow> bytes \<Rightarrow> nat list" where
  "unary_dec n [] = []"
| "unary_dec n (b # bs) = (if b = 0 then unary_dec (Suc n) bs else n # unary_dec 0 bs)"

lemma unary_dec_replicate: "unary_dec m (replicate n 0 @ bs) = unary_dec (m + n) bs"
  by (induction n arbitrary: m) auto

lemma unary_dec_enc [simp]: "unary_dec 0 (unary_enc ns) = ns"
  by (induction ns) (simp_all add: unary_dec_replicate)

definition ms_block_serialize :: "(nat, unit, unit, unit) block \<Rightarrow> (unit, bytes) result" where
  "ms_block_serialize b =
     (if b_contents b = []
      then Inr (unary_enc [h_hash (b_header b), h_block_parent_hash (b_header b), unat (epoch (h_block_date (b_header b))),
                  unat (slot_id (h_block_date (b_header b))), unat (h_chain_length (b_header b))])
      else Inl ())"

definition ms_block_deserialize :: "bytes \<Rightarrow> (unit, (nat, unit, unit, unit) block) result" where
  "ms_block_deserialize raw =
     (case unary_dec 0 raw of
        [h, p, e, s, n] \<Rightarrow> Inr \<lparr>b_header = \<lparr>h_hash = h, h_block_parent_hash = p, h_block_date = BlockDate (of_nat e) (of_nat s),
                                h_chain_length = of_nat n, h_content = ()\<rparr>, b_contents = []\<rparr>
      | _ \<Rightarrow> Inl ())"

definition mem_store_ops :: "(mem_store, nat, unit, unit, unit, unit) store_ops" where
  "mem_store_ops = \<lparr>
     bs_put_block = ms_put_block,
     bs_get_block = (\<lambda>st k. found (map_option fst (map_of (ms_blocks st) k))),
     bs_get_block_info = (\<lambda>st k. found (ms_info st k)),
     bs_block_exists = (\<lambda>st k. Inr (ms_info st k \<noteq> None)),
     bs_get_tips_ids = (\<lambda>st. Inr (ms_tips st)),
     bs_get_blocks_by_chain_length = (\<lambda>st n. Inr (map (fst \<circ> snd) (filter (\<lambda>(_, _, info). bi_chain_length info = n) (ms_blocks st)))),
     bs_get_nth_ancestor = (\<lambda>st k n. let p = ms_ancestors st k in
        if unat n < length p then found (ms_info st (p ! unat n)) else Inl StoreBlockNotFound),
     bs_is_ancestor = (\<lambda>st a b. if ms_info st a = None \<or> ms_info st b = None then Inl StoreBlockNotFound else Inr (ms_distance st a b)),
     bs_iter = (\<lambda>st k n. let p = ms_ancestors st k in
        if unat n \<le> length p
        then Inr (map (\<lambda>j. found (map_option fst (map_of (ms_blocks st) j))) (rev (take (unat n) p)))
        else Inl StoreBlockNotFound),
     bs_lowest_common_ancestor = (\<lambda>st a b. Inr (case filter (\<lambda>k. k \<in> set (ms_ancestors st b)) (ms_ancestors st a) of
        [] \<Rightarrow> None | k # _ \<Rightarrow> ms_info st k)),
     bs_prune_branch = ms_prune_branch,
     bs_flush_to_permanent_store = (\<lambda>st k n. (Inr 0, st)),
     bs_get_tag = (\<lambda>st t. Inr (map_of (ms_tags st) t)),
     bs_put_tag = (\<lambda>st t k. if ms_info st k = None then (Inl StoreBlockNotFound, st)
        else (Inr (), st\<lparr>ms_tags := (t, k) # ms_tags st\<rparr>)),
     hash_bytes = (\<lambda>h. replicate h 0),
     hash_serialize = (\<lambda>h. Inr (replicate h 0)),
     hash_deserialize = (\<lambda>k. Inr (length k)),
     block_serialize = ms_block_serialize,
     block_deserialize = ms_block_deserialize\<rparr>"

lemma ms_de_ser: "ms_block_serialize b = Inr raw \<Longrightarrow> ms_block_deserialize raw = Inr b"
  by (cases b; cases "b_header b"; cases "h_block_date (b_header b)")
    (auto simp: ms_block_serialize_def ms_block_deserialize_def simp del: unary_enc.simps split: if_splits)

lemma ms_tip_info: "j \<in> set (ms_tips st) \<Longrightarrow> ms_info st j \<noteq> None"
  by (auto simp: ms_tips_def ms_info_def map_of_eq_None_iff)

lemma map_of_filter_key: "map_of (filter (\<lambda>(k, _). P k) xs) k = (if P k then map_of xs k else None)"
  by (induction xs) auto

lemma ms_prune_info:
  assumes "ms_prune_branch st i = (Inr (), st')"
  shows "ms_info st' i = None" and "ms_info st k = None \<Longrightarrow> ms_info st' k = None"
    and "j \<in> set (ms_tips st) \<Longrightarrow> j \<noteq> i \<Longrightarrow> ms_info st' j = ms_info st j"
  using assms by (auto simp: ms_prune_branch_def ms_info_def map_of_filter_key split: if_splits)

lemma ms_prune_tips:
  assumes "ms_prune_branch st i = (Inr (), st')"
  shows "set (ms_tips st) - {i} \<subseteq> set (ms_tips st')"
proof
  fix j assume j: "j \<in> set (ms_tips st) - {i}"
  then have "ms_info st' j \<noteq> None" using ms_prune_info(3) [OF assms, of j] ms_tip_info [of j st] by simp
  moreover have "set (ms_blocks st') \<subseteq> set (ms_blocks st)"
    using assms by (auto simp: ms_prune_branch_def split: if_splits)
  ultimately show "j \<in> set (ms_tips st')"
    using j by (auto simp: ms_tips_def ms_info_def map_of_eq_None_iff)
qed

lemma found_missing [simp]: "found x = Inl StoreBlockNotFound \<longleftrightarrow> x = None"
  by (auto simp: found_def split: option.splits)

interpretation memory: block_store mem_store_ops
proof
  fix st st' raw res k tips i j and info :: block_info
  show "bs_get_tips_ids mem_store_ops st = Inr tips \<Longrightarrow> i \<in> set tips \<Longrightarrow> bs_prune_branch mem_store_ops st i = (Inr (), st') \<Longrightarrow>
      bs_get_block_info mem_store_ops st' i = Inl StoreBlockNotFound \<and>
      (\<exists>tips'. bs_get_tips_ids mem_store_ops st' = Inr tips' \<and> set tips - {i} \<subseteq> set tips')"
    using ms_prune_tips [of st i st'] by (auto simp: mem_store_ops_def ms_prune_info(1))
  show "bs_get_tips_ids mem_store_ops st = Inr tips \<Longrightarrow> j \<in> set tips \<Longrightarrow> j \<noteq> i \<Longrightarrow>
      bs_prune_branch mem_store_ops st i = (Inr (), st') \<Longrightarrow>
      bs_get_block_info mem_store_ops st' j = bs_get_block_info mem_store_ops st j"
    by (simp add: mem_store_ops_def ms_prune_info(3))
  show "bs_get_block_info mem_store_ops st k = Inl StoreBlockNotFound \<Longrightarrow>
      bs_prune_branch mem_store_ops st i = (Inr (), st') \<Longrightarrow> bs_get_block_info mem_store_ops st' k = Inl StoreBlockNotFound"
    by (simp add: mem_store_ops_def ms_prune_info(2))
  show "bs_put_block mem_store_ops st raw info = (Inr (), st') \<Longrightarrow>
      bs_get_block mem_store_ops st' (bi_id info) = Inr raw \<and> bs_get_block_info mem_store_ops st' (bi_id info) = Inr info \<and>
      bs_block_exists mem_store_ops st' (bi_id info) = Inr True"
    by (auto simp: mem_store_ops_def ms_put_block_def ms_info_def found_def split: if_splits)
  show "bs_put_block mem_store_ops st raw info = (res, st') \<Longrightarrow> k \<noteq> bi_id info \<Longrightarrow>
      bs_get_block mem_store_ops st' k = bs_get_block mem_store_ops st k \<and>
      bs_get_block_info mem_store_ops st' k = bs_get_block_info mem_store_ops st k \<and>
      bs_block_exists mem_store_ops st' k = bs_block_exists mem_store_ops st k"
    by (auto simp: mem_store_ops_def ms_put_block_def ms_info_def split: if_splits)
qed (auto simp: mem_store_ops_def ms_de_ser ms_put_block_def ms_tips_def ms_info_def split: if_splits)

section \<open>Examples\<close>

text \<open>A store with block 1 and its children 2 and 3, and a child 4 of 3.\<close>

definition plain_block :: "nat \<Rightarrow> nat \<Rightarrow> u32 \<Rightarrow> (nat, unit, unit, unit) block" where
  "plain_block h parent n = \<lparr>b_header = \<lparr>h_hash = h, h_block_parent_hash = parent, h_block_date = BlockDate 0 n,
     h_chain_length = n, h_content = ()\<rparr>, b_contents = []\<rparr>"

definition stored :: "nat \<Rightarrow> nat \<Rightarrow> u32 \<Rightarrow> bytes \<times> bytes \<times> block_info" where
  "stored h parent n = (replicate h 0, unary_enc [h, parent, 0, unat n, unat n],
     \<lparr>bi_id = replicate h 0, bi_parent_id = replicate parent 0, bi_chain_length = n\<rparr>)"

definition example_store :: mem_store where
  "example_store = \<lparr>ms_blocks = [stored 4 3 2, stored 3 1 1, stored 2 1 1, stored 1 0 0], ms_tags = []\<rparr>"

theorem find_closest_ancestor_correct_witness:
  "find_closest_ancestor mem_store_ops example_store [9, 2, 1, 3] 4 = Inr (Some \<lparr>an_header_hash = 3, an_distance = 1\<rparr>)
   \<and> (\<exists>us vs. [9, 2, 1, 3] = us @ 3 # vs \<and> (\<forall>u\<in>set us. \<forall>n. checkpoint_distance mem_store_ops example_store 4 u = Some n \<longrightarrow> 1 < n))"
proof -
  have "find_closest_ancestor mem_store_ops example_store [9, 2, 1, 3] 4 = Inr (Some \<lparr>an_header_hash = 3, an_distance = 1\<rparr>)"
    by code_simp
  then show ?thesis
    using find_closest_ancestor_correct [where S = mem_store_ops and st = example_store and checkpoints = "[9, 2, 1, 3]" and descendant = 4]
    by auto
qed

theorem storage_put_get_witness:
  "\<exists>st'. storage_put_block mem_store_ops (plain_block 5 4 3) example_store = Some (Inr (), st')
     \<and> storage_get mem_store_ops st' 5 = Inr (Some (plain_block 5 4 3))"
proof -
  have "map_option fst (storage_put_block mem_store_ops (plain_block 5 4 3) example_store) = Some (Inr ())" by code_simp
  then obtain st' where put: "storage_put_block mem_store_ops (plain_block 5 4 3) example_store = Some (Inr (), st')" by auto
  show ?thesis
    using put storage_put_get [OF memory.block_store_axioms put] by (simp add: plain_block_def)
qed

theorem storage_gc_correct_witness:
  "\<exists>st'. storage_gc mem_store_ops 1 (replicate 4 0) example_store = Some (Inr (), st')
     \<and> bs_get_block_info mem_store_ops st' (replicate 2 0) = Inl StoreBlockNotFound
     \<and> bs_get_block_info mem_store_ops st' (replicate 4 0) = Inr (snd (snd (stored 4 3 2)))"
proof -
  have tips: "bs_get_tips_ids mem_store_ops example_store = Inr [replicate 4 0, replicate 2 0]" by code_simp
  have main: "bs_get_block_info mem_store_ops example_store (replicate 4 0) = Inr (snd (snd (stored 4 3 2)))" by code_simp
  have side: "bs_get_block_info mem_store_ops example_store (replicate 2 0) = Inr (snd (snd (stored 2 1 1)))" by code_simp
  have "map_option fst (storage_gc mem_store_ops 1 (replicate 4 0) example_store) = Some (Inr ())" by code_simp
  then obtain st' where gc: "storage_gc mem_store_ops 1 (replicate 4 0) example_store = Some (Inr (), st')" by auto
  show ?thesis
    using gc side storage_gc_correct [OF memory.block_store_axioms main tips _ gc] by (auto simp: stored_def)
qed

end
