(* ===== verification/Node_Chain.thy ===== *)
theory Node_Chain
  imports Lru_Cache Block_Storage "HOL-Library.Sublist"
begin

text \<open>
  The blockchain of the node: references with the state after a block (\<^verbatim>\<open>jormungandr/src/blockchain/reference.rs\<close>),
  their cache (\<^verbatim>\<open>reference_cache.rs\<close>), the ledger multiverse (\<^verbatim>\<open>multiverse.rs\<close>), the choice between two
  references (\<^verbatim>\<open>chain_selection.rs\<close>), checkpoints (\<^verbatim>\<open>checkpoints.rs\<close>), and the checks and
  the application of blocks (\<^verbatim>\<open>chain.rs\<close>).

  The state shared by the tasks is the record \<open>node_chain\<close>; an operation is an action on it, in which
  \<open>None\<close> is a panic, a failed \<^verbatim>\<open>debug_assert\<close> included. Each operation runs to its end before the next one starts.
  The ledger library, the leadership schedules, the ledger multiverse and the file that rewards are dumped to
  are parameters, the record \<open>node_ops\<close>.
\<close>

section \<open>References\<close>

text \<open>A handle of the multiverse: the block it belongs to and the ledger state.\<close>

record ('hid, 'lg) ledger_ref =
  lr_id :: 'hid
  lr_state :: 'lg

datatype ('hid, 'x, 'lg, 'ld, 'tf, 'rw) noderef = Ref
  (ref_ledger: "('hid, 'lg) ledger_ref")
  (ref_time_frame: 'tf)
  (ref_leadership: 'ld)
  (ref_rewards_info: "'rw option")
  (ref_header: "('hid, 'x) header")
  (ref_previous_epoch_state: "('hid, 'x, 'lg, 'ld, 'tf, 'rw) noderef option")

record ('hid, 'x, 'f, 'q, 'lg, 'ld, 'e, 'tf, 'rw, 'mv) node_ops =
  n_chain :: "('hid, 'x, 'f, 'q, 'lg, 'ld, 'e, 'tf) chain_ops"
  chain_length_next :: "u32 \<Rightarrow> u32"
  stake_distribution :: "'ld \<Rightarrow> (bool \<Rightarrow> 'lg \<Rightarrow> ('e, 'lg \<times> 'rw) result) option"
  block0_initial_hash :: "'lg \<Rightarrow> 'hid"
  multiverse_new :: 'mv
  multiverse_insert :: "'mv \<Rightarrow> u32 \<Rightarrow> 'hid \<Rightarrow> 'lg \<Rightarrow> ('hid, 'lg) ledger_ref \<times> 'mv"
  multiverse_gc :: "'mv \<Rightarrow> u32 \<Rightarrow> 'mv"
  reward_dump_ok :: "u32 \<Rightarrow> 'hid \<Rightarrow> 'rw \<Rightarrow> bool"

type_synonym ('c, 'hid, 'x, 'lg, 'ld, 'tf, 'rw) ref_cache_ops =
  "('c, 'hid, ('hid, 'x, 'lg, 'ld, 'tf, 'rw) noderef) lru_ops"

text \<open>\<open>None\<close> is the failed debug assertion that the ledger belongs to the header.\<close>

definition ref_new ::
  "('hid, 'lg) ledger_ref \<Rightarrow> 'tf \<Rightarrow> 'ld \<Rightarrow> 'rw option \<Rightarrow> ('hid, 'x) header
    \<Rightarrow> ('hid, 'x, 'lg, 'ld, 'tf, 'rw) noderef option \<Rightarrow> ('hid, 'x, 'lg, 'ld, 'tf, 'rw) noderef option" where
  "ref_new ledger time_frame leadership rewards_info header previous_epoch_state =
     (if lr_id ledger = h_hash header
      then Some (Ref ledger time_frame leadership rewards_info header previous_epoch_state)
      else None)"

definition ref_hash :: "('hid, 'x, 'lg, 'ld, 'tf, 'rw) noderef \<Rightarrow> 'hid" where
  "ref_hash r = lr_id (ref_ledger r)"

definition ref_block_parent_hash :: "('hid, 'x, 'lg, 'ld, 'tf, 'rw) noderef \<Rightarrow> 'hid" where
  "ref_block_parent_hash r = h_block_parent_hash (ref_header r)"

definition ref_block_date :: "('hid, 'x, 'lg, 'ld, 'tf, 'rw) noderef \<Rightarrow> block_date" where
  "ref_block_date r = h_block_date (ref_header r)"

definition ref_chain_length :: "('hid, 'x, 'lg, 'ld, 'tf, 'rw) noderef \<Rightarrow> u32" where
  "ref_chain_length r = h_chain_length (ref_header r)"

definition ref_ledger_state :: "('hid, 'x, 'lg, 'ld, 'tf, 'rw) noderef \<Rightarrow> 'lg" where
  "ref_ledger_state r = lr_state (ref_ledger r)"

definition ref_slot ::
  "('hid, 'x, 'f, 'q, 'lg, 'ld, 'e, 'tf, 'rw, 'mv) node_ops \<Rightarrow> ('hid, 'x, 'lg, 'ld, 'tf, 'rw) noderef \<Rightarrow> u64" where
  "ref_slot N r = leadership_era_slot (n_chain N) (ref_leadership r) (h_block_date (ref_header r))"

text \<open>\<open>None\<close> is the undefined behaviour of \<^verbatim>\<open>unreachable_unchecked\<close>.\<close>

definition ref_time ::
  "('hid, 'x, 'f, 'q, 'lg, 'ld, 'e, 'tf, 'rw, 'mv) node_ops \<Rightarrow> ('hid, 'x, 'lg, 'ld, 'tf, 'rw) noderef \<Rightarrow> nat option" where
  "ref_time N r = time_frame_slot_time (n_chain N) (ref_time_frame r) (ref_slot N r)"

text \<open>The time since the block, or the time until it (\<open>Inl\<close>) when it is in the future.\<close>

definition ref_elapsed ::
  "('hid, 'x, 'f, 'q, 'lg, 'ld, 'e, 'tf, 'rw, 'mv) node_ops \<Rightarrow> nat \<Rightarrow> ('hid, 'x, 'lg, 'ld, 'tf, 'rw) noderef
    \<Rightarrow> (nat, nat) result option" where
  "ref_elapsed N now r = map_option (\<lambda>t. if t \<le> now then Inr (now - t) else Inl (t - now)) (ref_time N r)"

section \<open>Chain selection\<close>

datatype comparison_result = PreferCurrentRef | PreferCandidateRef

definition check_rollback_up_to ::
  "u32 \<Rightarrow> ('hid, 'x, 'lg, 'ld, 'tf, 'rw) noderef \<Rightarrow> ('hid, 'x, 'lg, 'ld, 'tf, 'rw) noderef \<Rightarrow> bool" where
  "check_rollback_up_to epoch_stability_depth ref1 ref2 = True"

text \<open>Times are in seconds, so the allowed discrepancy is 1.\<close>

definition compare_against ::
  "('hid, 'x, 'f, 'q, 'lg, 'ld, 'e, 'tf, 'rw, 'mv) node_ops \<Rightarrow> nat \<Rightarrow> ('hid, 'x, 'lg, 'ld, 'tf, 'rw) noderef
    \<Rightarrow> ('hid, 'x, 'lg, 'ld, 'tf, 'rw) noderef \<Rightarrow> comparison_result option" where
  "compare_against N now current candidate = do {
     let epoch_stability_depth = ledger_epoch_stability_depth (n_chain N) (ref_ledger_state current);
     let rollback_possible = check_rollback_up_to epoch_stability_depth current candidate;
     elapsed \<leftarrow> ref_elapsed N now candidate;
     let in_future = (case elapsed of Inl duration \<Rightarrow> 1 < duration | Inr _ \<Rightarrow> False);
     Some (if rollback_possible \<and> \<not> in_future \<and> ref_chain_length current < ref_chain_length candidate
           then PreferCandidateRef else PreferCurrentRef)
   }"

section \<open>Checkpoints\<close>

text \<open>The inner loop: go back \<open>n\<close> more epochs, or as far as there are any.\<close>

fun skip_epochs :: "nat \<Rightarrow> ('hid, 'x, 'lg, 'ld, 'tf, 'rw) noderef \<Rightarrow> ('hid, 'x, 'lg, 'ld, 'tf, 'rw) noderef" where
  "skip_epochs 0 r = r"
| "skip_epochs (Suc n) r = (case ref_previous_epoch_state r of None \<Rightarrow> r | Some p \<Rightarrow> skip_epochs n p)"

lemma skip_epochs_size: "size (skip_epochs n r) \<le> size r"
proof (induction n r rule: skip_epochs.induct)
  case (2 n r)
  then show ?case by (cases r) (auto split: option.splits intro: order_trans le_SucI)
qed simp

function node_checkpoints_loop ::
  "('hid, 'x, 'lg, 'ld, 'tf, 'rw) noderef \<Rightarrow> nat \<Rightarrow> 'hid list \<Rightarrow> 'hid list" where
  "node_checkpoints_loop current_ref ignore_prev checkpoints =
     (case ref_previous_epoch_state current_ref of
        None \<Rightarrow> checkpoints
      | Some prev_epoch \<Rightarrow>
          (let current_ref = skip_epochs ignore_prev prev_epoch;
               hash = ref_hash current_ref
           in if last checkpoints \<noteq> hash
              then node_checkpoints_loop current_ref (ignore_prev + 1) (checkpoints @ [hash])
              else node_checkpoints_loop current_ref ignore_prev checkpoints))"
  by pat_completeness auto

termination
proof (relation "measure (\<lambda>(r, n, cs). size r)", goal_cases)
  case (2 r n cs p r' h)
  then show ?case using skip_epochs_size [of n p] by (cases r) auto
next
  case (3 r n cs p r' h)
  then show ?case using skip_epochs_size [of n p] by (cases r) auto
qed simp

declare node_checkpoints_loop.simps [simp del]

definition node_checkpoints ::
  "('hid, 'x, 'f, 'q, 'lg, 'ld, 'e, 'tf, 'rw, 'mv) node_ops \<Rightarrow> ('hid, 'x, 'lg, 'ld, 'tf, 'rw) noderef \<Rightarrow> 'hid list" where
  "node_checkpoints N from =
     (let block0_hash = block0_initial_hash N (ref_ledger_state from);
          checkpoints = node_checkpoints_loop from 0 [ref_hash from, ref_block_parent_hash from]
      in if block0_hash \<noteq> checkpoints ! 1 then checkpoints @ [block0_hash] else checkpoints)"

section \<open>The blockchain\<close>

datatype 'e header_chain_verify_error =
    NewLeadershipScheduleFailed 'e
  | BlockDateBeforeParent block_date block_date
  | ChainLengthNotIncremental u32 u32

datatype ('hid, 'e, 'io) chain_error =
    Storage "'io storage_error"
  | LedgerError 'e
  | Block0 block0_error
  | Intercom "'io storage_error"
  | SendError
  | TransactionSendError
  | Block0InitialLedgerError 'e
  | Block0AlreadyInStorage
  | Block0NotAlreadyInStorage
  | MissingParentBlock 'hid
  | NoTag string
  | BlockHeaderVerificationFailed "'e header_chain_verify_error"
  | BlockNotRequested 'hid
  | CannotApplyBlock 'e

definition main_branch_tag :: string where
  "main_branch_tag = ''HEAD''"

definition pre_verify_link ::
  "('hid, 'x, 'f, 'q, 'lg, 'ld, 'e, 'tf, 'rw, 'mv) node_ops \<Rightarrow> ('hid, 'x) header \<Rightarrow> ('hid, 'x) header
    \<Rightarrow> ('e header_chain_verify_error, unit) result option" where
  "pre_verify_link N header parent =
     (if h_block_parent_hash header \<noteq> h_hash parent then None
      else if h_block_date header \<le> h_block_date parent
      then Some (Inl (BlockDateBeforeParent (h_block_date header) (h_block_date parent)))
      else if h_chain_length header \<noteq> chain_length_next N (h_chain_length parent)
      then Some (Inl (ChainLengthNotIncremental (h_chain_length header) (h_chain_length parent)))
      else Some (Inr ()))"

record ('c, 'mv, 's, 'hid) node_chain =
  nc_ref_cache :: 'c
  nc_ledgers :: 'mv
  nc_storage :: 's
  nc_block0 :: 'hid
  nc_rewards_report_all :: bool

datatype ('h, 'r) pre_checked_header =
    AlreadyPresent 'h "'r option"
  | MissingParentOf 'h
  | HeaderWithCache 'h 'r

record ('h, 'ld, 'lg, 'tf, 'r, 'rw) post_checked_header =
  pc_header :: 'h
  pc_leadership :: 'ld
  pc_parent_ledger_state :: 'lg
  pc_time_frame :: 'tf
  pc_previous_epoch_state :: "'r option"
  pc_rewards_info :: "'rw option"

record ('lg, 'ld, 'rw, 'tf, 'r) epoch_leadership =
  el_state :: 'lg
  el_leadership :: 'ld
  el_rewards_info :: "'rw option"
  el_time_frame :: 'tf
  el_previous_state :: "'r option"

record ('b, 'lg, 'el) leadership_block =
  lb_block :: 'b
  lb_new_ledger :: 'lg
  lb_leadership :: 'el

datatype 'r applied_block = NewBlock 'r | ExistingBlock 'r

fun cached_ref :: "'r applied_block \<Rightarrow> 'r" where
  "cached_ref (NewBlock r) = r"
| "cached_ref (ExistingBlock r) = r"

fun applied_new_ref :: "'r applied_block \<Rightarrow> 'r option" where
  "applied_new_ref (NewBlock r) = Some r"
| "applied_new_ref (ExistingBlock _) = None"

datatype check_header_proof = SkipFromStorage | Enabled

definition node_chain_new ::
  "('hid, 'x, 'f, 'q, 'lg, 'ld, 'e, 'tf, 'rw, 'mv) node_ops \<Rightarrow> ('c, 'hid, 'x, 'lg, 'ld, 'tf, 'rw) ref_cache_ops
    \<Rightarrow> 'hid \<Rightarrow> 's \<Rightarrow> nat \<Rightarrow> bool \<Rightarrow> ('c, 'mv, 's, 'hid) node_chain" where
  "node_chain_new N L block0 storage cache_capacity rewards_report_all =
     \<lparr>nc_ref_cache = lru_new L cache_capacity, nc_ledgers = multiverse_new N, nc_storage = storage,
      nc_block0 = block0, nc_rewards_report_all = rewards_report_all\<rparr>"

text \<open>An operation of the storage as an operation of the blockchain.\<close>

definition with_storage ::
  "('s, 'io storage_error, 'a) action \<Rightarrow> (('c, 'mv, 's, 'hid) node_chain, ('hid, 'e, 'io) chain_error, 'a) action" where
  "with_storage m = act_map_err Storage (act_focus nc_storage (\<lambda>st. nc_storage_update (\<lambda>_. st)) m)"

definition create_and_store_reference ::
  "('hid, 'x, 'f, 'q, 'lg, 'ld, 'e, 'tf, 'rw, 'mv) node_ops \<Rightarrow> ('c, 'hid, 'x, 'lg, 'ld, 'tf, 'rw) ref_cache_ops
    \<Rightarrow> 'hid \<Rightarrow> ('hid, 'x) header \<Rightarrow> 'lg \<Rightarrow> 'tf \<Rightarrow> 'ld \<Rightarrow> 'rw option \<Rightarrow> ('hid, 'x, 'lg, 'ld, 'tf, 'rw) noderef option
    \<Rightarrow> (('c, 'mv, 's, 'hid) node_chain, ('hid, 'e, 'io) chain_error, ('hid, 'x, 'lg, 'ld, 'tf, 'rw) noderef) action" where
  "create_and_store_reference N L header_hash header ledger time_frame leadership rewards_info previous_epoch_state s =
     (let (ledger_ref, ledgers) = multiverse_insert N (nc_ledgers s) (h_chain_length header) header_hash ledger
      in case ref_new ledger_ref time_frame leadership rewards_info header previous_epoch_state of
           None \<Rightarrow> None
         | Some r \<Rightarrow> Some (Inr r, s\<lparr>nc_ledgers := ledgers, nc_ref_cache := lru_put L (nc_ref_cache s) header_hash r\<rparr>))"

definition get_ref ::
  "('c, 'hid, 'x, 'lg, 'ld, 'tf, 'rw) ref_cache_ops \<Rightarrow> ('s, 'hid, 'x, 'f, 'q, 'io) store_ops \<Rightarrow> 'hid
    \<Rightarrow> (('c, 'mv, 's, 'hid) node_chain, ('hid, 'e, 'io) chain_error, ('hid, 'x, 'lg, 'ld, 'tf, 'rw) noderef option) action" where
  "get_ref L S header_hash s =
     (let (maybe_ref, cache) = lru_get L (nc_ref_cache s) header_hash;
          s = s\<lparr>nc_ref_cache := cache\<rparr>
      in case storage_block_exists S (nc_storage s) header_hash of
           Inl e \<Rightarrow> Some (Inl (Storage e), s)
         | Inr block_exists \<Rightarrow> Some (Inr maybe_ref, s))"

fun collect_branches ::
  "('c, 'hid, 'x, 'lg, 'ld, 'tf, 'rw) ref_cache_ops \<Rightarrow> ('s, 'hid, 'x, 'f, 'q, 'io) store_ops \<Rightarrow> 'hid list
    \<Rightarrow> (('c, 'mv, 's, 'hid) node_chain, ('hid, 'e, 'io) chain_error, ('hid, 'x, 'lg, 'ld, 'tf, 'rw) noderef list) action" where
  "collect_branches L S [] = act_return []"
| "collect_branches L S (h # hs) =
     act_bind (get_ref L S h) (\<lambda>maybe_ref.
     act_bind (collect_branches L S hs) (\<lambda>refs.
     act_return (case maybe_ref of None \<Rightarrow> refs | Some r \<Rightarrow> r # refs)))"

definition node_branches ::
  "('c, 'hid, 'x, 'lg, 'ld, 'tf, 'rw) ref_cache_ops \<Rightarrow> ('s, 'hid, 'x, 'f, 'q, 'io) store_ops
    \<Rightarrow> (('c, 'mv, 's, 'hid) node_chain, ('hid, 'e, 'io) chain_error, ('hid, 'x, 'lg, 'ld, 'tf, 'rw) noderef list) action" where
  "node_branches L S =
     act_bind (with_storage (\<lambda>st. Some (storage_get_branches S st, st))) (collect_branches L S)"

definition node_gc ::
  "('hid, 'x, 'f, 'q, 'lg, 'ld, 'e, 'tf, 'rw, 'mv) node_ops \<Rightarrow> ('s, 'hid, 'x, 'f, 'q, 'io) store_ops
    \<Rightarrow> ('hid, 'x, 'lg, 'ld, 'tf, 'rw) noderef \<Rightarrow> (('c, 'mv, 's, 'hid) node_chain, ('hid, 'e, 'io) chain_error, unit) action" where
  "node_gc N S tip =
     (let depth = ledger_epoch_stability_depth (n_chain N) (ref_ledger_state tip) in
      act_bind (act_modify (\<lambda>s. s\<lparr>nc_ledgers := multiverse_gc N (nc_ledgers s) depth\<rparr>)) (\<lambda>_.
      with_storage (storage_gc S depth (hash_bytes S (ref_hash tip)))))"

definition load_header_parent ::
  "('c, 'hid, 'x, 'lg, 'ld, 'tf, 'rw) ref_cache_ops \<Rightarrow> ('s, 'hid, 'x, 'f, 'q, 'io) store_ops \<Rightarrow> ('hid, 'x) header \<Rightarrow> bool
    \<Rightarrow> (('c, 'mv, 's, 'hid) node_chain, ('hid, 'e, 'io) chain_error,
        (('hid, 'x) header, ('hid, 'x, 'lg, 'ld, 'tf, 'rw) noderef) pre_checked_header) action" where
  "load_header_parent L S header force =
     act_bind (if force then act_return None else get_ref L S (h_hash header)) (\<lambda>maybe_self_ref.
     act_bind (get_ref L S (h_block_parent_hash header)) (\<lambda>maybe_parent_ref.
     act_return (case maybe_self_ref of
         Some self_ref \<Rightarrow> AlreadyPresent header (Some self_ref)
       | None \<Rightarrow>
          (case maybe_parent_ref of
             Some parent_ref \<Rightarrow> HeaderWithCache header parent_ref
           | None \<Rightarrow> MissingParentOf header))))"

definition pre_check_header ::
  "('hid, 'x, 'f, 'q, 'lg, 'ld, 'e, 'tf, 'rw, 'mv) node_ops \<Rightarrow> ('c, 'hid, 'x, 'lg, 'ld, 'tf, 'rw) ref_cache_ops
    \<Rightarrow> ('s, 'hid, 'x, 'f, 'q, 'io) store_ops \<Rightarrow> ('hid, 'x) header \<Rightarrow> bool
    \<Rightarrow> (('c, 'mv, 's, 'hid) node_chain, ('hid, 'e, 'io) chain_error,
        (('hid, 'x) header, ('hid, 'x, 'lg, 'ld, 'tf, 'rw) noderef) pre_checked_header) action" where
  "pre_check_header N L S header force =
     act_bind (load_header_parent L S header force) (\<lambda>pre_check.
       case pre_check of
         HeaderWithCache header parent_ref \<Rightarrow>
           act_bind (act_unwrap (pre_verify_link N header (ref_header parent_ref))) (\<lambda>verified.
           act_result (map_err BlockHeaderVerificationFailed (rbind verified (\<lambda>_. Inr pre_check))))
       | _ \<Rightarrow> act_return pre_check)"

text \<open>\<open>None\<close> stands for a failed protocol update, reward distribution or reward dump, which panic.\<close>

definition new_epoch_leadership_from ::
  "('hid, 'x, 'f, 'q, 'lg, 'ld, 'e, 'tf, 'rw, 'mv) node_ops \<Rightarrow> u32 \<Rightarrow> ('hid, 'x, 'lg, 'ld, 'tf, 'rw) noderef \<Rightarrow> bool
    \<Rightarrow> ('lg, 'ld, 'rw, 'tf, ('hid, 'x, 'lg, 'ld, 'tf, 'rw) noderef) epoch_leadership option" where
  "new_epoch_leadership_from N epoch_nr parent rewards_report_all =
     (if epoch (ref_block_date parent) < epoch_nr then do {
        ledger \<leftarrow> (case ledger_apply_protocol_changes (n_chain N) (ref_ledger_state parent) of
                    Inl _ \<Rightarrow> None | Inr l \<Rightarrow> Some l);
        (transition_state, epoch_rewards_info) \<leftarrow>
          (case stake_distribution N (ref_leadership parent) of
             Some distribute \<Rightarrow>
               (case distribute rewards_report_all ledger of
                  Inl _ \<Rightarrow> None
                | Inr (l, rewards_info) \<Rightarrow>
                    if reward_dump_ok N epoch_nr (ref_hash parent) rewards_info then Some (l, Some rewards_info) else None)
           | None \<Rightarrow> Some (ledger, ref_rewards_info parent));
        let epoch_state =
          (if ledger_is_genesis_praos (n_chain N) transition_state
           then (case ref_previous_epoch_state parent of
                   Some r \<Rightarrow> ref_ledger_state r
                 | None \<Rightarrow> ref_ledger_state parent)
           else transition_state);
        Some \<lparr>el_state = transition_state, el_leadership = leadership_new (n_chain N) epoch_nr epoch_state,
              el_rewards_info = epoch_rewards_info, el_time_frame = ref_time_frame parent,
              el_previous_state = Some parent\<rparr>
      }
      else Some \<lparr>el_state = ref_ledger_state parent, el_leadership = ref_leadership parent,
                 el_rewards_info = ref_rewards_info parent, el_time_frame = ref_time_frame parent,
                 el_previous_state = ref_previous_epoch_state parent\<rparr>)"

definition post_checked ::
  "'h \<Rightarrow> ('lg, 'ld, 'rw, 'tf, 'r) epoch_leadership \<Rightarrow> ('h, 'ld, 'lg, 'tf, 'r, 'rw) post_checked_header" where
  "post_checked header el =
     \<lparr>pc_header = header, pc_leadership = el_leadership el, pc_parent_ledger_state = el_state el,
      pc_time_frame = el_time_frame el, pc_previous_epoch_state = el_previous_state el,
      pc_rewards_info = el_rewards_info el\<rparr>"

type_synonym ('hid, 'x, 'lg, 'ld, 'tf, 'rw) checked =
  "(('hid, 'x) header, 'ld, 'lg, 'tf, ('hid, 'x, 'lg, 'ld, 'tf, 'rw) noderef, 'rw) post_checked_header"

definition post_check_header ::
  "('hid, 'x, 'f, 'q, 'lg, 'ld, 'e, 'tf, 'rw, 'mv) node_ops \<Rightarrow> ('hid, 'x) header
    \<Rightarrow> ('hid, 'x, 'lg, 'ld, 'tf, 'rw) noderef \<Rightarrow> check_header_proof
    \<Rightarrow> (('c, 'mv, 's, 'hid) node_chain, ('hid, 'e, 'io) chain_error, ('hid, 'x, 'lg, 'ld, 'tf, 'rw) checked) action" where
  "post_check_header N header parent check_header_proof =
     act_bind act_get (\<lambda>s.
     act_bind (act_unwrap (new_epoch_leadership_from N (epoch (h_block_date header)) parent (nc_rewards_report_all s))) (\<lambda>el.
     case (if check_header_proof = Enabled then leadership_verify (n_chain N) (el_leadership el) header else None) of
       Some error \<Rightarrow> act_throw (BlockHeaderVerificationFailed (NewLeadershipScheduleFailed error))
     | None \<Rightarrow> act_return (post_checked header el)))"

definition apply_block_dry_run ::
  "('hid, 'x, 'f, 'q, 'lg, 'ld, 'e, 'tf, 'rw, 'mv) node_ops \<Rightarrow> ('hid, 'x, 'lg, 'ld, 'tf, 'rw) checked
    \<Rightarrow> ('hid, 'x, 'f, 'q) block \<Rightarrow> (('hid, 'e, 'io) chain_error, 'lg) result option" where
  "apply_block_dry_run N pc block =
     (if h_hash (b_header block) = h_hash (pc_header pc)
      then Some (map_err CannotApplyBlock
             (ledger_apply_block (n_chain N) (pc_parent_ledger_state pc) (b_contents block) (pc_header pc)))
      else None)"

definition apply_block_check_rewards ::
  "('hid, 'x, 'f, 'q, 'lg, 'ld, 'e, 'tf, 'rw, 'mv) node_ops \<Rightarrow> bool \<Rightarrow> ('hid, 'x, 'lg, 'ld, 'tf, 'rw) checked \<Rightarrow> 'lg
    \<Rightarrow> (('hid, 'e, 'io) chain_error, unit) result" where
  "apply_block_check_rewards N rewards_report_all pc ledger =
     (case stake_distribution N (pc_leadership pc) of
        Some distribute \<Rightarrow> rbind (map_err CannotApplyBlock (distribute rewards_report_all ledger)) (\<lambda>_. Inr ())
      | None \<Rightarrow> Inr ())"

definition apply_block_finalize ::
  "('hid, 'x, 'f, 'q, 'lg, 'ld, 'e, 'tf, 'rw, 'mv) node_ops \<Rightarrow> ('c, 'hid, 'x, 'lg, 'ld, 'tf, 'rw) ref_cache_ops
    \<Rightarrow> ('hid, 'x, 'lg, 'ld, 'tf, 'rw) checked \<Rightarrow> 'lg
    \<Rightarrow> (('c, 'mv, 's, 'hid) node_chain, ('hid, 'e, 'io) chain_error, ('hid, 'x, 'lg, 'ld, 'tf, 'rw) noderef) action" where
  "apply_block_finalize N L pc new_ledger =
     create_and_store_reference N L (h_hash (pc_header pc)) (pc_header pc) new_ledger (pc_time_frame pc)
       (pc_leadership pc) (pc_rewards_info pc) (pc_previous_epoch_state pc)"

definition store_and_apply_block_finalize ::
  "('hid, 'x, 'f, 'q, 'lg, 'ld, 'e, 'tf, 'rw, 'mv) node_ops \<Rightarrow> ('c, 'hid, 'x, 'lg, 'ld, 'tf, 'rw) ref_cache_ops
    \<Rightarrow> ('s, 'hid, 'x, 'f, 'q, 'io) store_ops \<Rightarrow> ('hid, 'x, 'lg, 'ld, 'tf, 'rw) checked \<Rightarrow> ('hid, 'x, 'f, 'q) block \<Rightarrow> 'lg
    \<Rightarrow> (('c, 'mv, 's, 'hid) node_chain, ('hid, 'e, 'io) chain_error,
        ('hid, 'x, 'lg, 'ld, 'tf, 'rw) noderef applied_block) action" where
  "store_and_apply_block_finalize N L S pc block new_ledger s =
     (case storage_put_block S block (nc_storage s) of
        None \<Rightarrow> None
      | Some (res, st) \<Rightarrow>
          (let s = s\<lparr>nc_storage := st\<rparr> in
           case res of
             Inr _ \<Rightarrow> act_bind (apply_block_finalize N L pc new_ledger) (\<lambda>r. act_return (NewBlock r)) s
           | Inl BlockAlreadyPresent \<Rightarrow>
               act_bind (apply_block_finalize N L pc new_ledger) (\<lambda>r. act_return (ExistingBlock r)) s
           | Inl e \<Rightarrow> Some (Inl (Storage e), s)))"

definition apply_and_store_block ::
  "('hid, 'x, 'f, 'q, 'lg, 'ld, 'e, 'tf, 'rw, 'mv) node_ops \<Rightarrow> ('c, 'hid, 'x, 'lg, 'ld, 'tf, 'rw) ref_cache_ops
    \<Rightarrow> ('s, 'hid, 'x, 'f, 'q, 'io) store_ops \<Rightarrow> ('hid, 'x, 'lg, 'ld, 'tf, 'rw) checked \<Rightarrow> ('hid, 'x, 'f, 'q) block
    \<Rightarrow> (('c, 'mv, 's, 'hid) node_chain, ('hid, 'e, 'io) chain_error,
        ('hid, 'x, 'lg, 'ld, 'tf, 'rw) noderef applied_block) action" where
  "apply_and_store_block N L S pc block =
     act_bind act_get (\<lambda>s.
     act_bind (act_unwrap (apply_block_dry_run N pc block)) (\<lambda>applied.
     act_bind (act_result applied) (\<lambda>new_ledger.
     act_bind (act_result (apply_block_check_rewards N (nc_rewards_report_all s) pc new_ledger)) (\<lambda>_.
     store_and_apply_block_finalize N L S pc block new_ledger))))"

type_synonym ('hid, 'x, 'f, 'q, 'lg, 'ld, 'tf, 'rw) own_block =
  "(('hid, 'x, 'f, 'q) block, 'lg, ('lg, 'ld, 'rw, 'tf, ('hid, 'x, 'lg, 'ld, 'tf, 'rw) noderef) epoch_leadership) leadership_block"

definition apply_and_store_leadership_block ::
  "('hid, 'x, 'f, 'q, 'lg, 'ld, 'e, 'tf, 'rw, 'mv) node_ops \<Rightarrow> ('c, 'hid, 'x, 'lg, 'ld, 'tf, 'rw) ref_cache_ops
    \<Rightarrow> ('s, 'hid, 'x, 'f, 'q, 'io) store_ops \<Rightarrow> ('hid, 'x, 'f, 'q, 'lg, 'ld, 'tf, 'rw) own_block
    \<Rightarrow> (('c, 'mv, 's, 'hid) node_chain, ('hid, 'e, 'io) chain_error,
        ('hid, 'x, 'lg, 'ld, 'tf, 'rw) noderef applied_block) action" where
  "apply_and_store_leadership_block N L S lb =
     (let pc = post_checked (b_header (lb_block lb)) (lb_leadership lb) in
      act_bind act_get (\<lambda>s.
      act_bind (act_result (apply_block_check_rewards N (nc_rewards_report_all s) pc (lb_new_ledger lb))) (\<lambda>_.
      store_and_apply_block_finalize N L S pc (lb_block lb) (lb_new_ledger lb))))"

definition apply_block0 ::
  "('hid, 'x, 'f, 'q, 'lg, 'ld, 'e, 'tf, 'rw, 'mv) node_ops \<Rightarrow> ('c, 'hid, 'x, 'lg, 'ld, 'tf, 'rw) ref_cache_ops
    \<Rightarrow> ('hid, 'x, 'f, 'q) block
    \<Rightarrow> (('c, 'mv, 's, 'hid) node_chain, ('hid, 'e, 'io) chain_error, ('hid, 'x, 'lg, 'ld, 'tf, 'rw) noderef) action" where
  "apply_block0 N L block0 =
     act_bind (act_unwrap (start_time block0)) (\<lambda>started.
     act_bind (act_result (map_err Block0 started)) (\<lambda>start.
     act_bind (act_result (map_err Block0 (slot_duration block0))) (\<lambda>duration.
     let time_frame = time_frame_new (n_chain N) start (ucast duration) in
     act_bind (act_result (map_err Block0InitialLedgerError
        (ledger_new (n_chain N) (h_hash (b_header block0)) (b_contents block0)))) (\<lambda>block0_ledger.
     let block0_leadership = leadership_new (n_chain N) (epoch (h_block_date (b_header block0))) block0_ledger in
     create_and_store_reference N L (h_hash (b_header block0)) (b_header block0) block0_ledger time_frame
       block0_leadership None None))))"

definition load_from_block0 ::
  "('hid, 'x, 'f, 'q, 'lg, 'ld, 'e, 'tf, 'rw, 'mv) node_ops \<Rightarrow> ('c, 'hid, 'x, 'lg, 'ld, 'tf, 'rw) ref_cache_ops
    \<Rightarrow> ('s, 'hid, 'x, 'f, 'q, 'io) store_ops \<Rightarrow> ('hid, 'x, 'f, 'q) block
    \<Rightarrow> (('c, 'mv, 's, 'hid) node_chain, ('hid, 'e, 'io) chain_error, ('hid, 'x, 'lg, 'ld, 'tf, 'rw) noderef) action" where
  "load_from_block0 N L S block0 =
     act_bind (with_storage (\<lambda>st. Some (storage_block_exists S st (h_hash (b_header block0)), st))) (\<lambda>already_exist.
     if already_exist then act_throw Block0AlreadyInStorage
     else
       act_bind (apply_block0 N L block0) (\<lambda>block0_branch.
       act_bind (with_storage (storage_put_block S block0)) (\<lambda>_.
       act_bind (with_storage (storage_put_tag S main_branch_tag (h_hash (b_header block0)))) (\<lambda>_.
       act_return block0_branch))))"

definition handle_bootstrap_block ::
  "('hid, 'x, 'f, 'q, 'lg, 'ld, 'e, 'tf, 'rw, 'mv) node_ops \<Rightarrow> ('c, 'hid, 'x, 'lg, 'ld, 'tf, 'rw) ref_cache_ops
    \<Rightarrow> ('s, 'hid, 'x, 'f, 'q, 'io) store_ops \<Rightarrow> ('hid, 'x, 'f, 'q) block \<Rightarrow> check_header_proof
    \<Rightarrow> (('c, 'mv, 's, 'hid) node_chain, ('hid, 'e, 'io) chain_error, ('hid, 'x, 'lg, 'ld, 'tf, 'rw) noderef) action" where
  "handle_bootstrap_block N L S block check_proof =
     act_bind (pre_check_header N L S (b_header block) True) (\<lambda>pre_checked.
       case pre_checked of
         HeaderWithCache header parent_ref \<Rightarrow>
           act_bind (post_check_header N header parent_ref check_proof) (\<lambda>pc.
           act_bind (apply_and_store_block N L S pc block) (\<lambda>applied.
           act_return (cached_ref applied)))
       | AlreadyPresent header cached_reference \<Rightarrow> act_unwrap cached_reference
       | MissingParentOf header \<Rightarrow> act_throw (MissingParentBlock (h_block_parent_hash header)))"

section \<open>Loading a chain from the storage\<close>

text \<open>
  The progress reporter counts blocks and bytes; \<open>report\<close> is the closure it calls every 2500 blocks, with the
  clock reading at that moment, and \<open>None\<close> where it panics. The clock readings still unused are passed on.
\<close>

record ('hid, 'x) stream_info =
  si_start :: nat
  si_last_reported :: nat
  si_last_bytes_received :: u64
  si_bytes_received :: u64
  si_block_received :: u64
  si_last_block_description :: "('hid, 'x) header option"

definition process_logging_distance :: u64 where
  "process_logging_distance = 2500"

definition stream_reporter_new :: "nat \<Rightarrow> ('hid, 'x) stream_info" where
  "stream_reporter_new now =
     \<lparr>si_start = now, si_last_reported = now, si_last_bytes_received = 0, si_bytes_received = 0, si_block_received = 0,
      si_last_block_description = None\<rparr>"

definition append_block ::
  "('s, 'hid, 'x, 'f, 'q, 'io) store_ops \<Rightarrow> (nat \<Rightarrow> ('hid, 'x) stream_info \<Rightarrow> bool) \<Rightarrow> (nat \<Rightarrow> nat)
    \<Rightarrow> ('hid, 'x) stream_info \<Rightarrow> ('hid, 'x, 'f, 'q) block \<Rightarrow> (('hid, 'x) stream_info \<times> (nat \<Rightarrow> nat)) option" where
  "append_block S report clk info block =
     (case block_serialize S block of
        Inl _ \<Rightarrow> None
      | Inr raw \<Rightarrow>
          (let info = info\<lparr>si_bytes_received := si_bytes_received info + of_nat (length raw),
                           si_block_received := si_block_received info + 1,
                           si_last_block_description := Some (b_header block)\<rparr>
           in if si_block_received info mod process_logging_distance = 0
              then if report (clk 0) info
                   then Some (info\<lparr>si_last_reported := clk 1, si_last_bytes_received := si_bytes_received info\<rparr>,
                              \<lambda>i. clk (i + 2))
                   else None
              else Some (info, clk)))"

text \<open>The closure of \<^verbatim>\<open>load_from_storage\<close> panics when the clock went backwards.\<close>

definition load_report :: "nat \<Rightarrow> ('hid, 'x) stream_info \<Rightarrow> bool" where
  "load_report now info \<longleftrightarrow> si_last_reported info \<le> now"

fun load_loop ::
  "('hid, 'x, 'f, 'q, 'lg, 'ld, 'e, 'tf, 'rw, 'mv) node_ops \<Rightarrow> ('c, 'hid, 'x, 'lg, 'ld, 'tf, 'rw) ref_cache_ops
    \<Rightarrow> ('s, 'hid, 'x, 'f, 'q, 'io) store_ops \<Rightarrow> (nat \<Rightarrow> nat) \<Rightarrow> ('hid, 'x) stream_info
    \<Rightarrow> ('hid, 'x, 'lg, 'ld, 'tf, 'rw) noderef \<Rightarrow> ('io storage_error, ('hid, 'x, 'f, 'q) block) result list
    \<Rightarrow> (('c, 'mv, 's, 'hid) node_chain, ('hid, 'e, 'io) chain_error, ('hid, 'x, 'lg, 'ld, 'tf, 'rw) noderef) action" where
  "load_loop N L S clk info last_ref [] = act_return last_ref"
| "load_loop N L S clk info last_ref (Inl e # stream) = act_throw (Intercom e)"
| "load_loop N L S clk info last_ref (Inr block # stream) =
     act_bind (act_unwrap (append_block S load_report clk info block)) (\<lambda>(info', clk').
     act_bind (handle_bootstrap_block N L S block SkipFromStorage) (\<lambda>last_ref'.
     load_loop N L S clk' info' last_ref' stream))"

definition load_from_storage ::
  "('hid, 'x, 'f, 'q, 'lg, 'ld, 'e, 'tf, 'rw, 'mv) node_ops \<Rightarrow> ('c, 'hid, 'x, 'lg, 'ld, 'tf, 'rw) ref_cache_ops
    \<Rightarrow> ('s, 'hid, 'x, 'f, 'q, 'io) store_ops \<Rightarrow> (nat \<Rightarrow> nat) \<Rightarrow> ('hid, 'x, 'f, 'q) block
    \<Rightarrow> (('c, 'mv, 's, 'hid) node_chain, ('hid, 'e, 'io) chain_error, ('hid, 'x, 'lg, 'ld, 'tf, 'rw) noderef) action" where
  "load_from_storage N L S clk block0 =
     (let block0_id = h_hash (b_header block0) in
      act_bind (with_storage (\<lambda>st. Some (storage_block_exists S st block0_id, st))) (\<lambda>already_exist.
      if \<not> already_exist then act_throw Block0NotAlreadyInStorage
      else
        act_bind (with_storage (\<lambda>st. Some (storage_get_tag S st main_branch_tag, st))) (\<lambda>opt.
        case opt of
          None \<Rightarrow> act_throw (NoTag main_branch_tag)
        | Some head_hash \<Rightarrow>
            act_bind (apply_block0 N L block0) (\<lambda>last_ref.
            act_bind (with_storage (\<lambda>st. Some (stream_from_to S st block0_id head_hash, st))) (\<lambda>block_stream.
            load_loop N L S (\<lambda>i. clk (Suc i)) (stream_reporter_new (clk 0)) last_ref block_stream)))))"

section \<open>Histories and the invariant\<close>

text \<open>How the reference of a block relates to the reference of its parent.\<close>

definition extends ::
  "('hid, 'x, 'f, 'q, 'lg, 'ld, 'e, 'tf, 'rw, 'mv) node_ops \<Rightarrow> ('hid, 'x, 'lg, 'ld, 'tf, 'rw) noderef
    \<Rightarrow> ('hid, 'x, 'lg, 'ld, 'tf, 'rw) noderef \<Rightarrow> bool" where
  "extends N r p \<longleftrightarrow>
     ref_hash r = h_hash (ref_header r) \<and> ref_block_parent_hash r = ref_hash p \<and>
     ref_block_date p < ref_block_date r \<and> ref_chain_length r = chain_length_next N (ref_chain_length p) \<and>
     ref_time_frame r = ref_time_frame p \<and>
     ref_previous_epoch_state r =
       (if epoch (ref_block_date p) < epoch (ref_block_date r) then Some p else ref_previous_epoch_state p)"

text \<open>The references of a chain, from the most recent one to block 0.\<close>

inductive node_history ::
  "('hid, 'x, 'f, 'q, 'lg, 'ld, 'e, 'tf, 'rw, 'mv) node_ops \<Rightarrow> ('hid, 'x, 'lg, 'ld, 'tf, 'rw) noderef list \<Rightarrow> bool"
  for N where
  history_block0: "ref_hash r = h_hash (ref_header r) \<Longrightarrow> ref_previous_epoch_state r = None \<Longrightarrow> node_history N [r]"
| history_extend: "node_history N (p # rs) \<Longrightarrow> extends N r p \<Longrightarrow> node_history N (r # p # rs)"

inductive_cases node_history_ConsE: "node_history N (r # rs)"

definition valid_ref ::
  "('hid, 'x, 'f, 'q, 'lg, 'ld, 'e, 'tf, 'rw, 'mv) node_ops \<Rightarrow> ('hid, 'x, 'lg, 'ld, 'tf, 'rw) noderef \<Rightarrow> bool" where
  "valid_ref N r \<longleftrightarrow> (\<exists>rs. node_history N (r # rs))"

lemma valid_ref_hash: "valid_ref N r \<Longrightarrow> ref_hash r = h_hash (ref_header r)"
  by (auto simp: valid_ref_def extends_def elim: node_history_ConsE)

lemma valid_ref_extend: "valid_ref N p \<Longrightarrow> extends N r p \<Longrightarrow> valid_ref N r"
  by (auto simp: valid_ref_def intro: history_extend)

definition cache_valid ::
  "('hid, 'x, 'f, 'q, 'lg, 'ld, 'e, 'tf, 'rw, 'mv) node_ops \<Rightarrow> ('hid \<times> ('hid, 'x, 'lg, 'ld, 'tf, 'rw) noderef) list \<Rightarrow> bool" where
  "cache_valid N xs \<longleftrightarrow> (\<forall>(h, r)\<in>set xs. ref_hash r = h \<and> valid_ref N r)"

definition node_inv ::
  "('hid, 'x, 'f, 'q, 'lg, 'ld, 'e, 'tf, 'rw, 'mv) node_ops \<Rightarrow> ('c, 'hid, 'x, 'lg, 'ld, 'tf, 'rw) ref_cache_ops
    \<Rightarrow> ('c, 'mv, 's, 'hid) node_chain \<Rightarrow> bool" where
  "node_inv N L s \<longleftrightarrow> 0 < lru_cap L (nc_ref_cache s) \<and> cache_valid N (lru_iter L (nc_ref_cache s))"

text \<open>The reference that a block gets on top of a given epoch state.\<close>

definition applied_ref ::
  "('hid, 'x) header \<Rightarrow> ('lg, 'ld, 'rw, 'tf, ('hid, 'x, 'lg, 'ld, 'tf, 'rw) noderef) epoch_leadership \<Rightarrow> 'lg
    \<Rightarrow> ('hid, 'x, 'lg, 'ld, 'tf, 'rw) noderef" where
  "applied_ref header el lg =
     Ref \<lparr>lr_id = h_hash header, lr_state = lg\<rparr> (el_time_frame el) (el_leadership el) (el_rewards_info el) header
       (el_previous_state el)"

definition rewards_distributable ::
  "('hid, 'x, 'f, 'q, 'lg, 'ld, 'e, 'tf, 'rw, 'mv) node_ops \<Rightarrow> bool \<Rightarrow> 'ld \<Rightarrow> 'lg \<Rightarrow> bool" where
  "rewards_distributable N all ld lg \<longleftrightarrow>
     (case stake_distribution N ld of None \<Rightarrow> True
      | Some distribute \<Rightarrow> (case distribute all lg of Inl _ \<Rightarrow> False | Inr _ \<Rightarrow> True))"

lemmas ref_defs = ref_hash_def ref_block_parent_hash_def ref_block_date_def ref_chain_length_def ref_ledger_state_def

lemma pre_verify_link_ok:
  "pre_verify_link N header parent = Some (Inr ()) \<longleftrightarrow>
     h_block_parent_hash header = h_hash parent \<and> h_block_date parent < h_block_date header \<and>
     h_chain_length header = chain_length_next N (h_chain_length parent)"
  by (auto simp: pre_verify_link_def)

lemma new_epoch_previous:
  "new_epoch_leadership_from N ep p all = Some el \<Longrightarrow>
     el_time_frame el = ref_time_frame p \<and>
     el_previous_state el = (if epoch (ref_block_date p) < ep then Some p else ref_previous_epoch_state p)"
  by (auto simp: new_epoch_leadership_from_def bind_eq_Some_conv Let_def split: if_splits)

lemma applied_ref_extends:
  assumes "pre_verify_link N header (ref_header p) = Some (Inr ())" and "ref_hash p = h_hash (ref_header p)"
    and "new_epoch_leadership_from N (epoch (h_block_date header)) p all = Some el"
  shows "extends N (applied_ref header el lg) p"
  using assms new_epoch_previous [OF assms(3)]
  by (simp add: extends_def applied_ref_def ref_defs pre_verify_link_ok)

lemma keeps_pre_checked [keeps_rules]:
  "(\<And>h r. keeps I (f h r)) \<Longrightarrow> (\<And>h. keeps I (g h)) \<Longrightarrow> (\<And>h r. keeps I (k h r)) \<Longrightarrow>
     keeps I (case v of AlreadyPresent h r \<Rightarrow> f h r | MissingParentOf h \<Rightarrow> g h | HeaderWithCache h r \<Rightarrow> k h r)"
  by (cases v) auto

locale node_refs = lru_cache L
  for L :: "('c, 'hid, ('hid, 'x, 'lg, 'ld, 'tf, 'rw) noderef) lru_ops" +
  fixes N :: "('hid, 'x, 'f, 'q, 'lg, 'ld, 'e, 'tf, 'rw, 'mv) node_ops"
  assumes multiverse_ref: "fst (multiverse_insert N mv n h lg) = \<lparr>lr_id = h, lr_state = lg\<rparr>"
begin

lemma create_reference:
  "create_and_store_reference N L (h_hash header) header lg tf ld rw prev s =
     (let r = Ref \<lparr>lr_id = h_hash header, lr_state = lg\<rparr> tf ld rw header prev in
      Some (Inr r, s\<lparr>nc_ledgers := snd (multiverse_insert N (nc_ledgers s) (h_chain_length header) (h_hash header) lg),
                     nc_ref_cache := lru_put L (nc_ref_cache s) (h_hash header) r\<rparr>))"
  using multiverse_ref [of "nc_ledgers s" "h_chain_length header" "h_hash header" lg]
  by (simp add: create_and_store_reference_def ref_new_def case_prod_beta Let_def)

lemma finalize_reference:
  "apply_block_finalize N L (post_checked header el) lg s =
     Some (Inr (applied_ref header el lg),
       s\<lparr>nc_ledgers := snd (multiverse_insert N (nc_ledgers s) (h_chain_length header) (h_hash header) lg),
         nc_ref_cache := lru_put L (nc_ref_cache s) (h_hash header) (applied_ref header el lg)\<rparr>)"
  by (simp add: apply_block_finalize_def post_checked_def create_reference applied_ref_def Let_def)

lemma cache_valid_put:
  assumes "0 < lru_cap L c" "cache_valid N (lru_iter L c)" "valid_ref N r"
  shows "cache_valid N (lru_iter L (lru_put L c (ref_hash r) r))"
  using assms put_keys_subset [OF assms(1), of _ "ref_hash r" r] by (fastforce simp: cache_valid_def)

lemma cache_valid_get: "cache_valid N (lru_iter L c) \<Longrightarrow> cache_valid N (lru_iter L (snd (lru_get L c h)))"
  by (cases "map_of (lru_iter L c) h")
    (auto simp: iter_get cache_valid_def set_adelete dest: map_of_SomeD)

text \<open>Reading the cache is a use of it, and nothing else changes.\<close>

lemma get_ref_known:
  assumes "storage_block_exists S (nc_storage s) h = Inr ex"
  shows "get_ref L S h s = Some (Inr (map_of (lru_iter L (nc_ref_cache s)) h),
     s\<lparr>nc_ref_cache := snd (lru_get L (nc_ref_cache s) h)\<rparr>)"
  using assms get_result [of "nc_ref_cache s" h] by (simp add: get_ref_def case_prod_beta Let_def)

lemma get_ref_keeps [keeps_rules]: "keeps (node_inv N L) (get_ref L S h)"
  by (auto simp: keeps_def get_ref_def node_inv_def case_prod_beta Let_def cap_get intro: cache_valid_get split: sum.splits)

lemma cached_valid:
  "node_inv N L s \<Longrightarrow> map_of (lru_iter L (nc_ref_cache s)) h = Some r \<Longrightarrow> ref_hash r = h \<and> valid_ref N r"
  by (auto simp: node_inv_def cache_valid_def dest: map_of_SomeD)

lemma put_ref_inv:
  assumes "node_inv N L s" and "valid_ref N r"
  shows "node_inv N L (s\<lparr>nc_ledgers := mv, nc_ref_cache := lru_put L (nc_ref_cache s) (ref_hash r) r\<rparr>)"
  using assms by (simp add: node_inv_def cap_put cache_valid_put)

text \<open>The result of the checks on a header whose own reference is not looked up.\<close>

lemma pre_check_forced:
  assumes "storage_block_exists S (nc_storage s) (h_block_parent_hash header) = Inr ex"
  shows "pre_check_header N L S header True s =
    (let s1 = s\<lparr>nc_ref_cache := snd (lru_get L (nc_ref_cache s) (h_block_parent_hash header))\<rparr> in
     case map_of (lru_iter L (nc_ref_cache s)) (h_block_parent_hash header) of
       None \<Rightarrow> Some (Inr (MissingParentOf header), s1)
     | Some p \<Rightarrow>
        (case pre_verify_link N header (ref_header p) of
           None \<Rightarrow> None
         | Some (Inl e) \<Rightarrow> Some (Inl (BlockHeaderVerificationFailed e), s1)
         | Some (Inr _) \<Rightarrow> Some (Inr (HeaderWithCache header p), s1)))"
proof -
  have load: "load_header_parent L S header True s =
      Some (Inr (case map_of (lru_iter L (nc_ref_cache s)) (h_block_parent_hash header) of
                   Some p \<Rightarrow> HeaderWithCache header p | None \<Rightarrow> MissingParentOf header),
        s\<lparr>nc_ref_cache := snd (lru_get L (nc_ref_cache s) (h_block_parent_hash header))\<rparr>)"
    by (simp add: load_header_parent_def act_bind_def get_ref_known [OF assms] split: option.split)
  show ?thesis
    by (auto simp: pre_check_header_def act_bind_def load Let_def split: option.splits sum.splits)
qed

lemma pre_check_forced_bind:
  assumes "storage_block_exists S (nc_storage s) (h_block_parent_hash header) = Inr ex"
  shows "act_bind (pre_check_header N L S header True) k s =
    (case map_of (lru_iter L (nc_ref_cache s)) (h_block_parent_hash header) of
       None \<Rightarrow> k (MissingParentOf header) (s\<lparr>nc_ref_cache := snd (lru_get L (nc_ref_cache s) (h_block_parent_hash header))\<rparr>)
     | Some p \<Rightarrow>
        (case pre_verify_link N header (ref_header p) of
           None \<Rightarrow> None
         | Some (Inl e) \<Rightarrow> Some (Inl (BlockHeaderVerificationFailed e),
             s\<lparr>nc_ref_cache := snd (lru_get L (nc_ref_cache s) (h_block_parent_hash header))\<rparr>)
         | Some (Inr _) \<Rightarrow> k (HeaderWithCache header p)
             (s\<lparr>nc_ref_cache := snd (lru_get L (nc_ref_cache s) (h_block_parent_hash header))\<rparr>)))"
  by (auto simp: act_bind_def pre_check_forced [OF assms] Let_def split: option.splits sum.splits)

lemma check_rewards_ok:
  "apply_block_check_rewards N all (post_checked header el) lg = Inr () \<longleftrightarrow> rewards_distributable N all (el_leadership el) lg"
  by (auto simp: apply_block_check_rewards_def post_checked_def rewards_distributable_def split: option.splits sum.splits)

lemma store_finalize_Inr:
  "store_and_apply_block_finalize N L S (post_checked header el) block lg s = Some (Inr a, s') \<longleftrightarrow>
    (\<exists>st. (storage_put_block S block (nc_storage s) = Some (Inr (), st) \<and> a = NewBlock (applied_ref header el lg) \<or>
           storage_put_block S block (nc_storage s) = Some (Inl BlockAlreadyPresent, st) \<and>
             a = ExistingBlock (applied_ref header el lg)) \<and>
       s' = s\<lparr>nc_storage := st,
         nc_ledgers := snd (multiverse_insert N (nc_ledgers s) (h_chain_length header) (h_hash header) lg),
         nc_ref_cache := lru_put L (nc_ref_cache s) (h_hash header) (applied_ref header el lg)\<rparr>)"
proof (cases "storage_put_block S block (nc_storage s)")
  case (Some p)
  obtain res st where p: "p = (res, st)" by (rule prod.exhaust)
  show ?thesis
  proof (cases res)
    case (Inl e)
    then show ?thesis
      using Some p by (cases e) (auto simp: store_and_apply_block_finalize_def act_bind_def finalize_reference)
  next
    case (Inr u)
    then show ?thesis
      using Some p by (auto simp: store_and_apply_block_finalize_def act_bind_def finalize_reference)
  qed
qed (simp add: store_and_apply_block_finalize_def)

lemma apply_store_Inr:
  assumes "h_hash (b_header block) = h_hash header"
  shows "apply_and_store_block N L S (post_checked header el) block s = Some (Inr a, s') \<longleftrightarrow>
    (\<exists>lg. ledger_apply_block (n_chain N) (el_state el) (b_contents block) header = Inr lg \<and>
       rewards_distributable N (nc_rewards_report_all s) (el_leadership el) lg \<and>
       store_and_apply_block_finalize N L S (post_checked header el) block lg s = Some (Inr a, s'))"
proof -
  have dry: "apply_block_dry_run N (post_checked header el) block =
      Some (map_err CannotApplyBlock (ledger_apply_block (n_chain N) (el_state el) (b_contents block) header))"
    using assms by (simp add: apply_block_dry_run_def post_checked_def)
  show ?thesis
    unfolding apply_and_store_block_def act_bind_get dry act_bind_value act_result_bind_Inr
    by (auto simp: map_err_eq_Inr_conv check_rewards_ok)
qed

lemma post_check_Inr:
  "post_check_header N header p check_proof s = Some (Inr pc, s') \<longleftrightarrow>
    (\<exists>el. new_epoch_leadership_from N (epoch (h_block_date header)) p (nc_rewards_report_all s) = Some el \<and>
       (check_proof = Enabled \<longrightarrow> leadership_verify (n_chain N) (el_leadership el) header = None) \<and>
       pc = post_checked header el \<and> s' = s)"
  by (cases "new_epoch_leadership_from N (epoch (h_block_date header)) p (nc_rewards_report_all s)")
    (auto simp: post_check_header_def split: option.splits)

section \<open>Preservation of the invariant\<close>

lemma get_ref_result:
  assumes "node_inv N L s" and "get_ref L S h s = Some (Inr (Some r), s')"
  shows "ref_hash r = h \<and> valid_ref N r"
proof -
  have "map_of (lru_iter L (nc_ref_cache s)) h = Some r"
    using assms(2) get_result [of "nc_ref_cache s" h] by (auto simp: get_ref_def case_prod_beta Let_def split: sum.splits)
  then show ?thesis by (rule cached_valid [OF assms(1)])
qed

lemma pre_check_keeps [keeps_rules]: "keeps (node_inv N L) (pre_check_header N L S header force)"
  unfolding pre_check_header_def load_header_parent_def by (intro keeps_rules)

lemma get_ref_eq:
  "get_ref L S h s =
    (case storage_block_exists S (nc_storage s) h of
       Inl e \<Rightarrow> Some (Inl (Storage e), s\<lparr>nc_ref_cache := snd (lru_get L (nc_ref_cache s) h)\<rparr>)
     | Inr _ \<Rightarrow> Some (Inr (map_of (lru_iter L (nc_ref_cache s)) h), s\<lparr>nc_ref_cache := snd (lru_get L (nc_ref_cache s) h)\<rparr>))"
  using get_result [of "nc_ref_cache s" h] by (simp add: get_ref_def case_prod_beta Let_def split: sum.split)

lemma map_of_get: "map_of (lru_iter L (snd (lru_get L c h))) = map_of (lru_iter L c)"
  by (cases "map_of (lru_iter L c) h") (auto simp: iter_get)

lemma pre_check_with_cache:
  assumes "node_inv N L s" and "pre_check_header N L S header force s = Some (Inr (HeaderWithCache header' p), s')"
  shows "header' = header \<and> pre_verify_link N header (ref_header p) = Some (Inr ()) \<and>
     ref_hash p = h_block_parent_hash header \<and> valid_ref N p"
proof -
  have "header' = header \<and> pre_verify_link N header (ref_header p) = Some (Inr ()) \<and>
      map_of (lru_iter L (nc_ref_cache s)) (h_block_parent_hash header) = Some p"
    using assms(2)
    by (cases force; cases "storage_block_exists S (nc_storage s) (h_hash header)";
        cases "storage_block_exists S (nc_storage s) (h_block_parent_hash header)";
        cases "map_of (lru_iter L (nc_ref_cache s)) (h_hash header)";
        cases "map_of (lru_iter L (nc_ref_cache s)) (h_block_parent_hash header)")
      (auto simp: pre_check_header_def load_header_parent_def act_bind_def act_unwrap_def get_ref_eq map_of_get
        map_err_eq_Inr_conv rbind_eq_Inr_conv split: option.splits)
  with cached_valid [OF assms(1)] show ?thesis by blast
qed

lemma inv_other_fields:
  "node_inv N L (s\<lparr>nc_storage := st\<rparr>) \<longleftrightarrow> node_inv N L s" "node_inv N L (s\<lparr>nc_ledgers := mv\<rparr>) \<longleftrightarrow> node_inv N L s"
  by (simp_all add: node_inv_def)

lemma with_storage_keeps [keeps_rules]: "keeps (node_inv N L) (with_storage m)"
  by (auto simp: keeps_def with_storage_def act_map_err_def act_focus_def inv_other_fields)

lemma finalize_keeps:
  assumes "valid_ref N (applied_ref header el lg)"
  shows "keeps (node_inv N L) (apply_block_finalize N L (post_checked header el) lg)"
proof -
  have "h_hash header = ref_hash (applied_ref header el lg)" by (simp add: applied_ref_def ref_hash_def)
  then show ?thesis
    using put_ref_inv [OF _ assms] by (auto simp: keeps_def finalize_reference)
qed

lemma store_finalize_keeps:
  assumes "valid_ref N (applied_ref header el lg)"
  shows "keeps (node_inv N L) (store_and_apply_block_finalize N L S (post_checked header el) block lg)"
  unfolding keeps_def
proof (intro allI impI)
  fix s r s'
  assume inv: "node_inv N L s" and run: "store_and_apply_block_finalize N L S (post_checked header el) block lg s = Some (r, s')"
  then obtain res st where put: "storage_put_block S block (nc_storage s) = Some (res, st)"
    by (auto simp: store_and_apply_block_finalize_def split: option.splits)
  have inv1: "node_inv N L (s\<lparr>nc_storage := st\<rparr>)" using inv by (simp add: inv_other_fields)
  have "h_hash header = ref_hash (applied_ref header el lg)" by (simp add: applied_ref_def ref_hash_def)
  note inv2 = put_ref_inv [OF inv1 assms, folded this]
  show "node_inv N L s'"
  proof (cases res)
    case (Inl e)
    then show ?thesis using run put inv1 inv2
      by (cases e) (auto simp: store_and_apply_block_finalize_def act_bind_def finalize_reference)
  next
    case (Inr u)
    then show ?thesis using run put inv2
      by (auto simp: store_and_apply_block_finalize_def act_bind_def finalize_reference)
  qed
qed

lemma apply_store_keeps:
  assumes "\<And>lg. valid_ref N (applied_ref header el lg)"
  shows "keeps (node_inv N L) (apply_and_store_block N L S (post_checked header el) block)"
  unfolding apply_and_store_block_def by (intro keeps_rules store_finalize_keeps assms)

lemma create_block0_keeps:
  "keeps (node_inv N L) (create_and_store_reference N L (h_hash header) header lg tf ld rw None)"
proof -
  let ?r = "Ref \<lparr>lr_id = h_hash header, lr_state = lg\<rparr> tf ld rw header None"
  have "node_history N [?r]" by (rule history_block0) (simp_all add: ref_hash_def)
  then have "valid_ref N ?r" by (auto simp: valid_ref_def)
  moreover have "h_hash header = ref_hash ?r" by (simp add: ref_hash_def)
  ultimately show ?thesis
    using put_ref_inv [of _ ?r] by (auto simp: keeps_def create_reference Let_def)
qed

lemma apply_block0_keeps [keeps_rules]: "keeps (node_inv N L) (apply_block0 N L block0)"
  unfolding apply_block0_def Let_def by (intro keeps_rules create_block0_keeps)

lemma load_from_block0_keeps [keeps_rules]: "keeps (node_inv N L) (load_from_block0 N L S block0)"
  unfolding load_from_block0_def by (intro keeps_rules)

lemma gc_keeps [keeps_rules]: "keeps (node_inv N L) (node_gc N S tip)"
  unfolding node_gc_def Let_def by (intro keeps_rules keeps_modify) (simp add: inv_other_fields)

lemma collect_branches_keeps [keeps_rules]: "keeps (node_inv N L) (collect_branches L S hs)"
proof (induction hs)
  case Nil
  show ?case unfolding collect_branches.simps by (rule keeps_rules)
next
  case (Cons h hs)
  show ?case unfolding collect_branches.simps by (intro keeps_rules Cons)
qed

lemma branches_keeps [keeps_rules]: "keeps (node_inv N L) (node_branches L S)"
  unfolding node_branches_def by (intro keeps_rules)

lemma keepsI: "(\<And>s r s'. I s \<Longrightarrow> m s = Some (r, s') \<Longrightarrow> I s') \<Longrightarrow> keeps I m"
  by (auto simp: keeps_def)

lemma post_check_bind:
  "act_bind (post_check_header N header p check_proof) k s =
    (case new_epoch_leadership_from N (epoch (h_block_date header)) p (nc_rewards_report_all s) of
       None \<Rightarrow> None
     | Some el \<Rightarrow>
        (case (if check_proof = Enabled then leadership_verify (n_chain N) (el_leadership el) header else None) of
           Some error \<Rightarrow> Some (Inl (BlockHeaderVerificationFailed (NewLeadershipScheduleFailed error)), s)
         | None \<Rightarrow> k (post_checked header el) s))"
  by (auto simp: post_check_header_def act_bind_def split: option.splits)

text \<open>A block on top of a reference found by the checks.\<close>

lemma checked_apply_keeps:
  assumes "pre_verify_link N header (ref_header p) = Some (Inr ())" and "valid_ref N p"
    and that: "\<And>a. keeps (node_inv N L) (f a)"
  shows "keeps (node_inv N L) (act_bind (post_check_header N header p check_proof) (\<lambda>pc.
     act_bind (apply_and_store_block N L S pc block) f))"
proof (rule keepsI)
  fix s r s'
  assume inv: "node_inv N L s" and run: "act_bind (post_check_header N header p check_proof) (\<lambda>pc.
     act_bind (apply_and_store_block N L S pc block) f) s = Some (r, s')"
  obtain el where el: "new_epoch_leadership_from N (epoch (h_block_date header)) p (nc_rewards_report_all s) = Some el"
    using run by (cases "new_epoch_leadership_from N (epoch (h_block_date header)) p (nc_rewards_report_all s)")
      (auto simp: post_check_bind)
  show "node_inv N L s'"
  proof (cases "check_proof = Enabled \<and> leadership_verify (n_chain N) (el_leadership el) header \<noteq> None")
    case True
    then have "s' = s" using run el by (auto simp: post_check_bind)
    with inv show ?thesis by simp
  next
    case False
    have keep: "keeps (node_inv N L) (act_bind (apply_and_store_block N L S (post_checked header el) block) f)"
      by (intro keeps_rules that apply_store_keeps valid_ref_extend [OF assms(2)]
          applied_ref_extends [OF assms(1) valid_ref_hash [OF assms(2)] el])
    have "act_bind (apply_and_store_block N L S (post_checked header el) block) f s = Some (r, s')"
      using run el False by (auto simp: post_check_bind split: option.splits if_splits)
    then show ?thesis by (rule keepsD [OF keep inv])
  qed
qed

lemma bootstrap_keeps [keeps_rules]: "keeps (node_inv N L) (handle_bootstrap_block N L S block check_proof)"
proof (rule keepsI)
  fix s r s'
  assume inv: "node_inv N L s" and run: "handle_bootstrap_block N L S block check_proof s = Some (r, s')"
  consider e where "pre_check_header N L S (b_header block) True s = Some (Inl e, s')"
    | pre s1 where "pre_check_header N L S (b_header block) True s = Some (Inr pre, s1)"
    using run by (auto simp: handle_bootstrap_block_def act_bind_eq_Some_conv)
  then show "node_inv N L s'"
  proof cases
    case 1
    then show ?thesis using keepsD [OF pre_check_keeps inv] by blast
  next
    case 2
    have inv1: "node_inv N L s1" using keepsD [OF pre_check_keeps inv 2] .
    have rest: "(case pre of
         HeaderWithCache header parent_ref \<Rightarrow>
           act_bind (post_check_header N header parent_ref check_proof) (\<lambda>pc.
           act_bind (apply_and_store_block N L S pc block) (\<lambda>applied. act_return (cached_ref applied)))
       | AlreadyPresent header cached_reference \<Rightarrow> act_unwrap cached_reference
       | MissingParentOf header \<Rightarrow> act_throw (MissingParentBlock (h_block_parent_hash header))) s1 = Some (r, s')"
      using run 2 by (simp add: handle_bootstrap_block_def act_bind_def)
    show ?thesis
    proof (cases pre)
      case (HeaderWithCache header p)
      have "header = b_header block" and ok: "pre_verify_link N (b_header block) (ref_header p) = Some (Inr ())" "valid_ref N p"
        using pre_check_with_cache [OF inv 2 [unfolded HeaderWithCache]] by auto
      then have "act_bind (post_check_header N (b_header block) p check_proof) (\<lambda>pc.
           act_bind (apply_and_store_block N L S pc block) (\<lambda>applied. act_return (cached_ref applied))) s1 = Some (r, s')"
        using rest HeaderWithCache by simp
      then show ?thesis by (rule keepsD [OF checked_apply_keeps [OF ok] inv1, rotated]) (rule keeps_rules)
    next
      case (AlreadyPresent header cached)
      then show ?thesis using rest inv1 by (cases cached) auto
    qed (use rest inv1 in auto)
  qed
qed

lemma bootstrap_on_parent:
  assumes "node_inv N L s" and "map_of (lru_iter L (nc_ref_cache s)) (h_block_parent_hash (b_header block)) = Some p"
    and "storage_block_exists S (nc_storage s) (h_block_parent_hash (b_header block)) = Inr ex"
    and "ref_block_date p < h_block_date (b_header block)"
    and "h_chain_length (b_header block) = chain_length_next N (ref_chain_length p)"
  shows "handle_bootstrap_block N L S block check_proof s =
    act_bind (post_check_header N (b_header block) p check_proof) (\<lambda>pc.
      act_bind (apply_and_store_block N L S pc block) (\<lambda>applied. act_return (cached_ref applied)))
      (s\<lparr>nc_ref_cache := snd (lru_get L (nc_ref_cache s) (h_block_parent_hash (b_header block)))\<rparr>)"
proof -
  have "ref_hash p = h_block_parent_hash (b_header block)" "ref_hash p = h_hash (ref_header p)"
    using cached_valid [OF assms(1,2)] valid_ref_hash [of N p] by auto
  then have "pre_verify_link N (b_header block) (ref_header p) = Some (Inr ())"
    using assms(4,5) by (simp add: pre_verify_link_ok ref_defs)
  then show ?thesis
    by (simp add: handle_bootstrap_block_def pre_check_forced_bind [OF assms(3)] assms(2))
qed

end

lemma bootstrap_Inr_iff:
  assumes "node_refs L N" and "node_inv N L s"
    and "storage_block_exists S (nc_storage s) (h_block_parent_hash (b_header block)) = Inr ex"
  shows "handle_bootstrap_block N L S block check_proof s = Some (Inr r, s') \<longleftrightarrow>
    (\<exists>p el lg st. map_of (lru_iter L (nc_ref_cache s)) (h_block_parent_hash (b_header block)) = Some p
      \<and> ref_block_date p < h_block_date (b_header block)
      \<and> h_chain_length (b_header block) = chain_length_next N (ref_chain_length p)
      \<and> new_epoch_leadership_from N (epoch (h_block_date (b_header block))) p (nc_rewards_report_all s) = Some el
      \<and> (check_proof = Enabled \<longrightarrow> leadership_verify (n_chain N) (el_leadership el) (b_header block) = None)
      \<and> ledger_apply_block (n_chain N) (el_state el) (b_contents block) (b_header block) = Inr lg
      \<and> rewards_distributable N (nc_rewards_report_all s) (el_leadership el) lg
      \<and> (storage_put_block S block (nc_storage s) = Some (Inr (), st) \<or>
         storage_put_block S block (nc_storage s) = Some (Inl BlockAlreadyPresent, st))
      \<and> r = applied_ref (b_header block) el lg
      \<and> s' = s\<lparr>nc_storage := st,
          nc_ledgers := snd (multiverse_insert N (nc_ledgers s) (h_chain_length (b_header block)) (h_hash (b_header block)) lg),
          nc_ref_cache := lru_put L (snd (lru_get L (nc_ref_cache s) (h_block_parent_hash (b_header block))))
            (h_hash (b_header block)) r\<rparr>)"
proof -
  let ?h = "b_header block" let ?ph = "h_block_parent_hash (b_header block)"
  let ?s1 = "s\<lparr>nc_ref_cache := snd (lru_get L (nc_ref_cache s) ?ph)\<rparr>"
  note pre = node_refs.pre_check_forced_bind [OF assms(1,3)]
  show ?thesis
  proof (cases "map_of (lru_iter L (nc_ref_cache s)) ?ph")
    case None
    then show ?thesis by (simp add: handle_bootstrap_block_def pre)
  next
    case (Some p)
    show ?thesis
    proof (cases "ref_block_date p < h_block_date ?h \<and> h_chain_length ?h = chain_length_next N (ref_chain_length p)")
      case False
      then have "\<not> (\<exists>u. pre_verify_link N ?h (ref_header p) = Some (Inr u))" by (simp add: pre_verify_link_ok ref_defs)
      then show ?thesis
        using False Some by (auto simp: handle_bootstrap_block_def pre split: option.splits sum.splits)
    next
      case True
      have "handle_bootstrap_block N L S block check_proof s = Some (Inr r, s') \<longleftrightarrow>
          (\<exists>el. new_epoch_leadership_from N (epoch (h_block_date ?h)) p (nc_rewards_report_all s) = Some el \<and>
             (check_proof = Enabled \<longrightarrow> leadership_verify (n_chain N) (el_leadership el) ?h = None) \<and>
             (\<exists>a. apply_and_store_block N L S (post_checked ?h el) block ?s1 = Some (Inr a, s') \<and> r = cached_ref a))"
        using True
        by (auto simp: node_refs.bootstrap_on_parent [OF assms(1,2) Some assms(3)] node_refs.post_check_bind [OF assms(1)]
            act_bind_Inr split: option.splits)
      then show ?thesis
        using True Some
        by (auto simp: node_refs.apply_store_Inr [OF assms(1)] node_refs.store_finalize_Inr [OF assms(1)])
    qed
  qed
qed

section \<open>Histories and epochs\<close>

lemma history_previous:
  assumes "node_history N (r # rs)"
  shows "ref_previous_epoch_state r = find (\<lambda>p. epoch (ref_block_date p) < epoch (ref_block_date r)) rs"
  using assms
proof (induction "r # rs" arbitrary: r rs rule: node_history.induct)
  case (history_block0 r)
  then show ?case by simp
next
  case (history_extend p rs r)
  show ?case
  proof (cases "epoch (ref_block_date p) < epoch (ref_block_date r)")
    case True
    then show ?thesis using history_extend(3) by (simp add: extends_def)
  next
    case False
    then have "epoch (ref_block_date p) = epoch (ref_block_date r)"
      using history_extend(3) by (auto simp: extends_def less_block_date_def)
    then show ?thesis using False history_extend(2,3) by (simp add: extends_def)
  qed
qed


lemma history_tl: "node_history N (xs @ r # rs) \<Longrightarrow> node_history N (r # rs)"
proof (induction xs)
  case (Cons x xs)
  have "node_history N (xs @ r # rs)" using Cons.prems by (cases "xs @ r # rs") (auto elim: node_history_ConsE)
  then show ?case by (rule Cons.IH)
qed simp

lemma history_dates: "node_history N (r # rs) \<Longrightarrow> u \<in> set rs \<Longrightarrow> ref_block_date u < ref_block_date r"
proof (induction "r # rs" arbitrary: r rs rule: node_history.induct)
  case (history_extend p rs r)
  have "ref_block_date p < ref_block_date r" using history_extend(3) by (simp add: extends_def)
  moreover have "u = p \<or> ref_block_date u < ref_block_date p" using history_extend(2,4) by auto
  ultimately show ?case by auto
qed simp

text \<open>A reference that the next one of the history leaves behind in an earlier epoch.\<close>

definition epoch_last :: "('hid, 'x, 'lg, 'ld, 'tf, 'rw) noderef list \<Rightarrow> ('hid, 'x, 'lg, 'ld, 'tf, 'rw) noderef \<Rightarrow> bool" where
  "epoch_last rs p \<longleftrightarrow> (\<exists>us u vs. rs = us @ u # p # vs \<and> epoch (ref_block_date p) < epoch (ref_block_date u))"

lemma previous_epoch_last:
  assumes "node_history N (us @ r # rs)" and "ref_previous_epoch_state r = Some p"
  shows "\<exists>vs ws. rs = vs @ p # ws \<and> epoch_last (us @ r # rs) p \<and> epoch (ref_block_date p) < epoch (ref_block_date r)"
proof -
  have hist: "node_history N (r # rs)" using assms(1) by (rule history_tl)
  have "find (\<lambda>p. epoch (ref_block_date p) < epoch (ref_block_date r)) rs = Some p"
    using history_previous [OF hist] assms(2) by simp
  then obtain k where k: "k < length rs" "epoch (ref_block_date p) < epoch (ref_block_date r)" "p = rs ! k"
      "\<forall>j<k. \<not> epoch (ref_block_date (rs ! j)) < epoch (ref_block_date r)"
    by (auto simp: find_Some_iff)
  have rs: "rs = take k rs @ p # drop (Suc k) rs" using k(1,3) by (simp add: id_take_nth_drop)
  have "\<exists>u vs. r # take k rs = vs @ [u] \<and> epoch (ref_block_date p) < epoch (ref_block_date u)"
  proof (cases k)
    case 0
    then show ?thesis using k(2) by auto
  next
    case (Suc j)
    have "take k rs = take j rs @ [rs ! j]" using Suc k(1) by (simp add: take_Suc_conv_app_nth)
    then have "r # take k rs = (r # take j rs) @ [rs ! j]" by simp
    moreover have "epoch (ref_block_date r) \<le> epoch (ref_block_date (rs ! j))" using k(4) Suc by (simp add: not_less)
    then have "epoch (ref_block_date p) < epoch (ref_block_date (rs ! j))" using k(2) by (rule order.strict_trans2 [rotated])
    ultimately show ?thesis by blast
  qed
  then obtain u vs where uv: "r # take k rs = vs @ [u]" "epoch (ref_block_date p) < epoch (ref_block_date u)" by blast
  have "r # rs = (r # take k rs) @ p # drop (Suc k) rs" using rs by simp
  also have "\<dots> = vs @ u # p # drop (Suc k) rs" by (simp only: uv(1)) simp
  finally have "us @ r # rs = (us @ vs) @ u # p # drop (Suc k) rs" by simp
  then have "epoch_last (us @ r # rs) p" unfolding epoch_last_def using uv(2) by blast
  then show ?thesis using rs k(2) by blast
qed

lemma skip_epochs_last:
  assumes "node_history N (us @ p # vs)" and "epoch_last (us @ p # vs) p"
  shows "\<exists>xs ws. p # vs = xs @ skip_epochs n p # ws \<and> epoch_last (us @ p # vs) (skip_epochs n p) \<and>
     epoch (ref_block_date (skip_epochs n p)) \<le> epoch (ref_block_date p)"
  using assms
proof (induction n p arbitrary: us vs rule: skip_epochs.induct)
  case (1 r)
  have "r # vs = [] @ r # vs" by simp
  then show ?case using 1(2) by fastforce
next
  case (2 n r)
  show ?case
  proof (cases "ref_previous_epoch_state r")
    case None
    have "r # vs = [] @ r # vs" by simp
    then show ?thesis using 2(3) None by fastforce
  next
    case (Some p)
    obtain ys ws where p: "vs = ys @ p # ws" "epoch_last (us @ r # vs) p" "epoch (ref_block_date p) < epoch (ref_block_date r)"
      using previous_epoch_last [OF 2(2) Some] by blast
    have full: "us @ r # vs = (us @ r # ys) @ p # ws" using p(1) by simp
    obtain xs zs where "p # ws = xs @ skip_epochs n p # zs" "epoch_last (us @ r # vs) (skip_epochs n p)"
        "epoch (ref_block_date (skip_epochs n p)) \<le> epoch (ref_block_date p)"
      using 2(1) [OF Some, of "us @ r # ys" ws] 2(2) p(2) full by auto
    moreover then have "r # vs = (r # ys @ xs) @ skip_epochs n p # zs" using p(1) by simp
    moreover have "skip_epochs (Suc n) r = skip_epochs n p" using Some by simp
    ultimately show ?thesis using p(3) by (metis order.strict_implies_order order_trans)
  qed
qed

lemma node_checkpoints_loop_spec:
  assumes "node_history N (us @ r # rs)" and "cs \<noteq> []"
  shows "\<exists>ps. node_checkpoints_loop r n cs = cs @ map ref_hash ps \<and> subseq ps rs \<and>
     (\<forall>p\<in>set ps. epoch_last (us @ r # rs) p) \<and>
     sorted_wrt (\<lambda>a b. epoch (ref_block_date b) < epoch (ref_block_date a)) (r # ps)"
  using assms
proof (induction r n cs arbitrary: us rs rule: node_checkpoints_loop.induct)
  case (1 r n cs)
  let ?P = "\<lambda>r rs us res cs. \<exists>ps. res = cs @ map ref_hash ps \<and> subseq ps rs \<and> (\<forall>p\<in>set ps. epoch_last (us @ r # rs) p) \<and>
     sorted_wrt (\<lambda>a b. epoch (ref_block_date b) < epoch (ref_block_date a)) (r # ps)"
  show ?case
  proof (cases "ref_previous_epoch_state r")
    case None
    then have "node_checkpoints_loop r n cs = cs @ map ref_hash []" by (simp add: node_checkpoints_loop.simps)
    then show ?thesis by (intro exI [of _ "[]"]) simp
  next
    case (Some p)
    let ?q = "skip_epochs n p"
    obtain vs ws where p: "rs = vs @ p # ws" "epoch_last (us @ r # rs) p" "epoch (ref_block_date p) < epoch (ref_block_date r)"
      using previous_epoch_last [OF 1(3) Some] by blast
    have full: "us @ r # rs = (us @ r # vs) @ p # ws" using p(1) by simp
    obtain xs zs where q: "p # ws = xs @ ?q # zs" "epoch_last (us @ r # rs) ?q" "epoch (ref_block_date ?q) \<le> epoch (ref_block_date p)"
      using skip_epochs_last [of N "us @ r # vs" p ws n] 1(3) p(2) full by auto
    have full2: "us @ r # rs = (us @ r # vs @ xs) @ ?q # zs" using p(1) q(1) by simp
    have hist: "node_history N ((us @ r # vs @ xs) @ ?q # zs)" using 1(3) full2 by simp
    have less: "epoch (ref_block_date ?q) < epoch (ref_block_date r)" using p(3) q(3) by simp
    have sub: "subseq zs rs" "subseq (?q # zs) rs"
      using p(1) q(1) by (auto intro: list_emb_append2 simp del: append_Cons)
    show ?thesis
    proof (cases "last cs = ref_hash ?q")
      case True
      then have eq: "node_checkpoints_loop r n cs = node_checkpoints_loop ?q n cs"
        using Some by (simp add: node_checkpoints_loop.simps [of r] Let_def)
      obtain ps where "node_checkpoints_loop ?q n cs = cs @ map ref_hash ps" "subseq ps zs"
          "\<forall>p\<in>set ps. epoch_last (us @ r # rs) p"
          "sorted_wrt (\<lambda>a b. epoch (ref_block_date b) < epoch (ref_block_date a)) (?q # ps)"
        using 1(2) [OF Some refl refl _ hist 1(4)] True full2 by auto
      then show ?thesis
        using eq less sub(1) by (intro exI [of _ ps]) (auto intro: subseq_order.order_trans)
    next
      case False
      then have eq: "node_checkpoints_loop r n cs = node_checkpoints_loop ?q (n + 1) (cs @ [ref_hash ?q])"
        using Some by (simp add: node_checkpoints_loop.simps [of r] Let_def)
      obtain ps where ps: "node_checkpoints_loop ?q (n + 1) (cs @ [ref_hash ?q]) = (cs @ [ref_hash ?q]) @ map ref_hash ps"
          "subseq ps zs" "\<forall>p\<in>set ps. epoch_last (us @ r # rs) p"
          "sorted_wrt (\<lambda>a b. epoch (ref_block_date b) < epoch (ref_block_date a)) (?q # ps)"
        using 1(1) [OF Some refl refl _ hist] False full2 by auto
      have "subseq (?q # ps) rs" using ps(2) sub(2) by (meson subseq_Cons2 subseq_order.order_trans)
      then show ?thesis
        using eq less ps q(2) by (intro exI [of _ "?q # ps"]) auto
    qed
  qed
qed

section \<open>Replaying a chain\<close>

text \<open>What a chain of blocks yields on top of a reference, without caches and storage.\<close>

definition step_ref ::
  "('hid, 'x, 'f, 'q, 'lg, 'ld, 'e, 'tf, 'rw, 'mv) node_ops \<Rightarrow> bool \<Rightarrow> ('hid, 'x, 'lg, 'ld, 'tf, 'rw) noderef
    \<Rightarrow> ('hid, 'x, 'f, 'q) block \<Rightarrow> ('hid, 'x, 'lg, 'ld, 'tf, 'rw) noderef option" where
  "step_ref N all p b =
     (if h_block_parent_hash (b_header b) = ref_hash p \<and> ref_block_date p < h_block_date (b_header b) \<and>
         h_chain_length (b_header b) = chain_length_next N (ref_chain_length p)
      then do {
        el \<leftarrow> new_epoch_leadership_from N (epoch (h_block_date (b_header b))) p all;
        (case ledger_apply_block (n_chain N) (el_state el) (b_contents b) (b_header b) of
           Inl _ \<Rightarrow> None
         | Inr lg \<Rightarrow> if rewards_distributable N all (el_leadership el) lg then Some (applied_ref (b_header b) el lg) else None)
      }
      else None)"

fun replay ::
  "('hid, 'x, 'f, 'q, 'lg, 'ld, 'e, 'tf, 'rw, 'mv) node_ops \<Rightarrow> bool \<Rightarrow> ('hid, 'x, 'lg, 'ld, 'tf, 'rw) noderef
    \<Rightarrow> ('hid, 'x, 'f, 'q) block list \<Rightarrow> ('hid, 'x, 'lg, 'ld, 'tf, 'rw) noderef option" where
  "replay N all p [] = Some p"
| "replay N all p (b # bs) = Option.bind (step_ref N all p b) (\<lambda>r. replay N all r bs)"

definition block0_ref ::
  "('hid, 'x, 'f, 'q, 'lg, 'ld, 'e, 'tf, 'rw, 'mv) node_ops \<Rightarrow> ('hid, 'x, 'f, 'q) block \<Rightarrow> nat \<Rightarrow> u64 \<Rightarrow> 'lg
    \<Rightarrow> ('hid, 'x, 'lg, 'ld, 'tf, 'rw) noderef" where
  "block0_ref N block0 start duration lg0 =
     Ref \<lparr>lr_id = h_hash (b_header block0), lr_state = lg0\<rparr> (time_frame_new (n_chain N) start (ucast duration))
       (leadership_new (n_chain N) (epoch (h_block_date (b_header block0))) lg0) None (b_header block0) None"

text \<open>A storage that answers and already holds the given blocks.\<close>

definition holds_blocks ::
  "('s, 'hid, 'x, 'f, 'q, 'io) store_ops \<Rightarrow> 's \<Rightarrow> ('hid, 'x, 'f, 'q) block list \<Rightarrow> bool" where
  "holds_blocks S st bs \<longleftrightarrow>
     (\<forall>b\<in>set bs. (\<exists>ex. storage_block_exists S st (h_block_parent_hash (b_header b)) = Inr ex) \<and>
        storage_put_block S b st = Some (Inl BlockAlreadyPresent, st) \<and> (\<exists>raw. block_serialize S b = Inr raw))"

lemma step_ref_Some:
  "step_ref N all p b = Some r \<longleftrightarrow>
     h_block_parent_hash (b_header b) = ref_hash p \<and> ref_block_date p < h_block_date (b_header b) \<and>
     h_chain_length (b_header b) = chain_length_next N (ref_chain_length p) \<and>
     (\<exists>el lg. new_epoch_leadership_from N (epoch (h_block_date (b_header b))) p all = Some el \<and>
        ledger_apply_block (n_chain N) (el_state el) (b_contents b) (b_header b) = Inr lg \<and>
        rewards_distributable N all (el_leadership el) lg \<and> r = applied_ref (b_header b) el lg)"
proof (cases "new_epoch_leadership_from N (epoch (h_block_date (b_header b))) p all")
  case (Some el)
  then show ?thesis
    by (cases "ledger_apply_block (n_chain N) (el_state el) (b_contents b) (b_header b)") (auto simp: step_ref_def)
qed (simp add: step_ref_def)

lemma append_block_total:
  assumes "block_serialize S b = Inr raw" and "mono clk" and "si_last_reported info \<le> clk 0"
  shows "\<exists>info' clk'. append_block S load_report clk info b = Some (info', clk') \<and> mono clk' \<and> si_last_reported info' \<le> clk' 0"
proof -
  have "mono (\<lambda>i. clk (i + 2))" and "clk (Suc 0) \<le> clk (Suc (Suc 0))" using assms(2) by (auto simp: mono_def)
  then show ?thesis using assms by (auto simp: append_block_def load_report_def Let_def)
qed

text \<open>
  The states that the operations of the blockchain reach. A block made by this node comes with the epoch state
  computed from the reference of its parent.
\<close>

inductive node_reach ::
  "('hid, 'x, 'f, 'q, 'lg, 'ld, 'e, 'tf, 'rw, 'mv) node_ops \<Rightarrow> ('c, 'hid, 'x, 'lg, 'ld, 'tf, 'rw) ref_cache_ops
    \<Rightarrow> ('s, 'hid, 'x, 'f, 'q, 'io) store_ops \<Rightarrow> ('c, 'mv, 's, 'hid) node_chain \<Rightarrow> bool"
  for N L S where
  reach_new: "0 < cap \<Longrightarrow> node_reach N L S (node_chain_new N L block0_id st cap all)"
| reach_block0: "node_reach N L S s \<Longrightarrow> load_from_block0 N L S block0 s = Some (r0, s') \<Longrightarrow> node_reach N L S s'"
| reach_load: "node_reach N L S s \<Longrightarrow> load_from_storage N L S clk block0 s = Some (r0, s') \<Longrightarrow> node_reach N L S s'"
| reach_check: "node_reach N L S s \<Longrightarrow> pre_check_header N L S header force s = Some (pre, s') \<Longrightarrow> node_reach N L S s'"
| reach_block: "node_reach N L S s \<Longrightarrow> handle_bootstrap_block N L S block proof s = Some (r0, s') \<Longrightarrow> node_reach N L S s'"
| reach_own_block: "node_reach N L S s \<Longrightarrow>
     map_of (lru_iter L (nc_ref_cache s)) (h_block_parent_hash (b_header (lb_block lb))) = Some p \<Longrightarrow>
     pre_verify_link N (b_header (lb_block lb)) (ref_header p) = Some (Inr ()) \<Longrightarrow>
     new_epoch_leadership_from N (epoch (h_block_date (b_header (lb_block lb)))) p all = Some (lb_leadership lb) \<Longrightarrow>
     apply_and_store_leadership_block N L S lb s = Some (a, s') \<Longrightarrow> node_reach N L S s'"
| reach_branches: "node_reach N L S s \<Longrightarrow>
     node_branches L S s = Some (b :: (('hid, 'e, 'io) chain_error, ('hid, 'x, 'lg, 'ld, 'tf, 'rw) noderef list) result, s') \<Longrightarrow>
     node_reach N L S s'"
| reach_gc: "node_reach N L S s \<Longrightarrow> node_gc N S tip s = Some (u, s') \<Longrightarrow> node_reach N L S s'"

context node_refs
begin

lemma load_loop_keeps: "keeps (node_inv N L) (load_loop N L S clk info p stream)"
proof (induction stream arbitrary: clk info p)
  case Nil
  show ?case unfolding load_loop.simps by (rule keeps_rules)
next
  case (Cons item stream)
  show ?case
  proof (cases item)
    case (Inl e)
    then show ?thesis unfolding Inl load_loop.simps by (intro keeps_rules)
  next
    case (Inr b)
    show ?thesis unfolding Inr load_loop.simps case_prod_beta by (intro keeps_rules bootstrap_keeps Cons.IH)
  qed
qed

lemma load_from_storage_keeps [keeps_rules]: "keeps (node_inv N L) (load_from_storage N L S clk block0)"
  unfolding load_from_storage_def Let_def by (intro keeps_rules load_loop_keeps)

lemma own_block_keeps:
  assumes "valid_ref N p" and "pre_verify_link N (b_header (lb_block lb)) (ref_header p) = Some (Inr ())"
    and "new_epoch_leadership_from N (epoch (h_block_date (b_header (lb_block lb)))) p all = Some (lb_leadership lb)"
  shows "keeps (node_inv N L) (apply_and_store_leadership_block N L S lb)"
  unfolding apply_and_store_leadership_block_def Let_def
  by (intro keeps_rules store_finalize_keeps valid_ref_extend [OF assms(1)]
      applied_ref_extends [OF assms(2) valid_ref_hash [OF assms(1)] assms(3)])

lemma new_inv: "0 < cap \<Longrightarrow> node_inv N L (node_chain_new N L b0 st cap all)"
  by (simp add: node_inv_def node_chain_new_def cap_new iter_new cache_valid_def)

lemma reach_inv: "node_reach N L S s \<Longrightarrow> node_inv N L s"
proof (induction rule: node_reach.induct)
  case (reach_own_block s lb p all a s')
  have "valid_ref N p" using cached_valid [OF reach_own_block(6,2)] by blast
  then show ?case by (rule keepsD [OF own_block_keeps [OF _ reach_own_block(3,4)] reach_own_block(6,5)])
next
  case (reach_branches s b s')
  show ?case by (rule keepsD [OF branches_keeps reach_branches(3,2)])
next
  case (reach_gc s tip u s')
  show ?case by (rule keepsD [OF gc_keeps reach_gc(3,2)])
qed (blast intro: new_inv keepsD [OF load_from_block0_keeps] keepsD [OF load_from_storage_keeps]
      keepsD [OF pre_check_keeps] keepsD [OF bootstrap_keeps])+

lemma apply_block0_Inr:
  assumes "start_time block0 = Some (Inr start)" and "slot_duration block0 = Inr duration"
    and "ledger_new (n_chain N) (h_hash (b_header block0)) (b_contents block0) = Inr lg0"
  shows "apply_block0 N L block0 s = Some (Inr (block0_ref N block0 start duration lg0),
    s\<lparr>nc_ledgers := snd (multiverse_insert N (nc_ledgers s) (h_chain_length (b_header block0)) (h_hash (b_header block0)) lg0),
      nc_ref_cache := lru_put L (nc_ref_cache s) (h_hash (b_header block0)) (block0_ref N block0 start duration lg0)\<rparr>)"
  using assms by (simp add: apply_block0_def Let_def create_reference block0_ref_def)

lemma block0_cached:
  assumes "node_inv N L s" and "ref_hash r = h_hash header" and "node_history N [r]"
  shows "node_inv N L (s\<lparr>nc_ledgers := mv, nc_ref_cache := lru_put L (nc_ref_cache s) (h_hash header) r\<rparr>)"
    and "map_of (lru_iter L (lru_put L (nc_ref_cache s) (h_hash header) r)) (ref_hash r) = Some r"
proof -
  have "valid_ref N r" using assms(3) by (auto simp: valid_ref_def)
  then show "node_inv N L (s\<lparr>nc_ledgers := mv, nc_ref_cache := lru_put L (nc_ref_cache s) (h_hash header) r\<rparr>)"
    using put_ref_inv [OF assms(1)] assms(2) by metis
  show "map_of (lru_iter L (lru_put L (nc_ref_cache s) (h_hash header) r)) (ref_hash r) = Some r"
    using put_front [of "nc_ref_cache s" "h_hash header" r] assms(1,2) by (auto simp: node_inv_def)
qed

lemma bootstrap_step:
  assumes "node_inv N L s" and "map_of (lru_iter L (nc_ref_cache s)) (ref_hash p) = Some p"
    and "holds_blocks S (nc_storage s) (b # bs)" and "step_ref N (nc_rewards_report_all s) p b = Some r"
  shows "\<exists>s'. handle_bootstrap_block N L S b SkipFromStorage s = Some (Inr r, s') \<and> nc_storage s' = nc_storage s \<and>
     nc_rewards_report_all s' = nc_rewards_report_all s \<and> map_of (lru_iter L (nc_ref_cache s')) (ref_hash r) = Some r"
proof -
  let ?h = "b_header b"
  obtain el lg where el: "h_block_parent_hash ?h = ref_hash p" "ref_block_date p < h_block_date ?h"
      "h_chain_length ?h = chain_length_next N (ref_chain_length p)"
      "new_epoch_leadership_from N (epoch (h_block_date ?h)) p (nc_rewards_report_all s) = Some el"
      "ledger_apply_block (n_chain N) (el_state el) (b_contents b) ?h = Inr lg"
      "rewards_distributable N (nc_rewards_report_all s) (el_leadership el) lg" "r = applied_ref ?h el lg"
    using assms(4) by (auto simp: step_ref_Some)
  obtain ex where ex: "storage_block_exists S (nc_storage s) (h_block_parent_hash ?h) = Inr ex"
      and put: "storage_put_block S b (nc_storage s) = Some (Inl BlockAlreadyPresent, nc_storage s)"
    using assms(3) by (auto simp: holds_blocks_def)
  let ?s' = "s\<lparr>nc_storage := nc_storage s,
      nc_ledgers := snd (multiverse_insert N (nc_ledgers s) (h_chain_length ?h) (h_hash ?h) lg),
      nc_ref_cache := lru_put L (snd (lru_get L (nc_ref_cache s) (h_block_parent_hash ?h))) (h_hash ?h) r\<rparr>"
  have "handle_bootstrap_block N L S b SkipFromStorage s = Some (Inr r, ?s')"
    unfolding bootstrap_Inr_iff [OF node_refs_axioms assms(1) ex]
    by (intro exI [of _ p] exI [of _ el] exI [of _ lg] exI [of _ "nc_storage s"]) (simp add: el put assms(2))
  moreover have "0 < lru_cap L (snd (lru_get L (nc_ref_cache s) (h_block_parent_hash ?h)))"
    using assms(1) by (simp add: node_inv_def cap_get)
  then have "map_of (lru_iter L (nc_ref_cache ?s')) (ref_hash r) = Some r"
    using put_front [of "snd (lru_get L (nc_ref_cache s) (h_block_parent_hash ?h))" "h_hash ?h" r] el(7)
    by (auto simp: applied_ref_def ref_hash_def)
  ultimately show ?thesis by (intro exI [of _ ?s']) simp
qed

lemma load_loop_replays:
  assumes "node_inv N L s" and "map_of (lru_iter L (nc_ref_cache s)) (ref_hash p) = Some p"
    and "holds_blocks S (nc_storage s) bs" and "replay N (nc_rewards_report_all s) p bs = Some r"
    and "mono clk" and "si_last_reported info \<le> clk 0"
  shows "\<exists>s'. load_loop N L S clk info p (map Inr bs) s = Some (Inr r, s') \<and> nc_storage s' = nc_storage s \<and>
    map_of (lru_iter L (nc_ref_cache s')) (ref_hash r) = Some r"
  using assms
proof (induction bs arbitrary: s p clk info)
  case Nil
  then show ?case by simp
next
  case (Cons b bs)
  obtain r1 where r1: "step_ref N (nc_rewards_report_all s) p b = Some r1" "replay N (nc_rewards_report_all s) r1 bs = Some r"
    using Cons.prems(4) by (auto simp: bind_eq_Some_conv)
  obtain s1 where s1: "handle_bootstrap_block N L S b SkipFromStorage s = Some (Inr r1, s1)" "nc_storage s1 = nc_storage s"
      "nc_rewards_report_all s1 = nc_rewards_report_all s" "map_of (lru_iter L (nc_ref_cache s1)) (ref_hash r1) = Some r1"
    using bootstrap_step [OF Cons.prems(1-3) r1(1)] by blast
  have inv1: "node_inv N L s1" by (rule keepsD [OF bootstrap_keeps Cons.prems(1) s1(1)])
  obtain raw where raw: "block_serialize S b = Inr raw" using Cons.prems(3) by (auto simp: holds_blocks_def)
  obtain info' clk' where rep: "append_block S load_report clk info b = Some (info', clk')" "mono clk'"
      "si_last_reported info' \<le> clk' 0"
    using append_block_total [OF raw Cons.prems(5,6)] by blast
  have "\<exists>s'. load_loop N L S clk' info' r1 (map Inr bs) s1 = Some (Inr r, s') \<and> nc_storage s' = nc_storage s1 \<and>
      map_of (lru_iter L (nc_ref_cache s')) (ref_hash r) = Some r"
    by (rule Cons.IH [OF inv1 s1(4)]) (use Cons.prems(3) r1(2) rep s1(2,3) in \<open>simp_all add: holds_blocks_def\<close>)
  then show ?case using rep(1) s1 by (auto simp: act_bind_def)
qed

end

lemma load_from_storage_ok:
  assumes "node_refs L N" and "node_inv N L s" and "mono clk"
    and "storage_block_exists S (nc_storage s) (h_hash (b_header block0)) = Inr True"
    and "storage_get_tag S (nc_storage s) main_branch_tag = Inr (Some head)"
    and "stream_from_to S (nc_storage s) (h_hash (b_header block0)) head = Inr (map Inr bs)"
    and "start_time block0 = Some (Inr start)" and "slot_duration block0 = Inr duration"
    and "ledger_new (n_chain N) (h_hash (b_header block0)) (b_contents block0) = Inr lg0"
    and "holds_blocks S (nc_storage s) bs"
    and "replay N (nc_rewards_report_all s)
      (block0_ref N block0 start duration lg0) bs = Some r"
  shows "\<exists>s'. load_from_storage N L S clk block0 s = Some (Inr r, s') \<and> nc_storage s' = nc_storage s \<and>
    map_of (lru_iter L (nc_ref_cache s')) (ref_hash r) = Some r"
proof -
  let ?r0 = "block0_ref N block0 start duration lg0"
  let ?s1 = "s\<lparr>nc_ledgers := snd (multiverse_insert N (nc_ledgers s) (h_chain_length (b_header block0)) (h_hash (b_header block0)) lg0),
      nc_ref_cache := lru_put L (nc_ref_cache s) (h_hash (b_header block0)) ?r0\<rparr>"
  have r0: "ref_hash ?r0 = h_hash (b_header block0)" "node_history N [?r0]"
    by (auto intro!: history_block0 simp: block0_ref_def ref_hash_def)
  note loop = node_refs.load_loop_replays [OF assms(1) node_refs.block0_cached(1) [OF assms(1,2) r0], where S = S]
  have "mono (\<lambda>i. clk (Suc i))" "clk 0 \<le> clk (Suc 0)" using assms(3) by (auto simp: mono_def)
  then have "\<exists>s'. load_loop N L S (\<lambda>i. clk (Suc i)) (stream_reporter_new (clk 0)) ?r0 (map Inr bs) ?s1 = Some (Inr r, s') \<and>
      nc_storage s' = nc_storage ?s1 \<and> map_of (lru_iter L (nc_ref_cache s')) (ref_hash r) = Some r"
    using assms(10,11) node_refs.block0_cached(2) [OF assms(1,2) r0]
    by (intro loop) (simp_all add: stream_reporter_new_def)
  then show ?thesis
    using assms(4-6)
    by (auto simp: load_from_storage_def act_bind_def with_storage_def act_map_err_def act_focus_def Let_def
        node_refs.apply_block0_Inr [OF assms(1,7-9)])
qed

section \<open>Properties\<close>
text \<open>(C9) When a block is accepted. A block is applied by \<^verbatim>\<open>handle_bootstrap_block\<close> exactly when the reference of its
  parent is cached, its date is after the date of the parent and its chain length is the next one, the
  epoch state for its date can be computed, its leader is confirmed by the leadership of that epoch (unless the
  check is skipped), the ledger accepts its contents, the rewards can still be distributed and the storage takes
  the block or has it already. The reference returned is the one for this header, epoch state and ledger, and the
  new state differs only in the storage, the multiverse and the cache, where the reference is now.\<close>

theorem bootstrap_block_accepts:
  assumes "node_refs L N" and "node_inv N L s"
    and "storage_block_exists S (nc_storage s) (h_block_parent_hash (b_header block)) = Inr ex"
  shows "handle_bootstrap_block N L S block check_proof s = Some (Inr r, s') \<longleftrightarrow>
    (\<exists>p el lg st. map_of (lru_iter L (nc_ref_cache s)) (h_block_parent_hash (b_header block)) = Some p
      \<and> ref_block_date p < h_block_date (b_header block)
      \<and> h_chain_length (b_header block) = chain_length_next N (ref_chain_length p)
      \<and> new_epoch_leadership_from N (epoch (h_block_date (b_header block))) p (nc_rewards_report_all s) = Some el
      \<and> (check_proof = Enabled \<longrightarrow> leadership_verify (n_chain N) (el_leadership el) (b_header block) = None)
      \<and> ledger_apply_block (n_chain N) (el_state el) (b_contents block) (b_header block) = Inr lg
      \<and> rewards_distributable N (nc_rewards_report_all s) (el_leadership el) lg
      \<and> (storage_put_block S block (nc_storage s) = Some (Inr (), st) \<or>
         storage_put_block S block (nc_storage s) = Some (Inl BlockAlreadyPresent, st))
      \<and> r = applied_ref (b_header block) el lg
      \<and> s' = s\<lparr>nc_storage := st,
          nc_ledgers := snd (multiverse_insert N (nc_ledgers s) (h_chain_length (b_header block)) (h_hash (b_header block)) lg),
          nc_ref_cache := lru_put L (snd (lru_get L (nc_ref_cache s) (h_block_parent_hash (b_header block))))
            (h_hash (b_header block)) r\<rparr>)"
  by (rule bootstrap_Inr_iff [OF assms])


text \<open> The checkpoints of a tip. \<^verbatim>\<open>Checkpoints::new_from\<close> lists the hash of the tip and of its parent, then the
  hashes of references of its history, each the last one of its epoch and each from an earlier epoch than the one
  before, and finally block 0 unless block 0 is the parent.\<close>

theorem node_checkpoints_correct:
  assumes "node_history N (r # rs)"
  shows "\<exists>ps. subseq ps rs \<and> (\<forall>p\<in>set ps. epoch_last (r # rs) p) \<and>
    sorted_wrt (\<lambda>a b. epoch (ref_block_date b) < epoch (ref_block_date a)) (r # ps) \<and>
    node_checkpoints N r = [ref_hash r, ref_block_parent_hash r] @ map ref_hash ps @
      (if block0_initial_hash N (ref_ledger_state r) \<noteq> ref_block_parent_hash r
       then [block0_initial_hash N (ref_ledger_state r)] else [])"
proof -
  obtain ps where "node_checkpoints_loop r 0 [ref_hash r, ref_block_parent_hash r] =
      [ref_hash r, ref_block_parent_hash r] @ map ref_hash ps" "subseq ps rs" "\<forall>p\<in>set ps. epoch_last (r # rs) p"
      "sorted_wrt (\<lambda>a b. epoch (ref_block_date b) < epoch (ref_block_date a)) (r # ps)"
    using node_checkpoints_loop_spec [of N "[]" r rs "[ref_hash r, ref_block_parent_hash r]" 0] assms by auto
  then show ?thesis by (intro exI [of _ ps]) (simp add: node_checkpoints_def Let_def)
qed

text \<open>(C10) Restarting a node. When the storage holds block 0, the tag of the main branch and a chain of blocks from
  block 0 to the tagged head that replays to a reference, \<^verbatim>\<open>load_from_storage\<close> terminates without panic, returns
  exactly that reference, has it in the cache and leaves the storage as it was.\<close>

theorem load_from_storage_replays:
  assumes "node_refs L N" and "node_inv N L s" and "mono clk"
    and "storage_block_exists S (nc_storage s) (h_hash (b_header block0)) = Inr True"
    and "storage_get_tag S (nc_storage s) main_branch_tag = Inr (Some head)"
    and "stream_from_to S (nc_storage s) (h_hash (b_header block0)) head = Inr (map Inr bs)"
    and "start_time block0 = Some (Inr start)" and "slot_duration block0 = Inr duration"
    and "ledger_new (n_chain N) (h_hash (b_header block0)) (b_contents block0) = Inr lg0"
    and "holds_blocks S (nc_storage s) bs"
    and "replay N (nc_rewards_report_all s)
      (block0_ref N block0 start duration lg0) bs = Some r"
  shows "\<exists>s'. load_from_storage N L S clk block0 s = Some (Inr r, s') \<and> nc_storage s' = nc_storage s \<and>
    map_of (lru_iter L (nc_ref_cache s')) (ref_hash r) = Some r"
  by (rule load_from_storage_ok [OF assms])

section \<open>An example node\<close>

definition example_node_ops :: "(nat, unit, unit, unit, nat, unit, unit, unit, unit, (nat \<times> nat) list) node_ops" where
  "example_node_ops = \<lparr>n_chain = example_chain_ops, chain_length_next = (\<lambda>n. n + 1),
     stake_distribution = (\<lambda>_. Some (\<lambda>_ lg. Inr (lg, ()))), block0_initial_hash = (\<lambda>_. 1), multiverse_new = [],
     multiverse_insert = (\<lambda>mv n h lg. (\<lparr>lr_id = h, lr_state = lg\<rparr>, (h, lg) # mv)), multiverse_gc = (\<lambda>mv _. mv),
     reward_dump_ok = (\<lambda>_ _ _. True)\<rparr>"

interpretation example_node: node_refs recency_ops example_node_ops
  by unfold_locales (simp add: example_node_ops_def)

definition example_ref0 :: "(nat, unit, nat, unit, unit, unit) noderef" where
  "example_ref0 = block0_ref example_node_ops (example_block 1 0 0) 5 1 0"

definition example_ref1 :: "(nat, unit, nat, unit, unit, unit) noderef" where
  "example_ref1 = Ref \<lparr>lr_id = 2, lr_state = 1\<rparr> () () None (b_header (plain_block 2 1 1)) None"

definition example_node_state :: "mem_store \<Rightarrow>
    ((nat, (nat, unit, nat, unit, unit, unit) noderef) recency_list, (nat \<times> nat) list, mem_store, nat) node_chain" where
  "example_node_state st = \<lparr>nc_ref_cache = lru_put recency_ops (lru_new recency_ops 4) 1 example_ref0,
     nc_ledgers = [], nc_storage = st, nc_block0 = 1, nc_rewards_report_all = False\<rparr>"

lemmas example_node_defs = example_node_ops_def example_chain_ops_def example_ref0_def example_ref1_def block0_ref_def
  example_block_def plain_block_def ref_defs

lemma example_cache: "lru_iter recency_ops (nc_ref_cache (example_node_state st)) = [(1, example_ref0)]"
  by (simp add: example_node_state_def recency.iter_put recency.cap_new recency.iter_new)

lemma example_history: "node_history example_node_ops [example_ref0]"
  by (rule history_block0) (simp_all add: example_node_defs)

lemma example_node_inv: "node_inv example_node_ops recency_ops (example_node_state st)"
proof -
  have "valid_ref example_node_ops example_ref0" using example_history by (auto simp: valid_ref_def)
  moreover have "ref_hash example_ref0 = 1" by (simp add: example_node_defs)
  ultimately show ?thesis
    by (simp add: node_inv_def cache_valid_def example_cache) (simp add: example_node_state_def recency.cap_put recency.cap_new)
qed

lemma example_step: "step_ref example_node_ops False example_ref0 (plain_block 2 1 1) = Some example_ref1"
  by (simp add: step_ref_def new_epoch_leadership_from_def rewards_distributable_def applied_ref_def example_node_defs)

lemma example_history1: "node_history example_node_ops [example_ref1, example_ref0]"
  by (rule history_extend [OF example_history]) (simp add: extends_def example_node_defs)

definition example_node_store :: mem_store where
  "example_node_store = \<lparr>ms_blocks = [stored 2 1 1, stored 1 0 0], ms_tags = [(main_branch_tag, replicate 2 0)]\<rparr>"

theorem bootstrap_block_accepts_witness:
  "\<exists>s'. handle_bootstrap_block example_node_ops recency_ops mem_store_ops (plain_block 2 1 1) Enabled
     (example_node_state example_node_store) = Some (Inr example_ref1, s')"
proof -
  let ?s = "example_node_state example_node_store" and ?b = "plain_block 2 1 1"
  have st: "nc_storage ?s = example_node_store" "nc_rewards_report_all ?s = False" by (simp_all add: example_node_state_def)
  have ex: "storage_block_exists mem_store_ops (nc_storage ?s) (h_block_parent_hash (b_header ?b)) = Inr True"
    unfolding st by code_simp
  have "map_option fst (storage_put_block mem_store_ops ?b example_node_store) = Some (Inl BlockAlreadyPresent)" by code_simp
  then obtain st' where put: "storage_put_block mem_store_ops ?b example_node_store = Some (Inl BlockAlreadyPresent, st')" by auto
  obtain el lg where el: "new_epoch_leadership_from example_node_ops (epoch (h_block_date (b_header ?b))) example_ref0 False = Some el"
      "ledger_apply_block (n_chain example_node_ops) (el_state el) (b_contents ?b) (b_header ?b) = Inr lg"
      "rewards_distributable example_node_ops False (el_leadership el) lg" "example_ref1 = applied_ref (b_header ?b) el lg"
      "ref_block_date example_ref0 < h_block_date (b_header ?b)"
      "h_chain_length (b_header ?b) = chain_length_next example_node_ops (ref_chain_length example_ref0)"
    using example_step by (auto simp: step_ref_Some)
  have "leadership_verify (n_chain example_node_ops) (el_leadership el) (b_header ?b) = None"
    by (simp add: example_node_defs)
  moreover have "map_of (lru_iter recency_ops (nc_ref_cache ?s)) (h_block_parent_hash (b_header ?b)) = Some example_ref0"
    by (simp add: example_cache plain_block_def)
  ultimately show ?thesis
    unfolding bootstrap_block_accepts [OF example_node.node_refs_axioms example_node_inv ex] st
    using el put by blast
qed

theorem node_checkpoints_correct_witness:
  "\<exists>ps. node_checkpoints example_node_ops example_ref1 = [2, 1] @ map ref_hash ps"
  using node_checkpoints_correct [OF example_history1] by (auto simp: example_node_defs)

lemma example_load_facts:
  "storage_block_exists mem_store_ops example_node_store (h_hash (b_header (example_block 1 0 0))) = Inr True"
  "storage_get_tag mem_store_ops example_node_store main_branch_tag = Inr (Some 2)"
  "stream_from_to mem_store_ops example_node_store (h_hash (b_header (example_block 1 0 0))) 2 = Inr (map Inr [plain_block 2 1 1])"
  "start_time (example_block 1 0 0) = Some (Inr 5)" "slot_duration (example_block 1 0 0) = Inr 1"
  "ledger_new (n_chain example_node_ops) (h_hash (b_header (example_block 1 0 0))) (b_contents (example_block 1 0 0)) = Inr 0"
proof -
  show "storage_block_exists mem_store_ops example_node_store (h_hash (b_header (example_block 1 0 0))) = Inr True" by code_simp
  show "storage_get_tag mem_store_ops example_node_store main_branch_tag = Inr (Some 2)" by code_simp
  show "stream_from_to mem_store_ops example_node_store (h_hash (b_header (example_block 1 0 0))) 2 = Inr (map Inr [plain_block 2 1 1])"
    by code_simp
qed (simp_all add: start_time_def slot_duration_def unix_epoch_plus_def example_node_defs)

lemma example_holds: "holds_blocks mem_store_ops example_node_store [plain_block 2 1 1]"
proof -
  have "map_option fst (storage_put_block mem_store_ops (plain_block 2 1 1) example_node_store) = Some (Inl BlockAlreadyPresent)"
    "map_option (ms_blocks \<circ> snd) (storage_put_block mem_store_ops (plain_block 2 1 1) example_node_store) = Some (ms_blocks example_node_store)"
    "map_option (ms_tags \<circ> snd) (storage_put_block mem_store_ops (plain_block 2 1 1) example_node_store) = Some (ms_tags example_node_store)"
    by code_simp+
  then have "storage_put_block mem_store_ops (plain_block 2 1 1) example_node_store = Some (Inl BlockAlreadyPresent, example_node_store)"
    by auto
  moreover have "storage_block_exists mem_store_ops example_node_store (h_block_parent_hash (b_header (plain_block 2 1 1))) = Inr True"
    by code_simp
  moreover have "\<exists>raw. block_serialize mem_store_ops (plain_block 2 1 1) = Inr raw"
    by (simp add: mem_store_ops_def ms_block_serialize_def plain_block_def)
  ultimately show ?thesis by (simp add: holds_blocks_def ex_bool_eq)
qed

lemma example_replay:
  "replay example_node_ops False (block0_ref example_node_ops (example_block 1 0 0) 5 1 0) [plain_block 2 1 1] = Some example_ref1"
  using example_step by (simp add: example_ref0_def)

lemma example_clock: "mono (\<lambda>i. i :: nat)"
  by (simp add: mono_def)

definition example_fresh ::
  "((nat, (nat, unit, nat, unit, unit, unit) noderef) recency_list, (nat \<times> nat) list, mem_store, nat) node_chain" where
  "example_fresh = node_chain_new example_node_ops recency_ops 1 example_node_store 4 False"

lemma example_fresh_fields: "nc_storage example_fresh = example_node_store" "nc_rewards_report_all example_fresh = False"
  by (simp_all add: example_fresh_def node_chain_new_def)

lemma example_fresh_inv: "node_inv example_node_ops recency_ops example_fresh"
  unfolding example_fresh_def by (rule example_node.new_inv) simp

lemmas example_load = example_load_facts [folded example_fresh_fields(1)] example_holds [folded example_fresh_fields(1)]
  example_replay [folded example_fresh_fields(2)]

theorem load_from_storage_replays_witness:
  "\<exists>s'. load_from_storage example_node_ops recency_ops mem_store_ops (\<lambda>i. i) (example_block 1 0 0) example_fresh
     = Some (Inr example_ref1, s')"
  using load_from_storage_replays [OF example_node.node_refs_axioms example_fresh_inv example_clock example_load] by blast


end
