(* ===== verification/Header_Candidate.thy ===== *)
theory Header_Candidate
  imports Node_Chain
begin

text \<open>
  The processing of a stream of block headers received from a peer,
  \<^verbatim>\<open>jormungandr/src/blockchain/candidate.rs\<close>: skip the blocks already present, check that the rest forms a
  chain on top of a known block, and collect the hashes to request, at most 32 at a time. A stream is the list
  of the headers it delivers until it ends.
\<close>

datatype ('hid, 'e, 'io) candidate_error =
    EmptyHeaderStream
  | CandidateBlockchain "('hid, 'e, 'io) chain_error"
  | CandidateMissingParent 'hid
  | BrokenHeaderChain 'hid
  | HeaderChainVerificationFailed "'e header_chain_verify_error"

text \<open>\<^verbatim>\<open>chunk_sizes::BLOCKS\<close>\<close>

definition chunk_blocks :: nat where
  "chunk_blocks = 32"

fun landing_start :: "'h list \<Rightarrow> (('hid, 'e, 'io) candidate_error, 'h \<times> 'h list) result" where
  "landing_start [] = Inl EmptyHeaderStream"
| "landing_start (header # stream) = Inr (header, stream)"

fun skip_present_blocks ::
  "('hid, 'x, 'f, 'q, 'lg, 'ld, 'e, 'tf, 'rw, 'mv) node_ops \<Rightarrow> ('c, 'hid, 'x, 'lg, 'ld, 'tf, 'rw) ref_cache_ops
    \<Rightarrow> ('s, 'hid, 'x, 'f, 'q, 'io) store_ops \<Rightarrow> ('hid, 'x) header \<Rightarrow> ('hid, 'x) header list
    \<Rightarrow> (('c, 'mv, 's, 'hid) node_chain, ('hid, 'e, 'io) candidate_error, (('hid, 'x) header \<times> ('hid, 'x) header list) option) action" where
  "skip_present_blocks N L S header [] =
     act_bind (act_map_err CandidateBlockchain (pre_check_header N L S header False)) (\<lambda>pre_checked.
       case pre_checked of
         AlreadyPresent _ _ \<Rightarrow> act_return None
       | HeaderWithCache header _ \<Rightarrow> act_return (Some (header, []))
       | MissingParentOf header \<Rightarrow> act_throw (CandidateMissingParent (h_block_parent_hash header)))"
| "skip_present_blocks N L S header (next_header # stream) =
     act_bind (act_map_err CandidateBlockchain (pre_check_header N L S header False)) (\<lambda>pre_checked.
       case pre_checked of
         AlreadyPresent _ _ \<Rightarrow> skip_present_blocks N L S next_header stream
       | HeaderWithCache header _ \<Rightarrow> act_return (Some (header, next_header # stream))
       | MissingParentOf header \<Rightarrow> act_throw (CandidateMissingParent (h_block_parent_hash header)))"

record ('hid, 'x) chain_advance =
  ca_stream :: "('hid, 'x) header list"
  ca_parent_header :: "('hid, 'x) header"
  ca_header :: "('hid, 'x) header option"
  ca_new_hashes :: "'hid list"

datatype outcome = Incomplete | Complete

definition process_header ::
  "('hid, 'x, 'f, 'q, 'lg, 'ld, 'e, 'tf, 'rw, 'mv) node_ops \<Rightarrow> ('hid, 'x) chain_advance \<Rightarrow> ('hid, 'x) header
    \<Rightarrow> (('hid, 'e, 'io) candidate_error, ('hid, 'x) chain_advance) result option" where
  "process_header N ca header =
     (if h_block_parent_hash header \<noteq> h_hash (ca_parent_header ca)
      then Some (Inl (BrokenHeaderChain (h_block_parent_hash header)))
      else do {
        verified \<leftarrow> pre_verify_link N header (ca_parent_header ca);
        Some (case verified of
           Inl e \<Rightarrow> Inl (HeaderChainVerificationFailed e)
         | Inr _ \<Rightarrow> Inr (ca\<lparr>ca_new_hashes := ca_new_hashes ca @ [h_hash header], ca_parent_header := header\<rparr>))
      })"

lemma process_header_Inr:
  "process_header N ca header = Some (Inr ca') \<longleftrightarrow>
     pre_verify_link N header (ca_parent_header ca) = Some (Inr ()) \<and>
     ca' = ca\<lparr>ca_new_hashes := ca_new_hashes ca @ [h_hash header], ca_parent_header := header\<rparr>"
proof (cases "pre_verify_link N header (ca_parent_header ca)")
  case (Some v)
  then show ?thesis by (cases v) (auto simp: process_header_def pre_verify_link_def split: if_splits)
qed (auto simp: process_header_def)

lemma process_header_fields:
  "process_header N ca header = Some (Inr ca') \<Longrightarrow> ca_stream ca' = ca_stream ca \<and> ca_header ca' = ca_header ca"
  by (simp add: process_header_Inr)

text \<open>Each round of \<^verbatim>\<open>poll_done\<close> consumes a header, so the rounds are bounded by the headers left.\<close>

function poll_done ::
  "('hid, 'x, 'f, 'q, 'lg, 'ld, 'e, 'tf, 'rw, 'mv) node_ops \<Rightarrow> ('hid, 'x) chain_advance
    \<Rightarrow> (('hid, 'e, 'io) candidate_error, outcome \<times> ('hid, 'x) chain_advance) result option" where
  "poll_done N ca =
     (case (case ca_header ca of
              Some header \<Rightarrow> Some (header, ca\<lparr>ca_header := None\<rparr>)
            | None \<Rightarrow> (case ca_stream ca of
                        header # stream \<Rightarrow> Some (header, ca\<lparr>ca_stream := stream\<rparr>)
                      | [] \<Rightarrow> None)) of
        None \<Rightarrow> Some (Inr (Complete, ca))
      | Some (header, ca1) \<Rightarrow>
          (case process_header N ca1 header of
             None \<Rightarrow> None
           | Some (Inl e) \<Rightarrow> Some (Inl e)
           | Some (Inr ca2) \<Rightarrow>
               if chunk_blocks \<le> length (ca_new_hashes ca2) then Some (Inr (Incomplete, ca2)) else poll_done N ca2))"
  by pat_completeness auto

termination
  by (relation "measure (\<lambda>(N, ca). length (ca_stream ca) + (case ca_header ca of None \<Rightarrow> 0 | Some _ \<Rightarrow> 1))")
    (auto dest!: process_header_fields split: option.splits list.splits)

declare poll_done.simps [simp del]

definition land_header_chain ::
  "('hid, 'x, 'f, 'q, 'lg, 'ld, 'e, 'tf, 'rw, 'mv) node_ops \<Rightarrow> ('c, 'hid, 'x, 'lg, 'ld, 'tf, 'rw) ref_cache_ops
    \<Rightarrow> ('s, 'hid, 'x, 'f, 'q, 'io) store_ops \<Rightarrow> ('hid, 'x) header list
    \<Rightarrow> (('c, 'mv, 's, 'hid) node_chain, ('hid, 'e, 'io) candidate_error, ('hid, 'x) chain_advance option) action" where
  "land_header_chain N L S stream =
     act_bind (act_result (landing_start stream)) (\<lambda>(first, rest).
     act_bind (skip_present_blocks N L S first rest) (\<lambda>maybe_new.
     act_return (case maybe_new of
         Some (header, stream) \<Rightarrow> Some \<lparr>ca_stream = stream, ca_parent_header = header, ca_header = None,
                                       ca_new_hashes = [h_hash header]\<rparr>
       | None \<Rightarrow> None)))"

text \<open>The hashes to request, and the rest of the stream when the limit was reached.\<close>

definition advance_branch ::
  "('hid, 'x, 'f, 'q, 'lg, 'ld, 'e, 'tf, 'rw, 'mv) node_ops \<Rightarrow> ('c, 'hid, 'x, 'lg, 'ld, 'tf, 'rw) ref_cache_ops
    \<Rightarrow> ('s, 'hid, 'x, 'f, 'q, 'io) store_ops \<Rightarrow> ('hid, 'x) header list
    \<Rightarrow> (('c, 'mv, 's, 'hid) node_chain, ('hid, 'e, 'io) candidate_error, 'hid list \<times> ('hid, 'x) header list option) action" where
  "advance_branch N L S header_stream =
     act_bind (land_header_chain N L S header_stream) (\<lambda>advance.
       case advance of
         None \<Rightarrow> act_return ([], None)
       | Some ca \<Rightarrow>
           act_bind (act_unwrap (poll_done N ca)) (\<lambda>polled.
           act_bind (act_result polled) (\<lambda>(result, ca').
           act_return (ca_new_hashes ca', case result of Complete \<Rightarrow> None | Incomplete \<Rightarrow> Some (ca_stream ca')))))"

section \<open>Chains of headers\<close>

text \<open>Each header of the list links to the one before it, the first one to the given header.\<close>

fun linked ::
  "('hid, 'x, 'f, 'q, 'lg, 'ld, 'e, 'tf, 'rw, 'mv) node_ops \<Rightarrow> ('hid, 'x) header \<Rightarrow> ('hid, 'x) header list \<Rightarrow> bool" where
  "linked N parent [] \<longleftrightarrow> True"
| "linked N parent (h # hs) \<longleftrightarrow> pre_verify_link N h parent = Some (Inr ()) \<and> linked N h hs"

lemma linked_append: "linked N p (xs @ [h]) \<longleftrightarrow> linked N p xs \<and> pre_verify_link N h (last (p # xs)) = Some (Inr ())"
  by (induction xs arbitrary: p) auto

definition advanced :: "('hid, 'x) chain_advance \<Rightarrow> ('hid, 'x) header \<Rightarrow> ('hid, 'x) header list \<Rightarrow> ('hid, 'x) chain_advance" where
  "advanced ca h stream =
     ca\<lparr>ca_stream := stream, ca_new_hashes := ca_new_hashes ca @ [h_hash h], ca_parent_header := h\<rparr>"

lemma process_header_link:
  "pre_verify_link N h (ca_parent_header ca) = Some (Inr ()) \<Longrightarrow>
     process_header N (ca\<lparr>ca_stream := stream\<rparr>) h = Some (Inr (advanced ca h stream))"
  by (simp add: process_header_Inr advanced_def)

lemma poll_done_Nil: "ca_header ca = None \<Longrightarrow> ca_stream ca = [] \<Longrightarrow> poll_done N ca = Some (Inr (Complete, ca))"
  by (simp add: poll_done.simps [of N ca])

lemma poll_done_link:
  assumes "ca_header ca = None" and "ca_stream ca = h # stream" and "pre_verify_link N h (ca_parent_header ca) = Some (Inr ())"
  shows "poll_done N ca =
    (if chunk_blocks \<le> Suc (length (ca_new_hashes ca)) then Some (Inr (Incomplete, advanced ca h stream))
     else poll_done N (advanced ca h stream))"
  using assms by (simp add: poll_done.simps [of N ca] process_header_link) (simp add: advanced_def)

lemma poll_done_no_link:
  assumes "ca_header ca = None" and "ca_stream ca = h # stream" and "pre_verify_link N h (ca_parent_header ca) \<noteq> Some (Inr ())"
  shows "poll_done N ca \<noteq> None" and "poll_done N ca \<noteq> Some (Inr y)"
  using assms by (auto simp: poll_done.simps [of N ca] process_header_def pre_verify_link_def)

lemma poll_done_total: "ca_header ca = None \<Longrightarrow> poll_done N ca \<noteq> None"
proof (induction "length (ca_stream ca)" arbitrary: ca rule: less_induct)
  case less
  show ?case
  proof (cases "ca_stream ca")
    case Nil
    then show ?thesis using less.prems by (simp add: poll_done_Nil)
  next
    case (Cons h stream)
    show ?thesis
    proof (cases "pre_verify_link N h (ca_parent_header ca) = Some (Inr ())")
      case True
      then show ?thesis
        using less.hyps [of "advanced ca h stream"] less.prems Cons
        by (simp add: poll_done_link [OF less.prems Cons]) (simp add: advanced_def)
    next
      case False
      then show ?thesis
        by (rule poll_done_no_link(1) [OF less.prems Cons])
    qed
  qed
qed

text \<open>The headers taken from the stream form a chain on the parent header, up to the limit.\<close>

lemma poll_done_Inr:
  assumes "poll_done N ca = Some (Inr (result, ca'))" and "ca_header ca = None" and "length (ca_new_hashes ca) < chunk_blocks"
  shows "\<exists>hs. ca_stream ca = hs @ ca_stream ca' \<and> linked N (ca_parent_header ca) hs \<and>
     ca_new_hashes ca' = ca_new_hashes ca @ map h_hash hs \<and> length (ca_new_hashes ca') \<le> chunk_blocks \<and>
     (result = Complete \<longrightarrow> ca_stream ca' = [] \<and> length (ca_new_hashes ca') < chunk_blocks) \<and> (result = Incomplete \<longrightarrow> length (ca_new_hashes ca') = chunk_blocks)"
  using assms
proof (induction "length (ca_stream ca)" arbitrary: ca rule: less_induct)
  case less
  show ?case
  proof (cases "ca_stream ca")
    case Nil
    then show ?thesis using less.prems by (simp add: poll_done_Nil)
  next
    case (Cons h stream)
    have link: "pre_verify_link N h (ca_parent_header ca) = Some (Inr ())"
    proof (rule ccontr)
      assume no: "pre_verify_link N h (ca_parent_header ca) \<noteq> Some (Inr ())"
      show False using less.prems(1) by (simp add: poll_done_no_link(2) [OF less.prems(2) Cons no])
    qed
    note eq = less.prems(1) [unfolded poll_done_link [OF less.prems(2) Cons link]]
    show ?thesis
    proof (cases "chunk_blocks \<le> Suc (length (ca_new_hashes ca))")
      case True
      then have "result = Incomplete" "ca' = advanced ca h stream" using eq by auto
      then show ?thesis
        using True link Cons less.prems(3) by (intro exI [of _ "[h]"]) (auto simp: advanced_def)
    next
      case False
      obtain hs where "ca_stream (advanced ca h stream) = hs @ ca_stream ca'" "linked N h hs"
          "ca_new_hashes ca' = ca_new_hashes ca @ h_hash h # map h_hash hs" "length (ca_new_hashes ca') \<le> chunk_blocks"
          "result = Complete \<longrightarrow> ca_stream ca' = [] \<and> length (ca_new_hashes ca') < chunk_blocks"
          "result = Incomplete \<longrightarrow> length (ca_new_hashes ca') = chunk_blocks"
        using less.hyps [of "advanced ca h stream"] eq False Cons less.prems(2) by (auto simp: advanced_def)
      then show ?thesis using link Cons by (intro exI [of _ "h # hs"]) (auto simp: advanced_def)
    qed
  qed
qed

section \<open>Landing\<close>

text \<open>The headers of a stream up to the first one that is not known, which links to a known block.\<close>

definition landed ::
  "('hid, 'x, 'f, 'q, 'lg, 'ld, 'e, 'tf, 'rw, 'mv) node_ops \<Rightarrow> ('hid \<rightharpoonup> ('hid, 'x, 'lg, 'ld, 'tf, 'rw) noderef)
    \<Rightarrow> ('hid, 'x) header list \<Rightarrow> (('hid, 'x) header \<times> ('hid, 'x) header list) option \<Rightarrow> bool" where
  "landed N known headers landing \<longleftrightarrow>
     (\<exists>skipped. (\<forall>h\<in>set skipped. known (h_hash h) \<noteq> None) \<and>
       (case landing of
          None \<Rightarrow> headers = skipped
        | Some (h, rest) \<Rightarrow> headers = skipped @ h # rest \<and> known (h_hash h) = None \<and>
            (\<exists>p. known (h_block_parent_hash h) = Some p \<and> pre_verify_link N h (ref_header p) = Some (Inr ()))))"

lemma landed_Nil: "landed N known [] None"
  by (simp add: landed_def)

lemma landed_skip:
  assumes "landed N known headers landing" and "known (h_hash h) = Some r"
  shows "landed N known (h # headers) landing"
proof -
  obtain skipped where "\<forall>h\<in>set skipped. known (h_hash h) \<noteq> None"
    "case landing of
        None \<Rightarrow> headers = skipped
      | Some (h, rest) \<Rightarrow> headers = skipped @ h # rest \<and> known (h_hash h) = None \<and>
          (\<exists>p. known (h_block_parent_hash h) = Some p \<and> pre_verify_link N h (ref_header p) = Some (Inr ()))"
    using assms(1) unfolding landed_def by blast
  then show ?thesis
    using assms(2) unfolding landed_def by (intro exI [of _ "h # skipped"]) (auto split: option.splits)
qed

lemma landed_here:
  assumes "known (h_block_parent_hash h) = Some p" and "known (h_hash h) = None"
    and "pre_verify_link N h (ref_header p) = Some (Inr ())"
  shows "landed N known (h # rest) (Some (h, rest))"
  using assms unfolding landed_def by (intro exI [of _ "[]"]) auto

declare skip_present_blocks.simps [simp del]

context node_refs
begin

text \<open>Looking up a header changes only the order of use in the cache.\<close>

lemma pre_check_Inr:
  assumes "pre_check_header N L S header False s = Some (Inr pre, s')"
  shows "map_of (lru_iter L (nc_ref_cache s')) = map_of (lru_iter L (nc_ref_cache s)) \<and>
    (case pre of
       AlreadyPresent h r \<Rightarrow> h = header \<and> r = map_of (lru_iter L (nc_ref_cache s)) (h_hash header) \<and> r \<noteq> None
     | MissingParentOf h \<Rightarrow> h = header \<and> map_of (lru_iter L (nc_ref_cache s)) (h_block_parent_hash header) = None
     | HeaderWithCache h p \<Rightarrow> h = header \<and> map_of (lru_iter L (nc_ref_cache s)) (h_block_parent_hash header) = Some p \<and>
         map_of (lru_iter L (nc_ref_cache s)) (h_hash header) = None \<and>
         pre_verify_link N header (ref_header p) = Some (Inr ()))"
proof -
  let ?m = "map_of (lru_iter L (nc_ref_cache s))"
  obtain a b where ex: "storage_block_exists S (nc_storage s) (h_hash header) = Inr a"
      "storage_block_exists S (nc_storage s) (h_block_parent_hash header) = Inr b"
    using assms
    by (cases "storage_block_exists S (nc_storage s) (h_hash header)";
        cases "storage_block_exists S (nc_storage s) (h_block_parent_hash header)")
      (auto simp: pre_check_header_def load_header_parent_def act_bind_def get_ref_eq)
  show ?thesis
  proof (cases "?m (h_hash header)")
    case (Some r)
    then show ?thesis using assms ex
      by (auto simp: pre_check_header_def load_header_parent_def act_bind_def get_ref_eq map_of_get)
  next
    case None
    note self = None
    show ?thesis
    proof (cases "?m (h_block_parent_hash header)")
      case None
      then show ?thesis using assms ex self
        by (auto simp: pre_check_header_def load_header_parent_def act_bind_def get_ref_eq map_of_get)
    next
      case (Some p)
      then show ?thesis using assms ex self
        by (cases "pre_verify_link N header (ref_header p)"; cases "the (pre_verify_link N header (ref_header p))")
          (auto simp: pre_check_header_def load_header_parent_def act_bind_def get_ref_eq map_of_get)
    qed
  qed
qed

lemma pre_check_total:
  assumes "node_inv N L s"
  shows "pre_check_header N L S header False s \<noteq> None"
proof -
  have "pre_verify_link N header (ref_header p) \<noteq> None"
    if "map_of (lru_iter L (nc_ref_cache s)) (h_block_parent_hash header) = Some p" for p
    using cached_valid [OF assms that] valid_ref_hash [of N p] by (auto simp: pre_verify_link_def)
  then show ?thesis
    by (cases "storage_block_exists S (nc_storage s) (h_hash header)";
        cases "storage_block_exists S (nc_storage s) (h_block_parent_hash header)";
        cases "map_of (lru_iter L (nc_ref_cache s)) (h_hash header)";
        cases "map_of (lru_iter L (nc_ref_cache s)) (h_block_parent_hash header)")
      (auto simp: pre_check_header_def load_header_parent_def act_bind_def act_unwrap_def get_ref_eq map_of_get split: option.splits)
qed

text \<open>One step of the landing, whatever follows it in the stream.\<close>

lemma skip_present_step:
  assumes "node_inv N L s" and "pre_check_header N L S h False s = Some (Inr pre, s1)"
  shows "skip_present_blocks N L S h stream s =
    (case pre of
       AlreadyPresent _ _ \<Rightarrow> (case stream of [] \<Rightarrow> Some (Inr None, s1) | h' # hs \<Rightarrow> skip_present_blocks N L S h' hs s1)
     | HeaderWithCache h p \<Rightarrow> Some (Inr (Some (h, stream)), s1)
     | MissingParentOf h \<Rightarrow> Some (Inl (CandidateMissingParent (h_block_parent_hash h)), s1))"
  using assms(2)
  by (cases stream; cases pre) (simp_all add: skip_present_blocks.simps act_bind_def act_map_err_def)

lemma skip_present_error:
  assumes "pre_check_header N L S h False s = Some (Inl e, s1)"
  shows "skip_present_blocks N L S h stream s = Some (Inl (CandidateBlockchain e), s1)"
  using assms by (cases stream) (simp_all add: skip_present_blocks.simps act_bind_def act_map_err_def)

lemma skip_present_spec:
  assumes "node_inv N L s"
  shows "\<exists>res s'. skip_present_blocks N L S h stream s = Some (res, s') \<and> node_inv N L s' \<and>
    (\<forall>landing. res = Inr landing \<longrightarrow> map_of (lru_iter L (nc_ref_cache s')) = map_of (lru_iter L (nc_ref_cache s)) \<and>
      landed N (map_of (lru_iter L (nc_ref_cache s))) (h # stream) landing)"
  using assms
proof (induction stream arbitrary: h s)
  case (Nil h s)
  obtain r s1 where pc: "pre_check_header N L S h False s = Some (r, s1)" using pre_check_total [OF Nil, of S h] by auto
  have inv1: "node_inv N L s1" by (rule keepsD [OF pre_check_keeps Nil pc])
  show ?case
  proof (cases r)
    case (Inl e)
    then show ?thesis using skip_present_error [OF pc [unfolded Inl]] inv1 by simp
  next
    case (Inr pre)
    show ?thesis
      using skip_present_step [OF Nil pc [unfolded Inr]] pre_check_Inr [OF pc [unfolded Inr]] inv1
      by (cases pre) (auto intro: landed_Nil landed_skip landed_here)
  qed
next
  case (Cons x xs h s)
  obtain r s1 where pc: "pre_check_header N L S h False s = Some (r, s1)" using pre_check_total [OF Cons.prems, of S h] by auto
  have inv1: "node_inv N L s1" by (rule keepsD [OF pre_check_keeps Cons.prems pc])
  show ?case
  proof (cases r)
    case (Inl e)
    then show ?thesis using skip_present_error [OF pc [unfolded Inl]] inv1 by simp
  next
    case (Inr pre)
    show ?thesis
      using skip_present_step [OF Cons.prems pc [unfolded Inr]] pre_check_Inr [OF pc [unfolded Inr]] inv1
        Cons.IH [OF inv1, of x]
      by (cases pre) (auto intro: landed_Nil landed_skip landed_here)
  qed
qed

end

section \<open>A stream of headers\<close>

text \<open>
  What a peer may expect of a stream of headers: the known ones are skipped, and the ones requested form a chain
  on a known block.
\<close>

definition branch_of ::
  "('hid, 'x, 'f, 'q, 'lg, 'ld, 'e, 'tf, 'rw, 'mv) node_ops \<Rightarrow> ('hid \<rightharpoonup> ('hid, 'x, 'lg, 'ld, 'tf, 'rw) noderef)
    \<Rightarrow> ('hid, 'x) header list \<Rightarrow> 'hid list \<Rightarrow> ('hid, 'x) header list option \<Rightarrow> bool" where
  "branch_of N known stream wanted rest \<longleftrightarrow>
     (\<exists>skipped new. stream = skipped @ new @ (case rest of None \<Rightarrow> [] | Some later \<Rightarrow> later) \<and>
        (\<forall>h\<in>set skipped. known (h_hash h) \<noteq> None) \<and> wanted = map h_hash new \<and>
        (case new of [] \<Rightarrow> rest = None
         | h # _ \<Rightarrow> known (h_hash h) = None \<and>
             (\<exists>p. known (h_block_parent_hash h) = Some p \<and> linked N (ref_header p) new)) \<and>
        (if rest = None then length wanted < chunk_blocks else length wanted = chunk_blocks))"

lemma branch_of_None: "landed N known stream None \<Longrightarrow> branch_of N known stream [] None"
  by (auto simp: landed_def branch_of_def chunk_blocks_def)

lemma branch_of_Some:
  assumes "landed N known stream (Some (h, later))"
    and "later = hs @ left" and "linked N h hs" and "wanted = h_hash h # map h_hash hs"
    and "outcome = Complete \<longrightarrow> left = [] \<and> length wanted < chunk_blocks"
    and "outcome = Incomplete \<longrightarrow> length wanted = chunk_blocks"
  shows "branch_of N known stream wanted (case outcome of Complete \<Rightarrow> None | Incomplete \<Rightarrow> Some left)"
proof -
  obtain skipped p where "stream = skipped @ h # later" "\<forall>h\<in>set skipped. known (h_hash h) \<noteq> None"
      "known (h_hash h) = None" "known (h_block_parent_hash h) = Some p" "pre_verify_link N h (ref_header p) = Some (Inr ())"
    using assms(1) by (auto simp: landed_def)
  then show ?thesis
    using assms(2-) unfolding branch_of_def by (intro exI [of _ skipped] exI [of _ "h # hs"]) (cases outcome; auto)
qed

definition landing_advance :: "('hid, 'x) header \<times> ('hid, 'x) header list \<Rightarrow> ('hid, 'x) chain_advance" where
  "landing_advance = (\<lambda>(header, stream).
     \<lparr>ca_stream = stream, ca_parent_header = header, ca_header = None, ca_new_hashes = [h_hash header]\<rparr>)"

lemma landing_advance_total: "poll_done N (landing_advance l) \<noteq> None"
  by (rule poll_done_total) (simp add: landing_advance_def split: prod.splits)

lemma poll_landed:
  assumes "landed N known stream (Some (h, later))"
    and "poll_done N (landing_advance (h, later)) = Some (Inr (outcome, ca))"
  shows "branch_of N known stream (ca_new_hashes ca) (case outcome of Complete \<Rightarrow> None | Incomplete \<Rightarrow> Some (ca_stream ca))"
proof -
  let ?ca = "landing_advance (h, later)"
  have "ca_header ?ca = None" "length (ca_new_hashes ?ca) < chunk_blocks"
    by (simp_all add: landing_advance_def chunk_blocks_def)
  from poll_done_Inr [OF assms(2) this] obtain hs where
    "ca_stream ?ca = hs @ ca_stream ca" "linked N (ca_parent_header ?ca) hs"
    "ca_new_hashes ca = ca_new_hashes ?ca @ map h_hash hs"
    "outcome = Complete \<longrightarrow> ca_stream ca = [] \<and> length (ca_new_hashes ca) < chunk_blocks"
    "outcome = Incomplete \<longrightarrow> length (ca_new_hashes ca) = chunk_blocks"
    by blast
  then show ?thesis by (intro branch_of_Some [OF assms(1)]) (simp_all add: landing_advance_def)
qed

text \<open>A stream of known headers is skipped as a whole.\<close>

context node_refs
begin

lemma pre_check_known:
  assumes "map_of (lru_iter L (nc_ref_cache s)) (h_hash header) = Some r" and "\<And>h. \<exists>b. storage_block_exists S (nc_storage s) h = Inr b"
  shows "\<exists>s'. pre_check_header N L S header False s = Some (Inr (AlreadyPresent header (Some r)), s') \<and>
    nc_storage s' = nc_storage s \<and> map_of (lru_iter L (nc_ref_cache s')) = map_of (lru_iter L (nc_ref_cache s))"
proof -
  obtain a b where "storage_block_exists S (nc_storage s) (h_hash header) = Inr a"
      "storage_block_exists S (nc_storage s) (h_block_parent_hash header) = Inr b"
    using assms(2) by meson
  then show ?thesis
    using assms(1) by (simp add: pre_check_header_def load_header_parent_def act_bind_def get_ref_eq map_of_get)
qed

lemma skip_known:
  assumes "node_inv N L s" and "\<forall>x\<in>set (h # stream). map_of (lru_iter L (nc_ref_cache s)) (h_hash x) \<noteq> None"
    and "\<And>h. \<exists>b. storage_block_exists S (nc_storage s) h = Inr b"
  shows "\<exists>s'. skip_present_blocks N L S h stream s = Some (Inr None, s')"
  using assms
proof (induction stream arbitrary: h s)
  case (Nil h s)
  obtain r where "map_of (lru_iter L (nc_ref_cache s)) (h_hash h) = Some r" using Nil(2) by auto
  from pre_check_known [OF this Nil(3)] skip_present_step [OF Nil(1)] show ?case by fastforce
next
  case (Cons x xs h s)
  obtain r where "map_of (lru_iter L (nc_ref_cache s)) (h_hash h) = Some r" using Cons.prems(2) by auto
  from pre_check_known [OF this Cons.prems(3)] obtain s1 where
    pc: "pre_check_header N L S h False s = Some (Inr (AlreadyPresent h (Some r)), s1)"
    and same: "nc_storage s1 = nc_storage s" "map_of (lru_iter L (nc_ref_cache s1)) = map_of (lru_iter L (nc_ref_cache s))"
    by blast
  have "node_inv N L s1" by (rule keepsD [OF pre_check_keeps Cons.prems(1) pc])
  then have "\<exists>s'. skip_present_blocks N L S x xs s1 = Some (Inr None, s')"
    using Cons.prems(2,3) same by (intro Cons.IH) auto
  then show ?case using skip_present_step [OF Cons.prems(1) pc, of "x # xs"] by simp
qed

end

lemma advance_branch_Cons:
  "advance_branch N L S (h # stream) s =
     (case skip_present_blocks N L S h stream s of
        None \<Rightarrow> None
      | Some (Inl e, s1) \<Rightarrow> Some (Inl e, s1)
      | Some (Inr None, s1) \<Rightarrow> Some (Inr ([], None), s1)
      | Some (Inr (Some landing), s1) \<Rightarrow>
          (case poll_done N (landing_advance landing) of
             None \<Rightarrow> None
           | Some (Inl e) \<Rightarrow> Some (Inl e, s1)
           | Some (Inr (outcome, ca)) \<Rightarrow>
               Some (Inr (ca_new_hashes ca, case outcome of Complete \<Rightarrow> None | Incomplete \<Rightarrow> Some (ca_stream ca)), s1)))"
  by (auto simp: advance_branch_def land_header_chain_def act_bind_def act_unwrap_def landing_advance_def
      split: option.splits sum.splits prod.splits)

context node_refs
begin

lemma advance_branch_spec:
  assumes "node_inv N L s"
  shows "case advance_branch N L S stream s of
      None \<Rightarrow> False
    | Some (Inl e, s') \<Rightarrow> node_inv N L s'
    | Some (Inr (wanted, rest), s') \<Rightarrow> node_inv N L s' \<and> stream \<noteq> [] \<and>
        branch_of N (map_of (lru_iter L (nc_ref_cache s))) stream wanted rest"
proof (cases stream)
  case Nil
  then show ?thesis using assms by (simp add: advance_branch_def land_header_chain_def act_bind_def)
next
  case (Cons h later)
  obtain res s' where skip: "skip_present_blocks N L S h later s = Some (res, s')" "node_inv N L s'"
    "\<forall>landing. res = Inr landing \<longrightarrow> landed N (map_of (lru_iter L (nc_ref_cache s))) stream landing"
    using skip_present_spec [OF assms, of S h later] Cons by auto
  show ?thesis
  proof (cases res)
    case (Inl e)
    then show ?thesis using skip by (simp add: advance_branch_Cons Cons)
  next
    case (Inr landing)
    then show ?thesis using skip
      by (cases landing) (auto simp: advance_branch_Cons Cons branch_of_None landing_advance_total dest: poll_landed
          split: option.splits sum.splits)
  qed
qed

end

text \<open>
  (C12) \<^verbatim>\<open>advance_branch\<close> terminates on every finite stream of headers and never panics, and it keeps the cached
  references a valid history. When it succeeds, the stream was not empty: a prefix of known blocks is skipped,
  the hashes to request are those of the headers that follow, each of which passed the link check against its
  predecessor and the first of which is not known but has a cached parent. They are fewer than 32 if the stream is exhausted, and exactly
  32 if the rest of the stream is handed back; nothing is requested only if every header is known.
\<close>

theorem advance_branch_correct:
  assumes "node_refs L N" and "node_inv N L s"
  shows "case advance_branch N L S stream s of
      None \<Rightarrow> False
    | Some (Inl e, s') \<Rightarrow> node_inv N L s'
    | Some (Inr (wanted, rest), s') \<Rightarrow> node_inv N L s' \<and> stream \<noteq> [] \<and>
        branch_of N (map_of (lru_iter L (nc_ref_cache s))) stream wanted rest"
  by (rule node_refs.advance_branch_spec [OF assms])

definition example_headers :: "(nat, unit) header list" where
  "example_headers = [b_header (example_block 1 0 0), b_header (plain_block 2 1 1), b_header (plain_block 3 2 2)]"

theorem advance_branch_correct_witness:
  "branch_of example_node_ops [1 \<mapsto> example_ref0] example_headers [2, 3] None"
proof -
  have run: "map_option fst (advance_branch example_node_ops recency_ops mem_store_ops example_headers
      (example_node_state example_node_store)) = Some (Inr ([2, 3], None))"
    by code_simp
  show ?thesis
    using advance_branch_correct [OF example_node.node_refs_axioms example_node_inv [of example_node_store], where S = mem_store_ops and stream = example_headers]
      run
    by (auto simp: example_cache)
qed

end
