(* ===== verification/Indexed_Deque.thy ===== *)
theory Indexed_Deque
  imports Prelude
begin

text \<open>
  The queue of the fragment pool, \<^verbatim>\<open>IndexedDeqeue\<close> in
  \<^verbatim>\<open>jormungandr/src/fragment/pool.rs\<close>: a doubly linked list of heap-allocated
  entries joined by raw pointers, with a hash map from the keys to the boxed entries.

  The pointers are modelled as they are: an entry lives at an address of an explicit
  heap, \<open>None\<close> is the null pointer, \<open>as_mut\<close> on a pointer reads the heap at that
  address, and dropping a box removes its address from the heap. An operation
  returns \<open>None\<close> where the code panics or would follow a dangling pointer. The theory
  proves that neither happens, and that the structure implements the queue of keyed
  entries it stands for, stated as the locale \<open>keyed_deque\<close>. Rust's aliasing rules for
  references are not modelled.
\<close>

section \<open>Representation\<close>

type_synonym addr = nat

record ('k, 'v) deque_entry =
  e_key :: 'k
  e_value :: 'v
  e_prev :: "addr option"
  e_next :: "addr option"

text \<open>
  The hash map is an association list from keys to the addresses of the boxes; a fresh
  allocation takes the address \<open>d_fresh\<close>.
\<close>

record ('k, 'v) deque =
  d_head :: "addr option"
  d_tail :: "addr option"
  d_index :: "('k \<times> addr) list"
  d_heap :: "addr \<rightharpoonup> ('k, 'v) deque_entry"
  d_fresh :: addr

section \<open>Operations\<close>

definition deque_new :: "('k, 'v) deque" where
  "deque_new = \<lparr>d_head = None, d_tail = None, d_index = [], d_heap = Map.empty, d_fresh = 0\<rparr>"

text \<open>\<open>if let Some(e) = p.as_mut() { f(e) }\<close> on a non-null pointer.\<close>

definition write_at ::
  "(addr \<rightharpoonup> ('k, 'v) deque_entry) \<Rightarrow> addr \<Rightarrow> (('k, 'v) deque_entry \<Rightarrow> ('k, 'v) deque_entry)
    \<Rightarrow> (addr \<rightharpoonup> ('k, 'v) deque_entry) option" where
  "write_at h a f = (case h a of None \<Rightarrow> None | Some e \<Rightarrow> Some (h(a \<mapsto> f e)))"

text \<open>\<open>HashMap::insert\<close> that panics when the key was present.\<close>

definition index_insert_new :: "'k \<Rightarrow> addr \<Rightarrow> ('k \<times> addr) list \<Rightarrow> ('k \<times> addr) list option" where
  "index_insert_new k a ix = (if map_of ix k = None then Some ((k, a) # ix) else None)"

definition deque_push_front :: "('k, 'v) deque \<Rightarrow> 'k \<Rightarrow> 'v \<Rightarrow> ('k, 'v) deque option" where
  "deque_push_front d k v =
     (let a = d_fresh d;
          entry = \<lparr>e_key = k, e_value = v, e_prev = None, e_next = d_head d\<rparr>;
          h0 = (d_heap d)(a \<mapsto> entry)
      in do {
        (h, t) \<leftarrow> (case d_head d of
                   Some p \<Rightarrow> map_option (\<lambda>h. (h, d_tail d)) (write_at h0 p (e_prev_update (\<lambda>_. Some a)))
                 | None \<Rightarrow> Some (h0, Some a));
        ix \<leftarrow> index_insert_new k a (d_index d);
        Some \<lparr>d_head = Some a, d_tail = t, d_index = ix, d_heap = h, d_fresh = Suc a\<rparr>
      })"

definition deque_push_back :: "('k, 'v) deque \<Rightarrow> 'k \<Rightarrow> 'v \<Rightarrow> ('k, 'v) deque option" where
  "deque_push_back d k v =
     (let a = d_fresh d;
          entry = \<lparr>e_key = k, e_value = v, e_prev = d_tail d, e_next = None\<rparr>;
          h0 = (d_heap d)(a \<mapsto> entry)
      in do {
        (h, front) \<leftarrow> (case d_tail d of
                   Some p \<Rightarrow> map_option (\<lambda>h. (h, d_head d)) (write_at h0 p (e_next_update (\<lambda>_. Some a)))
                 | None \<Rightarrow> Some (h0, Some a));
        ix \<leftarrow> index_insert_new k a (d_index d);
        Some \<lparr>d_head = front, d_tail = Some a, d_index = ix, d_heap = h, d_fresh = Suc a\<rparr>
      })"

definition deque_pop_back :: "('k, 'v) deque \<Rightarrow> (('k \<times> 'v) option \<times> ('k, 'v) deque) option" where
  "deque_pop_back d =
     (case d_tail d of
        None \<Rightarrow> Some (None, d)
      | Some t \<Rightarrow> do {
          tail \<leftarrow> d_heap d t;
          (h, front) \<leftarrow> (case e_prev tail of
                     Some p \<Rightarrow> map_option (\<lambda>h. (h, d_head d)) (write_at (d_heap d) p (e_next_update (\<lambda>_. None)))
                   | None \<Rightarrow> Some (d_heap d, None));
          a \<leftarrow> map_of (d_index d) (e_key tail);
          entry \<leftarrow> h a;
          Some (Some (e_key entry, e_value entry),
                d\<lparr>d_head := front, d_tail := e_prev tail,
                  d_index := AList.delete (e_key tail) (d_index d), d_heap := h(a := None)\<rparr>)
        })"

definition deque_remove :: "('k, 'v) deque \<Rightarrow> 'k \<Rightarrow> ('v option \<times> ('k, 'v) deque) option" where
  "deque_remove d k =
     (case map_of (d_index d) k of
        None \<Rightarrow> Some (None, d)
      | Some a \<Rightarrow> do {
          entry \<leftarrow> d_heap d a;
          (h1, front) \<leftarrow> (case e_prev entry of
                      Some p \<Rightarrow> map_option (\<lambda>h. (h, d_head d))
                                 (write_at (d_heap d) p (e_next_update (\<lambda>_. e_next entry)))
                    | None \<Rightarrow> Some (d_heap d, e_next entry));
          (h2, back) \<leftarrow> (case e_next entry of
                      Some n \<Rightarrow> map_option (\<lambda>h. (h, d_tail d))
                                 (write_at h1 n (e_prev_update (\<lambda>_. e_prev entry)))
                    | None \<Rightarrow> Some (h1, e_prev entry));
          Some (Some (e_value entry),
                d\<lparr>d_head := front, d_tail := back, d_index := AList.delete k (d_index d),
                  d_heap := h2(a := None)\<rparr>)
        })"

definition deque_len :: "('k, 'v) deque \<Rightarrow> nat" where
  "deque_len d = length (d_index d)"

definition deque_contains :: "('k, 'v) deque \<Rightarrow> 'k \<Rightarrow> bool" where
  "deque_contains d k \<longleftrightarrow> map_of (d_index d) k \<noteq> None"

section \<open>The represented list\<close>

text \<open>
  \<open>dll h p as n\<close>: from the heap \<open>h\<close>, the addresses \<open>as\<close> are linked in this order, the
  first one pointing back to \<open>p\<close> and the last one forward to \<open>n\<close>.
\<close>

fun dll :: "(addr \<rightharpoonup> ('k, 'v) deque_entry) \<Rightarrow> addr option \<Rightarrow> addr list \<Rightarrow> addr option \<Rightarrow> bool" where
  "dll h p [] n \<longleftrightarrow> True"
| "dll h p (a # as) n \<longleftrightarrow>
     (case h a of
        None \<Rightarrow> False
      | Some e \<Rightarrow> e_prev e = p \<and> e_next e = (case as of [] \<Rightarrow> n | b # _ \<Rightarrow> Some b)
                  \<and> dll h (Some a) as n)"

definition first_of :: "addr list \<Rightarrow> addr option \<Rightarrow> addr option" where
  "first_of as n = (case as of [] \<Rightarrow> n | a # _ \<Rightarrow> Some a)"

definition last_of :: "addr option \<Rightarrow> addr list \<Rightarrow> addr option" where
  "last_of p as = (if as = [] then p else Some (last as))"

lemma first_of_simps [simp]:
  "first_of [] n = n" "first_of (a # as) n = Some a"
  "first_of (as @ bs) n = first_of as (first_of bs n)"
  by (cases as; simp add: first_of_def)+

lemma last_of_simps [simp]:
  "last_of p [] = p" "last_of p (as @ [a]) = Some a" "last_of p [a] = Some a"
  "last_of p (as @ bs) = last_of (last_of p as) bs"
  by (simp_all add: last_of_def)

lemma last_of_Cons [simp]: "last_of p (a # as) = last_of (Some a) as"
  by (simp add: last_of_def)

lemma dll_Cons:
  "dll h p (a # as) n \<longleftrightarrow>
     (\<exists>e. h a = Some e \<and> e_prev e = p \<and> e_next e = first_of as n \<and> dll h (Some a) as n)"
  by (auto simp: first_of_def split: option.splits)

lemma dll_append:
  "dll h p (as @ bs) n \<longleftrightarrow> dll h p as (first_of bs n) \<and> dll h (last_of p as) bs n"
  by (induction as arbitrary: p) (auto simp: dll_Cons simp del: dll.simps(2))

lemma dll_mem: "dll h p as n \<Longrightarrow> a \<in> set as \<Longrightarrow> \<exists>e. h a = Some e"
  by (induction as arbitrary: p) (auto simp: dll_Cons simp del: dll.simps(2))

lemma dll_upd_other [simp]: "a \<notin> set as \<Longrightarrow> dll (h(a := x)) p as n = dll h p as n"
  by (induction as arbitrary: p) (auto simp: dll_Cons simp del: dll.simps(2))

text \<open>Relinking the first entry backwards and the last entry forwards.\<close>

lemma dll_set_prev:
  assumes "dll h p (a # as) n" and "a \<notin> set as" and "h a = Some e"
  shows "dll (h(a \<mapsto> e\<lparr>e_prev := q\<rparr>)) q (a # as) n"
  using assms by (auto simp: dll_Cons simp del: dll.simps(2))

lemma dll_set_next:
  assumes "dll h p (as @ [a]) n" and "a \<notin> set as" and "h a = Some e"
  shows "dll (h(a \<mapsto> e\<lparr>e_next := m\<rparr>)) p (as @ [a]) m"
  using assms by (auto simp: dll_append dll_Cons simp del: dll.simps(2))

text \<open>The key and value stored at an address.\<close>

definition kv :: "(addr \<rightharpoonup> ('k, 'v) deque_entry) \<Rightarrow> addr \<Rightarrow> 'k \<times> 'v" where
  "kv h a = (e_key (the (h a)), e_value (the (h a)))"

lemma kv_upd [simp]:
  "a \<noteq> b \<Longrightarrow> kv (h(a := x)) b = kv h b"
  "kv (h(a \<mapsto> e)) a = (e_key e, e_value e)"
  by (simp_all add: kv_def)

lemma kv_map_upd [simp]: "a \<notin> set as \<Longrightarrow> map (kv (h(a := x))) as = map (kv h) as"
  by (auto simp: kv_def)

lemma kv_relink [simp]:
  "h a = Some e \<Longrightarrow> kv (h(a \<mapsto> e\<lparr>e_prev := q\<rparr>)) = kv h"
  "h a = Some e \<Longrightarrow> kv (h(a \<mapsto> e\<lparr>e_next := m\<rparr>)) = kv h"
  by (auto simp: kv_def fun_eq_iff)

text \<open>
  \<open>drep d as xs\<close>: the structure \<open>d\<close> is well formed, its entries are at the addresses \<open>as\<close>
  from front to back, and they hold the key-value pairs \<open>xs\<close>. The heap holds these
  entries and no others: nothing dangles and nothing leaks.
\<close>

definition drep :: "('k, 'v) deque \<Rightarrow> addr list \<Rightarrow> ('k \<times> 'v) list \<Rightarrow> bool" where
  "drep d as xs \<longleftrightarrow>
     d_head d = first_of as None \<and> d_tail d = last_of None as \<and>
     dll (d_heap d) None as None \<and> distinct as \<and> dom (d_heap d) = set as \<and>
     (\<forall>a\<in>set as. a < d_fresh d) \<and>
     xs = map (kv (d_heap d)) as \<and>
     wf_alist (d_index d) \<and>
     set (d_index d) = (\<lambda>a. (fst (kv (d_heap d) a), a)) ` set as"

text \<open>Following the \<open>next\<close> pointers from the head; \<open>d_fresh\<close> bounds the number of entries.\<close>

fun walk :: "(addr \<rightharpoonup> ('k, 'v) deque_entry) \<Rightarrow> nat \<Rightarrow> addr option \<Rightarrow> addr list" where
  "walk h 0 p = []"
| "walk h (Suc n) None = []"
| "walk h (Suc n) (Some a) = (case h a of None \<Rightarrow> [] | Some e \<Rightarrow> a # walk h n (e_next e))"

definition deque_addrs :: "('k, 'v) deque \<Rightarrow> addr list" where
  "deque_addrs d = walk (d_heap d) (d_fresh d) (d_head d)"

definition deque_list :: "('k, 'v) deque \<Rightarrow> ('k \<times> 'v) list" where
  "deque_list d = map (kv (d_heap d)) (deque_addrs d)"

definition deque_invar :: "('k, 'v) deque \<Rightarrow> bool" where
  "deque_invar d \<longleftrightarrow> drep d (deque_addrs d) (deque_list d)"

lemma walk_dll: "dll h p as None \<Longrightarrow> length as \<le> n \<Longrightarrow> walk h n (first_of as None) = as"
proof (induction as arbitrary: p n)
  case Nil
  then show ?case by (cases n) auto
next
  case (Cons a as)
  then show ?case by (cases n) (auto simp: dll_Cons simp del: dll.simps(2))
qed

lemma drep_length_le: "drep d as xs \<Longrightarrow> length as \<le> d_fresh d"
proof -
  assume "drep d as xs"
  then have "distinct as" and "set as \<subseteq> {..<d_fresh d}" by (auto simp: drep_def)
  then have "card (set as) \<le> card {..<d_fresh d}" by (intro card_mono) auto
  with \<open>distinct as\<close> show ?thesis by (simp add: distinct_card)
qed

lemma drep_addrs: "drep d as xs \<Longrightarrow> deque_addrs d = as"
  using drep_length_le [of d as xs] walk_dll [of "d_heap d" None as "d_fresh d"]
  by (auto simp: deque_addrs_def drep_def)

lemma drep_list: "drep d as xs \<Longrightarrow> deque_list d = xs"
  using drep_addrs [of d as xs] by (auto simp: deque_list_def drep_def)

lemma drep_invar: "drep d as xs \<Longrightarrow> deque_invar d \<and> deque_list d = xs"
  using drep_addrs [of d as xs] drep_list [of d as xs] by (simp add: deque_invar_def)

lemma invar_drep: "deque_invar d \<Longrightarrow> drep d (deque_addrs d) (deque_list d)"
  by (simp add: deque_invar_def)

lemma drep_keys_distinct:
  assumes "drep d as xs"
  shows "wf_alist xs"
proof -
  have ix: "wf_alist (d_index d)"
    and set_ix: "set (d_index d) = (\<lambda>a. (fst (kv (d_heap d) a), a)) ` set as"
    and "distinct as" and xs: "xs = map (kv (d_heap d)) as"
    using assms by (auto simp: drep_def)
  have "inj_on (\<lambda>a. fst (kv (d_heap d) a)) (set as)"
  proof (rule inj_onI)
    fix a b
    assume a: "a \<in> set as" and b: "b \<in> set as"
      and eq: "fst (kv (d_heap d) a) = fst (kv (d_heap d) b)"
    have "(fst (kv (d_heap d) a), a) \<in> set (d_index d)"
      using a unfolding set_ix by (rule imageI)
    moreover have "(fst (kv (d_heap d) a), b) \<in> set (d_index d)"
      using b unfolding set_ix eq by (rule imageI)
    ultimately show "a = b" by (rule eq_key_imp_eq_value [OF ix])
  qed
  with \<open>distinct as\<close> show ?thesis unfolding xs by (simp add: distinct_map comp_def)
qed

lemma drep_index:
  assumes "drep d as xs"
  shows "map_of (d_index d) k = Some a \<longleftrightarrow> a \<in> set as \<and> fst (kv (d_heap d) a) = k"
proof -
  have ix: "wf_alist (d_index d)"
    and set_ix: "set (d_index d) = (\<lambda>a. (fst (kv (d_heap d) a), a)) ` set as"
    using assms by (simp_all add: drep_def)
  have "map_of (d_index d) k = Some a \<longleftrightarrow> (k, a) \<in> set (d_index d)"
    by (rule map_of_eq_Some_iff [OF ix])
  then show ?thesis unfolding set_ix by auto
qed

lemma drep_index_None:
  assumes "drep d as xs"
  shows "map_of (d_index d) k = None \<longleftrightarrow> k \<notin> set (keys_of xs)"
proof -
  have set_ix: "set (d_index d) = (\<lambda>a. (fst (kv (d_heap d) a), a)) ` set as"
    and xs: "xs = map (kv (d_heap d)) as"
    using assms by (simp_all add: drep_def)
  show ?thesis unfolding map_of_eq_None_iff set_ix xs by (simp add: image_image)
qed

lemma drep_index_length:
  assumes "drep d as xs"
  shows "length (d_index d) = length xs"
proof -
  have ix: "wf_alist (d_index d)"
    and set_ix: "set (d_index d) = (\<lambda>a. (fst (kv (d_heap d) a), a)) ` set as"
    and as: "distinct as" and xs: "xs = map (kv (d_heap d)) as"
    using assms by (auto simp: drep_def)
  have "length (d_index d) = card (set (d_index d))"
    using ix by (metis distinct_card distinct_map)
  also have "\<dots> = card (set as)"
    unfolding set_ix by (intro card_image inj_onI) auto
  also have "\<dots> = length xs"
    using as xs by (simp add: distinct_card)
  finally show ?thesis .
qed

section \<open>Every operation implements its list operation\<close>

lemma deque_new_drep: "drep deque_new [] []"
  by (simp add: drep_def deque_new_def)

lemma drepD:
  assumes "drep d as xs"
  shows "d_head d = first_of as None" "d_tail d = last_of None as" "dll (d_heap d) None as None"
    "distinct as" "dom (d_heap d) = set as" "\<And>a. a \<in> set as \<Longrightarrow> a < d_fresh d"
    "xs = map (kv (d_heap d)) as" "wf_alist (d_index d)"
    "set (d_index d) = (\<lambda>a. (fst (kv (d_heap d) a), a)) ` set as"
  using assms by (simp_all add: drep_def)

text \<open>
  A fresh entry added at either end: what is left to show is how the new heap is linked.
\<close>

lemma drep_push:
  assumes d: "drep d as xs" and k: "k \<notin> set (keys_of xs)"
    and kv: "kv h = kv ((d_heap d)(d_fresh d \<mapsto> e))" and e: "e_key e = k" "e_value e = v"
    and "dom h = insert (d_fresh d) (set as)" and "dll h None as' None"
    and as': "set as' = insert (d_fresh d) (set as)" "distinct as'"
    and xs': "xs' = map (kv h) as'"
  shows "drep \<lparr>d_head = first_of as' None, d_tail = last_of None as',
               d_index = (k, d_fresh d) # d_index d, d_heap = h, d_fresh = Suc (d_fresh d)\<rparr> as' xs'"
proof -
  note D = drepD [OF d]
  have fresh: "d_fresh d \<notin> set as" using D(6) by blast
  have "map_of (d_index d) k = None" using drep_index_None [OF d] k by simp
  then have "k \<notin> fst ` set (d_index d)" by (simp add: map_of_eq_None_iff)
  moreover have "kv h a = kv (d_heap d) a" if "a \<in> set as" for a
    using that fresh kv by (metis kv_upd(1))
  moreover have "kv h (d_fresh d) = (k, v)" using kv e by simp
  ultimately show ?thesis
    using assms D(6,8,9) by (auto simp: drep_def less_Suc_eq intro!: image_cong)
qed

lemma push_front_link:
  assumes d: "drep d as xs" and a: "a \<notin> set as" and e: "e_prev e = None" "e_next e = d_head d"
    and h0: "h0 = (d_heap d)(a \<mapsto> e)"
  obtains h where
    "(case d_head d of
        Some p \<Rightarrow> map_option (\<lambda>h. (h, d_tail d)) (write_at h0 p (e_prev_update (\<lambda>_. Some a)))
      | None \<Rightarrow> Some (h0, Some a)) = Some (h, last_of None (a # as))"
    and "kv h = kv h0" and "dom h = insert a (set as)" and "dll h None (a # as) None"
proof (cases as)
  case Nil
  with drepD [OF d] h0 e show ?thesis
    by (intro that [of h0]) (auto simp: dll_Cons simp del: dll.simps(2))
next
  case (Cons b bs)
  note D = drepD [OF d]
  from D(3) Cons obtain c where "d_heap d b = Some c" by (auto simp: dll_Cons simp del: dll.simps(2))
  moreover have ne: "b \<noteq> a" "b \<notin> set bs" using a Cons D(4) by auto
  ultimately have c: "h0 b = Some c" using h0 by simp
  let ?h = "h0(b \<mapsto> c\<lparr>e_prev := Some a\<rparr>)"
  have "dll h0 None (b # bs) None" using D(3) a Cons h0 by (simp del: dll.simps(2))
  then have "dll ?h (Some a) (b # bs) None" using ne(2) c by (rule dll_set_prev)
  moreover have "?h a = Some e" using h0 ne by simp
  ultimately have "dll ?h None (a # b # bs) None"
    using e D(1) Cons by (simp add: dll_Cons [of _ _ a] del: dll.simps(2))
  moreover have "kv ?h = kv h0" using c by (rule kv_relink(1))
  ultimately show ?thesis
    using Cons D(1,2,5) h0 c by (intro that [of ?h]) (auto simp: write_at_def simp del: dll.simps(2))
qed

lemma push_back_link:
  assumes d: "drep d as xs" and a: "a \<notin> set as" and e: "e_prev e = d_tail d" "e_next e = None"
    and h0: "h0 = (d_heap d)(a \<mapsto> e)"
  obtains h where
    "(case d_tail d of
        Some p \<Rightarrow> map_option (\<lambda>h. (h, d_head d)) (write_at h0 p (e_next_update (\<lambda>_. Some a)))
      | None \<Rightarrow> Some (h0, Some a)) = Some (h, first_of (as @ [a]) None)"
    and "kv h = kv h0" and "dom h = insert a (set as)" and "dll h None (as @ [a]) None"
proof (cases as rule: rev_cases)
  case Nil
  with drepD [OF d] h0 e show ?thesis
    by (intro that [of h0]) (auto simp: dll_Cons simp del: dll.simps(2))
next
  case (snoc bs b)
  note D = drepD [OF d]
  from D(3) snoc obtain c where "d_heap d b = Some c"
    by (auto simp: dll_append dll_Cons simp del: dll.simps(2))
  moreover have ne: "b \<noteq> a" "b \<notin> set bs" using a snoc D(4) by auto
  ultimately have c: "h0 b = Some c" using h0 by simp
  let ?h = "h0(b \<mapsto> c\<lparr>e_next := Some a\<rparr>)"
  have "dll h0 None (bs @ [b]) None" using D(3) a snoc h0 by (simp del: dll.simps(2))
  then have "dll ?h None (bs @ [b]) (Some a)" using ne(2) c by (rule dll_set_next)
  moreover have "?h a = Some e" using h0 ne by simp
  ultimately have "dll ?h None (as @ [a]) None"
    unfolding snoc dll_append [of _ _ "bs @ [b]"] using e D(2) snoc
    by (simp add: dll_Cons del: dll.simps(2))
  moreover have "kv ?h = kv h0" using c by (rule kv_relink(2))
  moreover have "first_of (as @ [a]) None = d_head d" using D(1) snoc by (cases bs) auto
  ultimately show ?thesis
    using snoc D(2,5) h0 c by (intro that [of ?h]) (auto simp: write_at_def simp del: dll.simps(2))
qed

lemma fresh_index:
  assumes "drep d as xs" and "k \<notin> set (keys_of xs)"
  shows "index_insert_new k a (d_index d) = Some ((k, a) # d_index d)"
  using drep_index_None [OF assms(1)] assms(2) by (simp add: index_insert_new_def)

lemma deque_push_front_drep:
  assumes d: "drep d as xs" and k: "k \<notin> set (keys_of xs)"
  shows "\<exists>d'. deque_push_front d k v = Some d' \<and> drep d' (d_fresh d # as) ((k, v) # xs)"
proof -
  let ?a = "d_fresh d" and ?e = "\<lparr>e_key = k, e_value = v, e_prev = None, e_next = d_head d\<rparr>"
  note D = drepD [OF d]
  have fresh: "?a \<notin> set as" using D(6) by blast
  obtain h where h: "(case d_head d of
        Some p \<Rightarrow> map_option (\<lambda>h. (h, d_tail d))
                   (write_at ((d_heap d)(?a \<mapsto> ?e)) p (e_prev_update (\<lambda>_. Some ?a)))
      | None \<Rightarrow> Some ((d_heap d)(?a \<mapsto> ?e), Some ?a)) = Some (h, last_of None (?a # as))"
    and kv: "kv h = kv ((d_heap d)(?a \<mapsto> ?e))"
    and dom: "dom h = insert ?a (set as)" and dll: "dll h None (?a # as) None"
    by (rule push_front_link [OF d fresh]) auto
  have "map (kv h) (?a # as) = (k, v) # xs" using kv fresh D(7) by simp
  with drep_push [OF d k kv _ _ dom dll] fresh D(4)
  have "drep \<lparr>d_head = Some ?a, d_tail = last_of None (?a # as), d_index = (k, ?a) # d_index d,
              d_heap = h, d_fresh = Suc ?a\<rparr> (?a # as) ((k, v) # xs)" by simp
  then show ?thesis
    unfolding deque_push_front_def Let_def h fresh_index [OF d k] by simp
qed

lemma deque_push_back_drep:
  assumes d: "drep d as xs" and k: "k \<notin> set (keys_of xs)"
  shows "\<exists>d'. deque_push_back d k v = Some d' \<and> drep d' (as @ [d_fresh d]) (xs @ [(k, v)])"
proof -
  let ?a = "d_fresh d" and ?e = "\<lparr>e_key = k, e_value = v, e_prev = d_tail d, e_next = None\<rparr>"
  note D = drepD [OF d]
  have fresh: "?a \<notin> set as" using D(6) by blast
  obtain h where h: "(case d_tail d of
        Some p \<Rightarrow> map_option (\<lambda>h. (h, d_head d))
                   (write_at ((d_heap d)(?a \<mapsto> ?e)) p (e_next_update (\<lambda>_. Some ?a)))
      | None \<Rightarrow> Some ((d_heap d)(?a \<mapsto> ?e), Some ?a)) = Some (h, first_of (as @ [?a]) None)"
    and kv: "kv h = kv ((d_heap d)(?a \<mapsto> ?e))"
    and dom: "dom h = insert ?a (set as)" and dll: "dll h None (as @ [?a]) None"
    by (rule push_back_link [OF d fresh]) auto
  have "map (kv h) (as @ [?a]) = xs @ [(k, v)]" using kv fresh D(7) by simp
  with drep_push [OF d k kv _ _ dom dll] fresh D(4)
  have "drep \<lparr>d_head = first_of (as @ [?a]) None, d_tail = Some ?a, d_index = (k, ?a) # d_index d,
              d_heap = h, d_fresh = Suc ?a\<rparr> (as @ [?a]) (xs @ [(k, v)])" by simp
  then show ?thesis
    unfolding deque_push_back_def Let_def h fresh_index [OF d k] by simp
qed

text \<open>Unlinking an entry from its neighbours.\<close>

lemma unlink_prev:
  assumes "dll h None us m" and "distinct us"
  obtains h' where
    "(case last_of None us of
        Some p \<Rightarrow> map_option (\<lambda>h. (h, front)) (write_at h p (e_next_update (\<lambda>_. n)))
      | None \<Rightarrow> Some (h, n)) = Some (h', if us = [] then n else front)"
    and "dll h' None us n" and "kv h' = kv h" and "dom h' = dom h" and "\<And>x. x \<notin> set us \<Longrightarrow> h' x = h x"
proof (cases us rule: rev_cases)
  case Nil
  then show ?thesis by (intro that [of h]) auto
next
  case (snoc bs b)
  with assms obtain c where c: "h b = Some c" by (auto simp: dll_append dll_Cons simp del: dll.simps(2))
  let ?h = "h(b \<mapsto> c\<lparr>e_next := n\<rparr>)"
  have "dll ?h None us n" using assms snoc c by (auto intro: dll_set_next simp del: dll.simps(2))
  moreover have "kv ?h = kv h" using c by (rule kv_relink(2))
  ultimately show ?thesis using snoc c by (intro that [of ?h]) (auto simp: write_at_def)
qed

lemma unlink_next:
  assumes "dll h m vs None" and "distinct vs"
  obtains h' where
    "(case first_of vs None of
        Some q \<Rightarrow> map_option (\<lambda>h. (h, rear)) (write_at h q (e_prev_update (\<lambda>_. p)))
      | None \<Rightarrow> Some (h, p)) = Some (h', if vs = [] then p else rear)"
    and "dll h' p vs None" and "kv h' = kv h" and "dom h' = dom h" and "\<And>x. x \<notin> set vs \<Longrightarrow> h' x = h x"
proof (cases vs)
  case Nil
  then show ?thesis by (intro that [of h]) auto
next
  case (Cons b bs)
  with assms obtain c where c: "h b = Some c" by (auto simp: dll_Cons simp del: dll.simps(2))
  let ?h = "h(b \<mapsto> c\<lparr>e_prev := p\<rparr>)"
  have "dll ?h p vs None" using assms Cons c by (auto intro!: dll_set_prev simp del: dll.simps(2))
  moreover have "kv ?h = kv h" using c by (rule kv_relink(1))
  ultimately show ?thesis using Cons c by (intro that [of ?h]) (auto simp: write_at_def)
qed

lemma dll_frame: "(\<And>x. x \<in> set as \<Longrightarrow> h' x = h x) \<Longrightarrow> dll h' p as n = dll h p as n"
  by (induction as arbitrary: p) (auto simp: dll_Cons simp del: dll.simps(2))

text \<open>What is left of the structure once one entry has been unlinked and dropped.\<close>

lemma drep_drop:
  assumes d: "drep d (us @ a # vs) xs" and k: "fst (kv (d_heap d) a) = k"
    and h: "kv h = kv (d_heap d)" "dom h = dom (d_heap d)"
    and dll: "dll h None us (first_of vs None)" "dll h (last_of None us) vs None"
    and d': "d_head d' = first_of (us @ vs) None" "d_tail d' = last_of None (us @ vs)"
      "d_index d' = AList.delete k (d_index d)" "d_heap d' = h(a := None)" "d_fresh d' = d_fresh d"
  shows "drep d' (us @ vs) (AList.delete k xs)"
proof -
  note D = drepD [OF d]
  have a: "a \<notin> set us" "a \<notin> set vs" using D(4) by auto
  have kn: "k \<notin> set (keys_of (map (kv (d_heap d)) us))" "k \<notin> set (keys_of (map (kv (d_heap d)) vs))"
    using drep_keys_distinct [OF d] D(7) k by auto
  obtain v where v: "kv (d_heap d) a = (k, v)" using k by (cases "kv (d_heap d) a") simp
  have "AList.delete k (map (kv (d_heap d)) us @ (k, v) # map (kv (d_heap d)) vs)
      = map (kv (d_heap d)) us @ map (kv (d_heap d)) vs"
    using kn by (rule adelete_mid)
  then have "AList.delete k xs = map (kv (d_heap d)) us @ map (kv (d_heap d)) vs"
    using v unfolding D(7) by (simp only: map_append list.map)
  then have xs': "AList.delete k xs = map (kv (d_heap d')) (us @ vs)" using a h d' by simp
  have kv': "kv (d_heap d') x = kv (d_heap d) x" if "x \<in> set (us @ vs)" for x
  proof -
    from that a have "a \<noteq> x" by auto
    then show ?thesis using h(1) d'(4) by simp
  qed
  have "fst (kv (d_heap d) x) \<noteq> k" if "x \<in> set (us @ vs)" for x
    using that drep_index [OF d, of k a] drep_index [OF d, of k x] k a by auto
  then have "set (d_index d') = (\<lambda>x. (fst (kv (d_heap d) x), x)) ` set (us @ vs)"
    unfolding d' set_adelete D(9) using k by auto
  then have set_ix: "set (d_index d') = (\<lambda>x. (fst (kv (d_heap d') x), x)) ` set (us @ vs)"
    using kv' by (simp cong: image_cong_simp)
  have "dll (d_heap d') None (us @ vs) None" using dll a d' by (simp add: dll_append)
  then show ?thesis
    unfolding drep_def using d' D(4,5,6,8) h(2) xs' set_ix by auto
qed

lemma deque_remove_drep:
  assumes d: "drep d (us @ a # vs) xs" and k: "fst (kv (d_heap d) a) = k"
  shows "\<exists>d'. deque_remove d k = Some (Some (snd (kv (d_heap d) a)), d') \<and>
              drep d' (us @ vs) (AList.delete k xs)"
proof -
  note D = drepD [OF d]
  have ix: "map_of (d_index d) k = Some a" using drep_index [OF d] k by simp
  from D(3) obtain e where e: "d_heap d a = Some e" "e_prev e = last_of None us"
      "e_next e = first_of vs None"
    and us: "dll (d_heap d) None us (Some a)" and vs: "dll (d_heap d) (Some a) vs None"
    by (auto simp: dll_append dll_Cons simp del: dll.simps(2))
  have dist: "distinct us" "distinct vs" "set us \<inter> set vs = {}" using D(4) by auto
  obtain h1 where h1: "(case last_of None us of
        Some p \<Rightarrow> map_option (\<lambda>h. (h, d_head d)) (write_at (d_heap d) p (e_next_update (\<lambda>_. e_next e)))
      | None \<Rightarrow> Some (d_heap d, e_next e)) = Some (h1, if us = [] then e_next e else d_head d)"
    and us1: "dll h1 None us (e_next e)" and kv1: "kv h1 = kv (d_heap d)" "dom h1 = dom (d_heap d)"
    and f1: "\<And>x. x \<notin> set us \<Longrightarrow> h1 x = d_heap d x"
    by (rule unlink_prev [OF us dist(1), where front = "d_head d" and n = "e_next e"]) (rule that)
  have vs1: "dll h1 (Some a) vs None" using vs f1 dist(3) by (subst dll_frame [of _ _ "d_heap d"]) auto
  obtain h2 where h2: "(case first_of vs None of
        Some q \<Rightarrow> map_option (\<lambda>h. (h, d_tail d)) (write_at h1 q (e_prev_update (\<lambda>_. e_prev e)))
      | None \<Rightarrow> Some (h1, e_prev e)) = Some (h2, if vs = [] then e_prev e else d_tail d)"
    and vs2: "dll h2 (e_prev e) vs None" and kv2: "kv h2 = kv h1" "dom h2 = dom h1"
    and f2: "\<And>x. x \<notin> set vs \<Longrightarrow> h2 x = h1 x"
    by (rule unlink_next [OF vs1 dist(2), where rear = "d_tail d" and p = "e_prev e"]) (rule that)
  have "dll h2 None us (e_next e)" using us1 f2 dist(3) by (subst dll_frame [of _ _ h1]) auto
  moreover have "(if us = [] then e_next e else d_head d) = first_of (us @ vs) None"
    using e D(1) by (cases us) auto
  moreover have "(if vs = [] then e_prev e else d_tail d) = last_of None (us @ vs)"
    using e D(2) by (cases vs rule: rev_cases) auto
  ultimately show ?thesis
    unfolding deque_remove_def using ix e h1 h2 kv1 kv2 vs2
    by (auto simp: kv_def [of "d_heap d" a] intro!: drep_drop [OF d k, of h2])
qed

lemma deque_pop_back_drep:
  assumes d: "drep d (us @ [a]) xs"
  shows "\<exists>d'. deque_pop_back d = Some (Some (kv (d_heap d) a), d') \<and>
              drep d' us (AList.delete (fst (kv (d_heap d) a)) xs)"
proof -
  note D = drepD [OF d]
  from D(3) obtain e where e: "d_heap d a = Some e" "e_prev e = last_of None us" "e_next e = None"
    and us: "dll (d_heap d) None us (Some a)"
    by (auto simp: dll_append dll_Cons simp del: dll.simps(2))
  have kv_a: "kv (d_heap d) a = (e_key e, e_value e)" using e by (simp add: kv_def)
  have dist: "distinct us" and a: "a \<notin> set us" using D(4) by auto
  have ix: "map_of (d_index d) (e_key e) = Some a" using drep_index [OF d] kv_a by simp
  obtain h where h: "(case last_of None us of
        Some p \<Rightarrow> map_option (\<lambda>h. (h, d_head d)) (write_at (d_heap d) p (e_next_update (\<lambda>_. None)))
      | None \<Rightarrow> Some (d_heap d, None)) = Some (h, if us = [] then None else d_head d)"
    and us1: "dll h None us None" and kv1: "kv h = kv (d_heap d)" "dom h = dom (d_heap d)"
    and f: "\<And>x. x \<notin> set us \<Longrightarrow> h x = d_heap d x"
    by (rule unlink_prev [OF us dist, where front = "d_head d" and n = None]) (rule that)
  have "(if us = [] then None else d_head d) = first_of us None" using D(1) by (cases us) auto
  moreover have "h a = Some e" using f [OF a] e by simp
  ultimately have "\<exists>d'. deque_pop_back d = Some (Some (kv (d_heap d) a), d') \<and>
      d_head d' = first_of (us @ []) None \<and> d_tail d' = last_of None (us @ []) \<and>
      d_index d' = AList.delete (fst (kv (d_heap d) a)) (d_index d) \<and>
      d_heap d' = h(a := None) \<and> d_fresh d' = d_fresh d"
    unfolding deque_pop_back_def using D(2) ix e h kv_a by simp
  then show ?thesis using drep_drop [OF d refl kv1, of] us1 by auto
qed

lemma deque_pop_back_list:
  assumes q: "deque_invar q" and xs: "deque_list q = xs @ [x]"
  shows "\<exists>q'. deque_pop_back q = Some (Some x, q') \<and> deque_invar q' \<and> deque_list q' = xs"
proof -
  note d = invar_drep [OF q]
  obtain us a where as: "deque_addrs q = us @ [a]" and us: "map (kv (d_heap q)) us = xs"
    and a: "kv (d_heap q) a = x"
  proof -
    have "map (kv (d_heap q)) (deque_addrs q) = xs @ [x]" using drepD(7) [OF d] xs by simp
    then show ?thesis by (cases "deque_addrs q" rule: rev_cases) (auto intro: that)
  qed
  have "wf_alist (xs @ [x])" using drep_keys_distinct [OF d] xs by simp
  then have "AList.delete (fst x) (xs @ [x]) = xs"
    by (cases x) (simp add: adelete_append)
  then show ?thesis
    using deque_pop_back_drep [OF d [unfolded as xs]] a by (auto dest: drep_invar)
qed

lemma deque_remove_list:
  assumes q: "deque_invar q"
  shows "\<exists>q'. deque_remove q k = Some (map_of (deque_list q) k, q') \<and> deque_invar q' \<and>
              deque_list q' = AList.delete k (deque_list q)"
proof (cases "map_of (d_index q) k")
  case None
  then have "k \<notin> set (keys_of (deque_list q))" using drep_index_None [OF invar_drep [OF q]] by simp
  moreover from this have "map_of (deque_list q) k = None" by (simp add: map_of_eq_None_iff)
  ultimately show ?thesis using None q by (simp add: deque_remove_def)
next
  case (Some a)
  note d = invar_drep [OF q]
  have a: "a \<in> set (deque_addrs q)" and k: "fst (kv (d_heap q) a) = k"
    using Some drep_index [OF d] by auto
  obtain us vs where as: "deque_addrs q = us @ a # vs" using a by (meson split_list)
  have "kv (d_heap q) a \<in> set (deque_list q)" using a drepD(7) [OF d] by auto
  then have "map_of (deque_list q) k = Some (snd (kv (d_heap q) a))"
    using k drep_keys_distinct [OF d] by (metis map_of_eq_Some_iff prod.collapse)
  then show ?thesis
    using deque_remove_drep [OF d [unfolded as] k] by (auto dest: drep_invar)
qed

section \<open>The interface of a queue with keyed entries\<close>

text \<open>
  What the pool relies on: the content is the list of the entries from the newest end (front)
  to the oldest (back), every operation returns, and only the insertion of a key
  that is already present panics.
\<close>

locale keyed_deque =
  fixes empty :: "'q"
    and push_front :: "'q \<Rightarrow> 'k \<Rightarrow> 'v \<Rightarrow> 'q option"
    and push_back :: "'q \<Rightarrow> 'k \<Rightarrow> 'v \<Rightarrow> 'q option"
    and pop_back :: "'q \<Rightarrow> (('k \<times> 'v) option \<times> 'q) option"
    and remove :: "'q \<Rightarrow> 'k \<Rightarrow> ('v option \<times> 'q) option"
    and len :: "'q \<Rightarrow> nat"
    and contains :: "'q \<Rightarrow> 'k \<Rightarrow> bool"
    and items :: "'q \<Rightarrow> ('k \<times> 'v) list"
    and ok :: "'q \<Rightarrow> bool"
  assumes empty_ok: "ok empty" and items_empty: "items empty = []"
    and keys_distinct: "ok q \<Longrightarrow> distinct (map fst (items q))"
    and push_front_fresh: "ok q \<Longrightarrow> k \<notin> set (map fst (items q)) \<Longrightarrow>
          \<exists>q'. push_front q k v = Some q' \<and> ok q' \<and> items q' = (k, v) # items q"
    and push_front_present: "ok q \<Longrightarrow> k \<in> set (map fst (items q)) \<Longrightarrow> push_front q k v = None"
    and push_back_fresh: "ok q \<Longrightarrow> k \<notin> set (map fst (items q)) \<Longrightarrow>
          \<exists>q'. push_back q k v = Some q' \<and> ok q' \<and> items q' = items q @ [(k, v)]"
    and push_back_present: "ok q \<Longrightarrow> k \<in> set (map fst (items q)) \<Longrightarrow> push_back q k v = None"
    and pop_back_empty: "ok q \<Longrightarrow> items q = [] \<Longrightarrow> pop_back q = Some (None, q)"
    and pop_back_snoc: "ok q \<Longrightarrow> items q = xs @ [x] \<Longrightarrow>
          \<exists>q'. pop_back q = Some (Some x, q') \<and> ok q' \<and> items q' = xs"
    and remove_any: "ok q \<Longrightarrow>
          \<exists>q'. remove q k = Some (map_of (items q) k, q') \<and> ok q' \<and>
               items q' = AList.delete k (items q)"
    and len_items: "ok q \<Longrightarrow> len q = length (items q)"
    and contains_items: "ok q \<Longrightarrow> contains q k \<longleftrightarrow> k \<in> set (map fst (items q))"
begin

lemma push_front_cases:
  assumes "ok q"
  obtains (present) "contains q k" "push_front q k v = None"
  | (fresh) q' where "\<not> contains q k" "push_front q k v = Some q'" "ok q'" "items q' = (k, v) # items q"
proof (cases "contains q k")
  case True
  with assms have "push_front q k v = None" using contains_items push_front_present by simp
  with True show ?thesis by (rule present)
next
  case False
  with assms obtain q' where "push_front q k v = Some q'" "ok q'" "items q' = (k, v) # items q"
    using contains_items push_front_fresh [of q k v] by auto
  with False show ?thesis by (rule fresh)
qed

lemma pop_back_cases:
  assumes "ok q"
  obtains (empty) "items q = []" "pop_back q = Some (None, q)"
  | (entry) xs x q' where "items q = xs @ [x]" "pop_back q = Some (Some x, q')" "ok q'" "items q' = xs"
  using assms pop_back_empty pop_back_snoc by (cases "items q" rule: rev_cases) blast+

lemma pop_push_front:
  assumes "ok q" and "items q = xs @ [x]" and "push_front q k v = Some q'"
  shows "\<exists>q''. pop_back q' = Some (Some x, q'') \<and> items q'' = (k, v) # xs"
proof -
  from assms(1) have "ok q' \<and> items q' = (k, v) # xs @ [x]"
    by (cases rule: push_front_cases [of q k v]) (use assms in auto)
  then show ?thesis using pop_back_snoc [of q' "(k, v) # xs" x] by auto
qed

lemma remove_absent: "ok q \<Longrightarrow> \<not> contains q k \<Longrightarrow> \<exists>q'. remove q k = Some (None, q') \<and> items q' = items q"
  using remove_any [of q k] by (auto simp: contains_items map_of_eq_None_iff [symmetric])

end

interpretation dq: keyed_deque deque_new deque_push_front deque_push_back deque_pop_back deque_remove
  deque_len deque_contains deque_list deque_invar
proof (unfold_locales, goal_cases)
  case 1
  show ?case by (rule drep_invar [OF deque_new_drep, THEN conjunct1])
next
  case 2
  show ?case by (rule drep_invar [OF deque_new_drep, THEN conjunct2])
next
  case (3 q)
  then show ?case by (blast dest: invar_drep drep_keys_distinct)
next
  case (4 q k v)
  then show ?case using deque_push_front_drep [OF invar_drep [OF "4"(1)], of k v] by (auto dest: drep_invar)
next
  case (5 q k v)
  then have "map_of (d_index q) k \<noteq> None" using drep_index_None [OF invar_drep [OF "5"(1)], of k] by simp
  then have "\<And>a. index_insert_new k a (d_index q) = None" by (auto simp: index_insert_new_def)
  then show ?case by (simp add: deque_push_front_def Let_def bind_eq_None_conv split: prod.split)
next
  case (6 q k v)
  then show ?case using deque_push_back_drep [OF invar_drep [OF "6"(1)], of k v] by (auto dest: drep_invar)
next
  case (7 q k v)
  then have "map_of (d_index q) k \<noteq> None" using drep_index_None [OF invar_drep [OF "7"(1)], of k] by simp
  then have "\<And>a. index_insert_new k a (d_index q) = None" by (auto simp: index_insert_new_def)
  then show ?case by (simp add: deque_push_back_def Let_def bind_eq_None_conv split: prod.split)
next
  case (8 q)
  then have "d_tail q = None" using drepD(2,7) [OF invar_drep [OF "8"(1)]] by (simp add: last_of_def)
  then show ?case by (simp add: deque_pop_back_def)
next
  case (9 q xs x)
  then show ?case by (rule deque_pop_back_list)
next
  case (10 q k)
  then show ?case by (rule deque_remove_list)
next
  case (11 q)
  then show ?case using drep_index_length [OF invar_drep [OF "11"]] by (simp add: deque_len_def)
next
  case (12 q k)
  then show ?case using drep_index_None [OF invar_drep [OF "12"], of k] by (simp add: deque_contains_def)
qed

section \<open>Correctness\<close>

text \<open>
  (C8) The linked structure implements the queue of its entries. On a structure that satisfies
  the representation invariant, no operation panics or follows a dangling pointer,
  except the documented panic of a push of a key that is present; pushes, pops and
  removals act on the list of entries as on a list, and keep the invariant.
\<close>

theorem deque_implements_queue:
  assumes "deque_invar d"
  shows "(if k \<in> set (keys_of (deque_list d))
          then deque_push_front d k v = None \<and> deque_push_back d k v = None
          else (\<exists>d'. deque_push_front d k v = Some d' \<and> deque_invar d' \<and> deque_list d' = (k, v) # deque_list d) \<and>
               (\<exists>d'. deque_push_back d k v = Some d' \<and> deque_invar d' \<and> deque_list d' = deque_list d @ [(k, v)])) \<and>
    (\<exists>d'. deque_remove d k = Some (map_of (deque_list d) k, d') \<and> deque_invar d' \<and>
          deque_list d' = AList.delete k (deque_list d)) \<and>
    (\<exists>d'. deque_pop_back d = Some (if deque_list d = [] then None else Some (last (deque_list d)), d') \<and>
          deque_invar d' \<and> deque_list d' = butlast (deque_list d)) \<and>
    deque_len d = length (deque_list d) \<and> deque_contains d k = (k \<in> set (keys_of (deque_list d)))"
proof -
  have "\<exists>d'. deque_pop_back d = Some (if deque_list d = [] then None else Some (last (deque_list d)), d') \<and>
          deque_invar d' \<and> deque_list d' = butlast (deque_list d)"
    using assms by (cases rule: dq.pop_back_cases) (use assms in auto)
  then show ?thesis
    using dq.push_front_fresh [OF assms, of k v] dq.push_back_fresh [OF assms, of k v]
      dq.push_front_present [OF assms, of k v] dq.push_back_present [OF assms, of k v]
      dq.remove_any [OF assms, of k] dq.len_items [OF assms] dq.contains_items [OF assms, of k]
    by (cases "k \<in> set (keys_of (deque_list d))") simp_all
qed

theorem deque_implements_queue_witness:
  "\<exists>d'. deque_push_front deque_new (1 :: nat) ''a'' = Some d' \<and> deque_invar d' \<and> deque_list d' = [(1, ''a'')]"
  using deque_implements_queue [of "deque_new :: (nat, string) deque" 1 "''a''", OF dq.empty_ok]
    dq.items_empty [where ?'a = nat and ?'b = string] by simp

end
