(* ===== verification/Fragments.thy ===== *)
theory Fragments
  imports Block_Date
begin

text \<open>
  Fragments as the fragment pool sees them: the variants that
  \<^verbatim>\<open>is_fragment_valid\<close> and \<^verbatim>\<open>get_transaction_expiry_date\<close>
  (\<^verbatim>\<open>jormungandr/src/fragment/pool.rs\<close>) match on, the status log of a fragment
  (\<^verbatim>\<open>jormungandr-lib/src/interfaces/fragment_log.rs\<close>), and the rejection reasons
  (\<^verbatim>\<open>jormungandr-lib/src/interfaces/fragments_processing_summary.rs\<close>).

  The transactions and the contents of the other variants are types of the ledger library;
  what the code asks of them is the record \<open>fragment_env\<close>, an argument of the
  definitions.
\<close>

section \<open>Fragments\<close>

datatype ('tx, 'p) fragment =
    Initial 'p
  | OldUtxoDeclaration 'p
  | Transaction 'tx
  | OwnerStakeDelegation 'tx
  | StakeDelegation 'tx
  | PoolRegistration 'tx
  | PoolRetirement 'tx
  | PoolUpdate 'tx
  | UpdateProposal 'tx
  | UpdateVote 'tx
  | VotePlan 'tx
  | VoteCast 'tx
  | VoteTally 'tx
  | MintToken 'tx
  | Evm 'p
  | EvmMapping 'tx

text \<open>
  The functions of the ledger library: \<^verbatim>\<open>as_slice().valid_until()\<close>,
  \<^verbatim>\<open>verify_possibly_balanced().is_ok()\<close>, \<^verbatim>\<open>serialized_size()\<close> (in bytes) and \<^verbatim>\<open>hash()\<close>.
\<close>

record ('tx, 'p, 'id) fragment_env =
  tx_valid_until :: "'tx \<Rightarrow> block_date"
  tx_verify_ok :: "'tx \<Rightarrow> bool"
  serialized_size :: "('tx, 'p) fragment \<Rightarrow> nat"
  fragment_hash :: "('tx, 'p) fragment \<Rightarrow> 'id"

definition is_transaction_valid :: "('tx, 'p, 'id) fragment_env \<Rightarrow> 'tx \<Rightarrow> bool" where
  "is_transaction_valid E tx = tx_verify_ok E tx"

fun is_fragment_valid :: "('tx, 'p, 'id) fragment_env \<Rightarrow> ('tx, 'p) fragment \<Rightarrow> bool" where
  "is_fragment_valid E (Initial _) = False"
| "is_fragment_valid E (OldUtxoDeclaration _) = False"
| "is_fragment_valid E (Transaction tx) = is_transaction_valid E tx"
| "is_fragment_valid E (StakeDelegation tx) = is_transaction_valid E tx"
| "is_fragment_valid E (OwnerStakeDelegation tx) = is_transaction_valid E tx"
| "is_fragment_valid E (PoolRegistration tx) = is_transaction_valid E tx"
| "is_fragment_valid E (PoolRetirement tx) = is_transaction_valid E tx"
| "is_fragment_valid E (PoolUpdate tx) = is_transaction_valid E tx"
| "is_fragment_valid E (UpdateProposal tx) = is_transaction_valid E tx"
| "is_fragment_valid E (UpdateVote tx) = is_transaction_valid E tx"
| "is_fragment_valid E (VotePlan tx) = is_transaction_valid E tx"
| "is_fragment_valid E (VoteCast tx) = is_transaction_valid E tx"
| "is_fragment_valid E (VoteTally tx) = is_transaction_valid E tx"
| "is_fragment_valid E (MintToken tx) = is_transaction_valid E tx"
| "is_fragment_valid E (Evm _) = True"
| "is_fragment_valid E (EvmMapping tx) = is_transaction_valid E tx"

fun get_transaction_expiry_date ::
  "('tx, 'p, 'id) fragment_env \<Rightarrow> ('tx, 'p) fragment \<Rightarrow> block_date option" where
  "get_transaction_expiry_date E (Initial _) = None"
| "get_transaction_expiry_date E (OldUtxoDeclaration _) = None"
| "get_transaction_expiry_date E (Evm _) = None"
| "get_transaction_expiry_date E (Transaction tx) = Some (tx_valid_until E tx)"
| "get_transaction_expiry_date E (OwnerStakeDelegation tx) = Some (tx_valid_until E tx)"
| "get_transaction_expiry_date E (StakeDelegation tx) = Some (tx_valid_until E tx)"
| "get_transaction_expiry_date E (PoolRegistration tx) = Some (tx_valid_until E tx)"
| "get_transaction_expiry_date E (PoolRetirement tx) = Some (tx_valid_until E tx)"
| "get_transaction_expiry_date E (PoolUpdate tx) = Some (tx_valid_until E tx)"
| "get_transaction_expiry_date E (UpdateProposal tx) = Some (tx_valid_until E tx)"
| "get_transaction_expiry_date E (UpdateVote tx) = Some (tx_valid_until E tx)"
| "get_transaction_expiry_date E (VotePlan tx) = Some (tx_valid_until E tx)"
| "get_transaction_expiry_date E (VoteCast tx) = Some (tx_valid_until E tx)"
| "get_transaction_expiry_date E (VoteTally tx) = Some (tx_valid_until E tx)"
| "get_transaction_expiry_date E (MintToken tx) = Some (tx_valid_until E tx)"
| "get_transaction_expiry_date E (EvmMapping tx) = Some (tx_valid_until E tx)"

section \<open>Fragment logs\<close>

datatype fragment_origin = Network | Rest | JRpc

datatype 'h fragment_status =
    Pending
  | Rejected (rejection_reason: string)
  | InABlock (in_block_date: block_date) (in_block: 'h)

text \<open>
  The system clock is a sequence of readings \<open>clk 0\<close>, \<open>clk 1\<close>, ... (times are natural
  numbers), one for each call of \<^verbatim>\<open>SystemTime::now\<close>; an operation that makes several calls
  takes the readings in order.
\<close>

record ('id, 'h) fragment_log =
  fl_fragment_id :: 'id
  fl_received_from :: fragment_origin
  fl_received_at :: nat
  fl_last_updated_at :: nat
  fl_status :: "'h fragment_status"

definition is_pending :: "'h fragment_status \<Rightarrow> bool" where
  "is_pending s \<longleftrightarrow> (case s of Pending \<Rightarrow> True | _ \<Rightarrow> False)"

definition is_rejected :: "'h fragment_status \<Rightarrow> bool" where
  "is_rejected s \<longleftrightarrow> (case s of Rejected _ \<Rightarrow> True | _ \<Rightarrow> False)"

definition is_in_a_block :: "'h fragment_status \<Rightarrow> bool" where
  "is_in_a_block s \<longleftrightarrow> (case s of InABlock _ _ \<Rightarrow> True | _ \<Rightarrow> False)"

definition fragment_log_new :: "(nat \<Rightarrow> nat) \<Rightarrow> 'id \<Rightarrow> fragment_origin \<Rightarrow> ('id, 'h) fragment_log" where
  "fragment_log_new clk fid origin =
     \<lparr>fl_fragment_id = fid, fl_received_from = origin, fl_received_at = clk 0,
      fl_last_updated_at = clk 1, fl_status = Pending\<rparr>"

text \<open>\<^verbatim>\<open>FragmentLog::modify\<close>: the result flag and the updated log.\<close>

definition fragment_log_modify ::
  "nat \<Rightarrow> 'h fragment_status \<Rightarrow> ('id, 'h) fragment_log \<Rightarrow> bool \<times> ('id, 'h) fragment_log" where
  "fragment_log_modify now new_status l =
     (if is_in_a_block (fl_status l) \<and> \<not> is_in_a_block new_status then (False, l)
      else (True, l\<lparr>fl_status := new_status, fl_last_updated_at := now\<rparr>))"

section \<open>Rejections\<close>

datatype fragment_rejection_reason =
    FragmentAlreadyInLog
  | FragmentInvalid
  | PreviousFragmentInvalid
  | PoolOverflow
  | FragmentExpired
  | FragmentValidForTooLong

record 'id rejected_fragment_info =
  rj_id :: 'id
  rj_reason :: fragment_rejection_reason

record 'id fragments_processing_summary =
  sm_accepted :: "'id list"
  sm_rejected :: "'id rejected_fragment_info list"

fun reason_is_error :: "fragment_rejection_reason \<Rightarrow> bool" where
  "reason_is_error FragmentInvalid = True"
| "reason_is_error PreviousFragmentInvalid = True"
| "reason_is_error PoolOverflow = True"
| "reason_is_error _ = False"

definition summary_is_error :: "'id fragments_processing_summary \<Rightarrow> bool" where
  "summary_is_error s \<longleftrightarrow> list_ex (\<lambda>info. reason_is_error (rj_reason info)) (sm_rejected s)"

definition summary_fragment_ids :: "'id fragments_processing_summary \<Rightarrow> 'id list" where
  "summary_fragment_ids s = map rj_id (sm_rejected s) @ sm_accepted s"

section \<open>Status transitions\<close>

lemma status_pred_simps [simp]:
  "is_pending Pending" "\<not> is_pending (Rejected r)" "\<not> is_pending (InABlock d b)"
  "\<not> is_rejected Pending" "is_rejected (Rejected r)" "\<not> is_rejected (InABlock d b)"
  "\<not> is_in_a_block Pending" "\<not> is_in_a_block (Rejected r)" "is_in_a_block (InABlock d b)"
  by (simp_all add: is_pending_def is_rejected_def is_in_a_block_def)

lemma is_pending_iff: "is_pending s \<longleftrightarrow> s = Pending"
  by (cases s) simp_all

lemma fragment_log_modify_id [simp]:
  "fl_fragment_id (snd (fragment_log_modify now st l)) = fl_fragment_id l"
  by (simp add: fragment_log_modify_def)

text \<open>A log that reached a block never leaves that status again.\<close>

lemma fragment_log_modify_in_block:
  "is_in_a_block (fl_status l) \<Longrightarrow> is_in_a_block (fl_status (snd (fragment_log_modify now st l)))"
  by (simp add: fragment_log_modify_def)

lemma fragment_log_modify_accepted:
  "fst (fragment_log_modify now st l) \<Longrightarrow> fl_status (snd (fragment_log_modify now st l)) = st"
  by (auto simp: fragment_log_modify_def split: if_splits)

end
