(* ===== verification/Fragment_Pool.thy ===== *)
theory Fragment_Pool
  imports Indexed_Deque Fragments
begin

text \<open>
  The pool of pending fragments, \<^verbatim>\<open>internal::Pool\<close> of
  \<^verbatim>\<open>jormungandr/src/fragment/pool.rs\<close>: the queue of fragments (the indexed deque), the
  expiry queue (a \<^verbatim>\<open>BTreeSet\<close>, here the list of its elements in increasing order) and the
  total size in bytes (a \<^verbatim>\<open>usize\<close>, here a 64-bit word that wraps around as in a release
  build). Operations return \<open>None\<close> where the code panics.

  The representation predicate \<open>pool_rep\<close> relates a pool to the list of its entries, newest
  first: the expiry queue and the size are exactly those of the entries. Every operation
  is proved to succeed and to act on that list as specified.
\<close>

section \<open>The expiry queue\<close>

datatype 'id timeout_queue_item = TimeoutQueueItem (valid_until: block_date) (item_id: 'id)

instantiation timeout_queue_item :: (linorder) linorder
begin

definition less_eq_timeout_queue_item :: "'a timeout_queue_item \<Rightarrow> 'a timeout_queue_item \<Rightarrow> bool" where
  "less_eq_timeout_queue_item a b \<longleftrightarrow>
     (if valid_until a \<noteq> valid_until b then valid_until a < valid_until b else item_id a \<le> item_id b)"

definition less_timeout_queue_item :: "'a timeout_queue_item \<Rightarrow> 'a timeout_queue_item \<Rightarrow> bool" where
  "less_timeout_queue_item a b \<longleftrightarrow>
     (if valid_until a \<noteq> valid_until b then valid_until a < valid_until b else item_id a < item_id b)"

instance
  by intro_classes
    (auto simp: less_eq_timeout_queue_item_def less_timeout_queue_item_def
       timeout_queue_item.expand split: if_splits)

end

section \<open>Operations\<close>

record ('tx, 'p, 'id) pool =
  p_entries :: "('id, ('tx, 'p) fragment) deque"
  p_timeout_queue :: "'id timeout_queue_item list"
  p_max_entries :: nat
  p_total_size_bytes :: u64

definition pool_new :: "nat \<Rightarrow> ('tx, 'p, 'id) pool" where
  "pool_new max_entries =
     \<lparr>p_entries = deque_new, p_timeout_queue = [], p_max_entries = max_entries, p_total_size_bytes = 0\<rparr>"

definition pool_len :: "('tx, 'p, 'id) pool \<Rightarrow> nat" where
  "pool_len p = deque_len (p_entries p)"

definition timeout_queue_insert ::
  "('tx, 'p, 'id :: linorder) fragment_env \<Rightarrow> ('tx, 'p) fragment \<Rightarrow> 'id
    \<Rightarrow> 'id timeout_queue_item list \<Rightarrow> 'id timeout_queue_item list" where
  "timeout_queue_insert E f fid q =
     (case get_transaction_expiry_date E f of
        Some d \<Rightarrow> insort_insert (TimeoutQueueItem d fid) q
      | None \<Rightarrow> q)"

definition timeout_queue_remove ::
  "('tx, 'p, 'id) fragment_env \<Rightarrow> ('tx, 'p) fragment \<Rightarrow> 'id
    \<Rightarrow> 'id timeout_queue_item list \<Rightarrow> 'id timeout_queue_item list" where
  "timeout_queue_remove E f fid q =
     (case get_transaction_expiry_date E f of
        Some d \<Rightarrow> remove1 (TimeoutQueueItem d fid) q
      | None \<Rightarrow> q)"

text \<open>
  The iterator chain of \<^verbatim>\<open>insert_all\<close>: \<^verbatim>\<open>filter\<close> with the inserting closure, then
  \<^verbatim>\<open>take\<close>, which stops polling as soon as it has let \<open>n\<close> items through. The result is
  the pool, the collected items and the part of the input that was not consumed.
\<close>

fun pool_insert_loop ::
  "('tx, 'p, 'id :: linorder) fragment_env \<Rightarrow> nat \<Rightarrow> ('tx, 'p, 'id) pool \<Rightarrow> (('tx, 'p) fragment \<times> 'id) list
    \<Rightarrow> (('tx, 'p, 'id) pool \<times> (('tx, 'p) fragment \<times> 'id) list \<times> (('tx, 'p) fragment \<times> 'id) list) option" where
  "pool_insert_loop E 0 p frs = Some (p, [], frs)"
| "pool_insert_loop E (Suc n) p [] = Some (p, [], [])"
| "pool_insert_loop E (Suc n) p ((f, fid) # frs) =
     (if deque_contains (p_entries p) fid then pool_insert_loop E (Suc n) p frs
      else do {
        es \<leftarrow> deque_push_front (p_entries p) fid f;
        (p', acc, rest) \<leftarrow> pool_insert_loop E n
           (p\<lparr>p_total_size_bytes := p_total_size_bytes p + of_nat (serialized_size E f),
              p_timeout_queue := timeout_queue_insert E f fid (p_timeout_queue p),
              p_entries := es\<rparr>) frs;
        Some (p', (f, fid) # acc, rest)
      })"

definition pool_insert_all where
  "pool_insert_all E p frs = pool_insert_loop E (usize_sub (p_max_entries p) (deque_len (p_entries p))) p frs"

fun pool_remove_all ::
  "('tx, 'p, 'id) fragment_env \<Rightarrow> ('tx, 'p, 'id) pool \<Rightarrow> 'id list \<Rightarrow> ('tx, 'p, 'id) pool option" where
  "pool_remove_all E p [] = Some p"
| "pool_remove_all E p (fid # fids) = do {
     (removed, es) \<leftarrow> deque_remove (p_entries p) fid;
     pool_remove_all E
       (case removed of
          Some f \<Rightarrow> p\<lparr>p_entries := es,
                      p_timeout_queue := timeout_queue_remove E f fid (p_timeout_queue p),
                      p_total_size_bytes := p_total_size_bytes p - of_nat (serialized_size E f)\<rparr>
        | None \<Rightarrow> p\<lparr>p_entries := es\<rparr>) fids
   }"

definition pool_remove_oldest ::
  "('tx, 'p, 'id) fragment_env \<Rightarrow> ('tx, 'p, 'id) pool
    \<Rightarrow> ((('tx, 'p) fragment \<times> 'id) option \<times> ('tx, 'p, 'id) pool) option" where
  "pool_remove_oldest E p = do {
     (popped, es) \<leftarrow> deque_pop_back (p_entries p);
     (case popped of
        None \<Rightarrow> Some (None, p\<lparr>p_entries := es\<rparr>)
      | Some (fid, f) \<Rightarrow>
          Some (Some (f, fid),
                p\<lparr>p_entries := es,
                  p_timeout_queue := timeout_queue_remove E f fid (p_timeout_queue p),
                  p_total_size_bytes := p_total_size_bytes p - of_nat (serialized_size E f)\<rparr>))
   }"

fun pool_return_to_pool ::
  "('tx, 'p, 'id :: linorder) fragment_env \<Rightarrow> ('tx, 'p, 'id) pool \<Rightarrow> (('tx, 'p) fragment \<times> 'id) list
    \<Rightarrow> ('tx, 'p, 'id) pool option" where
  "pool_return_to_pool E p [] = Some p"
| "pool_return_to_pool E p ((f, fid) # frs) = do {
     es \<leftarrow> deque_push_back (p_entries p) fid f;
     pool_return_to_pool E
       (p\<lparr>p_timeout_queue := timeout_queue_insert E f fid (p_timeout_queue p),
          p_total_size_bytes := p_total_size_bytes p + of_nat (serialized_size E f),
          p_entries := es\<rparr>) frs
   }"

fun pool_expire_loop ::
  "('tx, 'p, 'id) fragment_env \<Rightarrow> ('tx, 'p, 'id) pool \<Rightarrow> 'id timeout_queue_item list
    \<Rightarrow> ('tx, 'p, 'id) pool option" where
  "pool_expire_loop E p [] = Some p"
| "pool_expire_loop E p (item # items) = do {
     (removed, es) \<leftarrow> deque_remove (p_entries p) (item_id item);
     pool_expire_loop E
       (case removed of
          Some f \<Rightarrow> p\<lparr>p_timeout_queue := remove1 item (p_timeout_queue p), p_entries := es,
                      p_total_size_bytes := p_total_size_bytes p - of_nat (serialized_size E f)\<rparr>
        | None \<Rightarrow> p\<lparr>p_timeout_queue := remove1 item (p_timeout_queue p), p_entries := es\<rparr>) items
   }"

definition pool_remove_expired_txs ::
  "('tx, 'p, 'id) fragment_env \<Rightarrow> ('tx, 'p, 'id) pool \<Rightarrow> block_date
    \<Rightarrow> ('id list \<times> ('tx, 'p, 'id) pool) option" where
  "pool_remove_expired_txs E p block_date =
     (let to_remove = takeWhile (\<lambda>x. valid_until x < block_date) (p_timeout_queue p)
      in map_option (\<lambda>p'. (map item_id to_remove, p')) (pool_expire_loop E p to_remove))"

section \<open>The represented entries\<close>

definition timeout_items ::
  "('tx, 'p, 'id) fragment_env \<Rightarrow> 'id \<times> ('tx, 'p) fragment \<Rightarrow> 'id timeout_queue_item set" where
  "timeout_items E x = {TimeoutQueueItem d (fst x) | d. get_transaction_expiry_date E (snd x) = Some d}"

definition entries_size :: "('tx, 'p, 'id) fragment_env \<Rightarrow> ('id \<times> ('tx, 'p) fragment) list \<Rightarrow> nat" where
  "entries_size E xs = (\<Sum>x\<leftarrow>xs. serialized_size E (snd x))"

definition pool_entries :: "('tx, 'p, 'id) pool \<Rightarrow> ('id \<times> ('tx, 'p) fragment) list" where
  "pool_entries p = deque_list (p_entries p)"

definition pool_rep ::
  "('tx, 'p, 'id :: linorder) fragment_env \<Rightarrow> ('tx, 'p, 'id) pool \<Rightarrow> ('id \<times> ('tx, 'p) fragment) list \<Rightarrow> bool" where
  "pool_rep E p xs \<longleftrightarrow>
     deque_invar (p_entries p) \<and> pool_entries p = xs \<and>
     sorted (p_timeout_queue p) \<and> distinct (p_timeout_queue p) \<and>
     set (p_timeout_queue p) = (\<Union>x\<in>set xs. timeout_items E x) \<and>
     p_total_size_bytes p = of_nat (entries_size E xs)"

definition pool_inv :: "('tx, 'p, 'id :: linorder) fragment_env \<Rightarrow> ('tx, 'p, 'id) pool \<Rightarrow> bool" where
  "pool_inv E p \<longleftrightarrow> pool_rep E p (pool_entries p) \<and> length (pool_entries p) \<le> p_max_entries p"

text \<open>
  The reference for \<^verbatim>\<open>insert_all\<close>: the items whose identifier is neither in \<open>K\<close> nor that of
  an earlier item of the batch.
\<close>

fun first_new :: "'id set \<Rightarrow> ('f \<times> 'id) list \<Rightarrow> ('f \<times> 'id) list" where
  "first_new K [] = []"
| "first_new K ((f, fid) # frs) =
     (if fid \<in> K then first_new K frs else (f, fid) # first_new (insert fid K) frs)"

abbreviation (input) entry_of :: "'f \<times> 'id \<Rightarrow> 'id \<times> 'f" where
  "entry_of \<equiv> prod.swap"

definition expired :: "('tx, 'p, 'id) fragment_env \<Rightarrow> block_date \<Rightarrow> ('tx, 'p) fragment \<Rightarrow> bool" where
  "expired E now f \<longleftrightarrow> (case get_transaction_expiry_date E f of None \<Rightarrow> False | Some d \<Rightarrow> d < now)"

section \<open>One entry in, one entry out\<close>

lemma timeout_items_id: "i \<in> timeout_items E x \<Longrightarrow> item_id i = fst x"
  by (auto simp: timeout_items_def)

lemma pool_repD:
  assumes "pool_rep E p xs"
  shows "deque_invar (p_entries p)" "deque_list (p_entries p) = xs" "pool_entries p = xs" "wf_alist xs"
    "sorted (p_timeout_queue p)" "distinct (p_timeout_queue p)"
    "set (p_timeout_queue p) = (\<Union>x\<in>set xs. timeout_items E x)"
    "p_total_size_bytes p = of_nat (entries_size E xs)"
  using assms dq.keys_distinct [of "p_entries p"] by (auto simp: pool_rep_def pool_entries_def)

lemma pool_rep_item:
  assumes "pool_rep E p xs" and "i \<in> set (p_timeout_queue p)"
  obtains f where "(item_id i, f) \<in> set xs" "get_transaction_expiry_date E f = Some (valid_until i)"
  using assms(2) pool_repD(7) [OF assms(1)] by (auto simp: timeout_items_def intro: that)

lemma pool_rep_item_inj:
  assumes "pool_rep E p xs"
  shows "inj_on item_id (set (p_timeout_queue p))"
proof (rule inj_onI)
  fix a b
  assume ab: "a \<in> set (p_timeout_queue p)" "b \<in> set (p_timeout_queue p)" "item_id a = item_id b"
  obtain f where f: "(item_id a, f) \<in> set xs" "get_transaction_expiry_date E f = Some (valid_until a)"
    using pool_rep_item [OF assms ab(1)] .
  obtain g where g: "(item_id b, g) \<in> set xs" "get_transaction_expiry_date E g = Some (valid_until b)"
    using pool_rep_item [OF assms ab(2)] .
  have "f = g" using eq_key_imp_eq_value [OF pool_repD(4) [OF assms], of "item_id a" f g] f(1) g(1) ab(3) by simp
  with f(2) g(2) ab(3) show "a = b" by (simp add: timeout_queue_item.expand)
qed

lemma pool_len_entries: "pool_rep E p xs \<Longrightarrow> pool_len p = length xs"
  using dq.len_items [OF pool_repD(1)] pool_repD(2) by (fastforce simp: pool_len_def)

lemma pool_new_rep: "pool_rep E (pool_new n) []"
  using dq.empty_ok dq.items_empty by (simp add: pool_rep_def pool_new_def pool_entries_def entries_size_def)

lemma timeout_queue_insert_set:
  "set (timeout_queue_insert E f fid q) = set q \<union> timeout_items E (fid, f)"
  by (auto simp: timeout_queue_insert_def timeout_items_def set_insort_insert split: option.splits)

lemma timeout_queue_insert_sorted:
  "sorted q \<Longrightarrow> distinct q \<Longrightarrow>
     sorted (timeout_queue_insert E f fid q) \<and> distinct (timeout_queue_insert E f fid q)"
  by (auto simp: timeout_queue_insert_def sorted_insort_insert distinct_insort_insert split: option.splits)

lemma timeout_queue_remove_set:
  "distinct q \<Longrightarrow> set (timeout_queue_remove E f fid q) = set q - timeout_items E (fid, f)"
  by (auto simp: timeout_queue_remove_def timeout_items_def split: option.splits)

lemma timeout_queue_remove_sorted:
  "sorted q \<Longrightarrow> distinct q \<Longrightarrow>
     sorted (timeout_queue_remove E f fid q) \<and> distinct (timeout_queue_remove E f fid q)"
  by (auto simp: timeout_queue_remove_def sorted_remove1 distinct_remove1 split: option.splits)

lemma entries_size_simps [simp]:
  "entries_size E [] = 0"
  "entries_size E (x # xs) = serialized_size E (snd x) + entries_size E xs"
  "entries_size E (xs @ ys) = entries_size E xs + entries_size E ys"
  by (simp_all add: entries_size_def)

lemma pool_rep_add:
  assumes "pool_rep E p xs"
    and "deque_invar es" "deque_list es = us @ (fid, f) # vs" and "xs = us @ vs"
  shows "pool_rep E (p\<lparr>p_entries := es, p_timeout_queue := timeout_queue_insert E f fid (p_timeout_queue p),
     p_total_size_bytes := p_total_size_bytes p + of_nat (serialized_size E f)\<rparr>) (us @ (fid, f) # vs)"
  using assms timeout_queue_insert_sorted [OF pool_repD(5,6) [OF assms(1)], of E f fid]
    pool_repD(7,8) [OF assms(1)]
  by (auto simp: pool_rep_def pool_entries_def timeout_queue_insert_set)

lemma pool_rep_drop:
  assumes rep: "pool_rep E p xs" and fid: "map_of xs fid = Some f"
    and es: "deque_invar es" "deque_list es = AList.delete fid xs"
  shows "pool_rep E (p\<lparr>p_entries := es, p_timeout_queue := timeout_queue_remove E f fid (p_timeout_queue p),
     p_total_size_bytes := p_total_size_bytes p - of_nat (serialized_size E f)\<rparr>) (AList.delete fid xs)"
proof -
  note D = pool_repD [OF rep]
  have mem: "y = (fid, f)" if "y \<in> set xs" "fst y = fid" for y
  proof -
    have "map_of xs (fst y) = Some (snd y)" using that(1) by (intro map_of_is_SomeI [OF D(4)]) simp
    with fid that(2) show ?thesis by (cases y) simp
  qed
  have "(\<Union>x\<in>set xs. timeout_items E x) - timeout_items E (fid, f)
      = (\<Union>x\<in>set (AList.delete fid xs). timeout_items E x)"
    using mem by (auto simp: set_adelete) (metis fst_conv timeout_items_id)
  moreover have "entries_size E xs = serialized_size E f + entries_size E (AList.delete fid xs)"
    using sum_list_adelete [OF D(4) fid, of "\<lambda>x. serialized_size E (snd x)"] by (simp add: entries_size_def)
  moreover note timeout_queue_remove_sorted [OF D(5,6), of E f fid] timeout_queue_remove_set [OF D(6), of E f fid]
  ultimately show ?thesis using es D(7,8) by (simp add: pool_rep_def pool_entries_def)
qed

section \<open>Removal\<close>

lemma pool_remove_all_rep:
  assumes "pool_rep E p xs"
  shows "\<exists>p'. pool_remove_all E p fids = Some p' \<and> p_max_entries p' = p_max_entries p \<and>
           pool_rep E p' (filter (\<lambda>x. fst x \<notin> set fids) xs)"
  using assms
proof (induction fids arbitrary: p xs)
  case (Cons fid fids)
  note D = pool_repD [OF Cons.prems]
  obtain es where es: "deque_remove (p_entries p) fid = Some (map_of xs fid, es)"
      "deque_invar es" "deque_list es = AList.delete fid xs"
    using dq.remove_any [OF D(1), of fid] D(2) by auto
  define p' where "p' = (case map_of xs fid of
      Some f \<Rightarrow> p\<lparr>p_entries := es,
                  p_timeout_queue := timeout_queue_remove E f fid (p_timeout_queue p),
                  p_total_size_bytes := p_total_size_bytes p - of_nat (serialized_size E f)\<rparr>
    | None \<Rightarrow> p\<lparr>p_entries := es\<rparr>)"
  have p': "pool_rep E p' (AList.delete fid xs)" "p_max_entries p' = p_max_entries p"
  proof -
    show "pool_rep E p' (AList.delete fid xs)"
    proof (cases "map_of xs fid")
      case None
      then have "AList.delete fid xs = xs" by (simp add: map_of_eq_None_iff)
      with None es(2,3) Cons.prems show ?thesis by (simp add: p'_def pool_rep_def pool_entries_def)
    next
      case (Some f)
      with pool_rep_drop [OF Cons.prems Some es(2,3)] show ?thesis by (simp add: p'_def)
    qed
  qed (simp add: p'_def split: option.split)
  have "filter (\<lambda>x. fst x \<notin> set fids) (AList.delete fid xs) = filter (\<lambda>x. fst x \<notin> set (fid # fids)) xs"
    by (auto simp: adelete_filter intro: filter_cong)
  with Cons.IH [OF p'(1)] p'(2) es(1) show ?case by (auto simp: p'_def)
qed simp

lemma pool_remove_oldest_empty:
  assumes "pool_rep E p []"
  shows "pool_remove_oldest E p = Some (None, p)"
  using dq.pop_back_empty [OF pool_repD(1,2) [OF assms]] by (simp add: pool_remove_oldest_def)

lemma pool_remove_oldest_snoc:
  assumes "pool_rep E p (xs @ [(fid, f)])"
  shows "\<exists>p'. pool_remove_oldest E p = Some (Some (f, fid), p') \<and> p_max_entries p' = p_max_entries p \<and>
           pool_rep E p' xs"
proof -
  note D = pool_repD [OF assms]
  obtain es where es: "deque_pop_back (p_entries p) = Some (Some (fid, f), es)" "deque_invar es" "deque_list es = xs"
    using dq.pop_back_snoc [OF D(1,2)] by auto
  have "AList.delete fid (xs @ [(fid, f)]) = xs" "map_of (xs @ [(fid, f)]) fid = Some f"
    using D(4) adelete_mid [of fid xs "[]" f] by (auto simp: map_add_Some_iff map_of_eq_None_iff)
  with pool_rep_drop [OF assms, of fid f es] es show ?thesis by (simp add: pool_remove_oldest_def)
qed

lemma pool_expire_loop_rep:
  assumes "pool_rep E p xs" and "distinct items" and "set items \<subseteq> set (p_timeout_queue p)"
  shows "\<exists>p'. pool_expire_loop E p items = Some p' \<and> p_max_entries p' = p_max_entries p \<and>
           pool_rep E p' (filter (\<lambda>x. fst x \<notin> item_id ` set items) xs)"
  using assms
proof (induction items arbitrary: p xs)
  case (Cons item items)
  note D = pool_repD [OF Cons.prems(1)]
  let ?id = "item_id item"
  obtain f where f: "(?id, f) \<in> set xs" "get_transaction_expiry_date E f = Some (valid_until item)"
    using pool_rep_item [OF Cons.prems(1), of item] Cons.prems(3) by auto
  then have fid: "map_of xs ?id = Some f" using D(4) by simp
  obtain es where es: "deque_remove (p_entries p) ?id = Some (Some f, es)"
      "deque_invar es" "deque_list es = AList.delete ?id xs"
    using dq.remove_any [OF D(1), of ?id] D(2) fid by auto
  let ?p = "p\<lparr>p_timeout_queue := remove1 item (p_timeout_queue p), p_entries := es,
     p_total_size_bytes := p_total_size_bytes p - of_nat (serialized_size E f)\<rparr>"
  have "timeout_queue_remove E f ?id (p_timeout_queue p) = remove1 item (p_timeout_queue p)"
    by (simp add: timeout_queue_remove_def f(2))
  with pool_rep_drop [OF Cons.prems(1) fid es(2,3)] have rep: "pool_rep E ?p (AList.delete ?id xs)"
    by (simp add: pool_rep_def pool_entries_def)
  have "set items \<subseteq> set (p_timeout_queue ?p)" using Cons.prems(2,3) D(6) by auto
  from Cons.IH [OF rep _ this] Cons.prems(2) obtain p' where
    p': "pool_expire_loop E ?p items = Some p'" "p_max_entries p' = p_max_entries p"
      "pool_rep E p' (filter (\<lambda>x. fst x \<notin> item_id ` set items) (AList.delete ?id xs))"
    by auto
  have "filter (\<lambda>x. fst x \<notin> item_id ` set items) (AList.delete ?id xs)
      = filter (\<lambda>x. fst x \<notin> item_id ` set (item # items)) xs"
    by (auto simp: adelete_filter intro: filter_cong)
  with p' es(1) show ?case by auto
qed simp

lemma pool_remove_expired_rep:
  assumes rep: "pool_rep E p xs"
  shows "\<exists>ids p'. pool_remove_expired_txs E p now = Some (ids, p') \<and> p_max_entries p' = p_max_entries p \<and>
           pool_rep E p' (filter (\<lambda>x. \<not> expired E now (snd x)) xs) \<and>
           distinct ids \<and> set ids = {fid. \<exists>f. (fid, f) \<in> set xs \<and> expired E now f}"
proof -
  note D = pool_repD [OF rep]
  define items where "items = takeWhile (\<lambda>x. valid_until x < now) (p_timeout_queue p)"
  have "sorted_wrt (\<lambda>a b. valid_until b < now \<longrightarrow> valid_until a < now) (p_timeout_queue p)"
    using D(5) by (rule sorted_wrt_mono_rel [rotated])
      (auto simp: less_eq_timeout_queue_item_def split: if_splits)
  from takeWhile_sorted_filter [OF this]
  have items: "items = filter (\<lambda>x. valid_until x < now) (p_timeout_queue p)" by (simp add: items_def)
  have ids: "fid \<in> item_id ` set items \<longleftrightarrow> (\<exists>f. (fid, f) \<in> set xs \<and> expired E now f)" for fid
  proof
    assume "\<exists>f. (fid, f) \<in> set xs \<and> expired E now f"
    then obtain f d where "(fid, f) \<in> set xs" "get_transaction_expiry_date E f = Some d" "d < now"
      by (auto simp: expired_def split: option.splits)
    then have "TimeoutQueueItem d fid \<in> set items" by (force simp: items D(7) timeout_items_def)
    then show "fid \<in> item_id ` set items" by force
  qed (auto simp: items D(7) timeout_items_def expired_def)
  have iff: "fst x \<notin> item_id ` set items \<longleftrightarrow> \<not> expired E now (snd x)" if "x \<in> set xs" for x
  proof -
    obtain fid f where x: "x = (fid, f)" by (rule prod.exhaust)
    show ?thesis using that D(4) unfolding ids x by (auto dest: eq_key_imp_eq_value)
  qed
  have "inj_on item_id (set items)"
    by (rule inj_on_subset [OF pool_rep_item_inj [OF rep]]) (auto simp: items)
  then have "distinct (map item_id items)" using D(6) by (simp add: distinct_map items)
  moreover have "filter (\<lambda>x. fst x \<notin> item_id ` set items) xs = filter (\<lambda>x. \<not> expired E now (snd x)) xs"
    using iff by (intro filter_cong) auto
  moreover obtain p' where "pool_expire_loop E p items = Some p'" "p_max_entries p' = p_max_entries p"
      "pool_rep E p' (filter (\<lambda>x. fst x \<notin> item_id ` set items) xs)"
    using pool_expire_loop_rep [OF rep, of items] D(6) by (auto simp: items)
  ultimately show ?thesis using ids
    by (simp add: pool_remove_expired_txs_def Let_def set_eq_iff flip: items_def)
qed

section \<open>Insertion\<close>

lemma first_new_ids:
  "distinct (map snd (first_new K frs)) \<and> set (map snd (first_new K frs)) = snd ` set frs - K"
  by (induction K frs rule: first_new.induct) auto

lemma pool_insert_loop_rep:
  assumes "pool_rep E p xs"
  shows "\<exists>p' rest. pool_insert_loop E n p frs = Some (p', take n (first_new (set (keys_of xs)) frs), rest) \<and>
           p_max_entries p' = p_max_entries p \<and>
           pool_rep E p' (rev (map entry_of (take n (first_new (set (keys_of xs)) frs))) @ xs)"
  using assms
proof (induction E n p frs arbitrary: xs rule: pool_insert_loop.induct)
  case (3 E n p f fid frs)
  note D = pool_repD [OF "3.prems"]
  show ?case
  proof (cases "deque_contains (p_entries p) fid")
    case True
    then have "fid \<in> set (keys_of xs)" using dq.contains_items [OF D(1)] D(2) by simp
    then show ?thesis using "3.IH"(1) [OF True "3.prems"] True by simp
  next
    case False
    then have new: "fid \<notin> set (keys_of xs)" using dq.contains_items [OF D(1)] D(2) by simp
    then obtain es where es: "deque_push_front (p_entries p) fid f = Some es"
        "deque_invar es" "deque_list es = (fid, f) # xs"
      using dq.push_front_fresh [OF D(1), of fid f] D(2) by auto
    let ?p = "p\<lparr>p_total_size_bytes := p_total_size_bytes p + of_nat (serialized_size E f),
      p_timeout_queue := timeout_queue_insert E f fid (p_timeout_queue p), p_entries := es\<rparr>"
    have "pool_rep E ?p ((fid, f) # xs)"
      using pool_rep_add [OF "3.prems" es(2), of "[]" fid f xs] es(3)
      by (simp add: pool_rep_def pool_entries_def)
    from "3.IH"(2) [OF False es(1) this] es(1) False new show ?thesis by auto
  qed
qed auto

lemma first_new_all:
  "distinct (map snd frs) \<Longrightarrow> snd ` set frs \<inter> K = {} \<Longrightarrow> first_new K frs = frs"
  by (induction K frs rule: first_new.induct) auto

text \<open>What is left unconsumed is left only because the quota was reached.\<close>

lemma pool_insert_loop_rest:
  assumes "pool_rep E p xs" and "pool_insert_loop E n p frs = Some (p', acc, rest)"
  shows "\<exists>used. frs = used @ rest \<and> acc = first_new (set (keys_of xs)) used \<and> (rest \<noteq> [] \<longrightarrow> length acc = n)"
  using assms
proof (induction E n p frs arbitrary: xs p' acc rest rule: pool_insert_loop.induct)
  case (3 E n p f fid frs)
  note D = pool_repD [OF "3.prems"(1)]
  show ?case
  proof (cases "deque_contains (p_entries p) fid")
    case True
    then have "fid \<in> set (keys_of xs)" using dq.contains_items [OF D(1)] D(2) by simp
    moreover obtain used where "frs = used @ rest" "acc = first_new (set (keys_of xs)) used"
        "rest \<noteq> [] \<longrightarrow> length acc = Suc n"
      using "3.IH"(1) [OF True "3.prems"(1)] "3.prems"(2) True by auto
    ultimately show ?thesis by (intro exI [of _ "(f, fid) # used"]) simp
  next
    case False
    then have new: "fid \<notin> set (keys_of xs)" using dq.contains_items [OF D(1)] D(2) by simp
    then obtain es where es: "deque_push_front (p_entries p) fid f = Some es"
        "deque_invar es" "deque_list es = (fid, f) # xs"
      using dq.push_front_fresh [OF D(1), of fid f] D(2) by auto
    let ?p = "p\<lparr>p_total_size_bytes := p_total_size_bytes p + of_nat (serialized_size E f),
      p_timeout_queue := timeout_queue_insert E f fid (p_timeout_queue p), p_entries := es\<rparr>"
    have "pool_rep E ?p ((fid, f) # xs)"
      using pool_rep_add [OF "3.prems"(1) es(2), of "[]" fid f xs] es(3)
      by (simp add: pool_rep_def pool_entries_def)
    moreover obtain acc' where acc: "pool_insert_loop E n ?p frs = Some (p', acc', rest)" "acc = (f, fid) # acc'"
      using "3.prems"(2) False es(1) by (auto simp: bind_eq_Some_conv)
    ultimately obtain used where "frs = used @ rest" "acc' = first_new (set (keys_of ((fid, f) # xs))) used"
        "rest \<noteq> [] \<longrightarrow> length acc' = n"
      using "3.IH"(2) [OF False es(1)] by blast
    with new acc(2) show ?thesis by (intro exI [of _ "(f, fid) # used"]) simp
  qed
qed auto

lemma pool_insert_all_rep:
  assumes "pool_inv E p"
  obtains p' used rest where
    "pool_insert_all E p frs = Some (p', first_new (set (keys_of (pool_entries p))) used, rest)"
    "frs = used @ rest" "rest \<noteq> [] \<longrightarrow> pool_len p' = p_max_entries p"
    "first_new (set (keys_of (pool_entries p))) used =
       take (p_max_entries p - length (pool_entries p)) (first_new (set (keys_of (pool_entries p))) frs)"
    "p_max_entries p' = p_max_entries p"
    "pool_rep E p' (rev (map entry_of (first_new (set (keys_of (pool_entries p))) used)) @ pool_entries p)"
proof -
  let ?n = "p_max_entries p - length (pool_entries p)" and ?K = "set (keys_of (pool_entries p))"
  have rep: "pool_rep E p (pool_entries p)" and len: "length (pool_entries p) \<le> p_max_entries p"
    using assms by (auto simp: pool_inv_def)
  have "usize_sub (p_max_entries p) (deque_len (p_entries p)) = ?n"
    using len dq.len_items [OF pool_repD(1) [OF rep]] by (simp add: pool_entries_def)
  moreover obtain p' rest where p': "pool_insert_loop E ?n p frs = Some (p', take ?n (first_new ?K frs), rest)"
      "p_max_entries p' = p_max_entries p" "pool_rep E p' (rev (map entry_of (take ?n (first_new ?K frs))) @ pool_entries p)"
    using pool_insert_loop_rep [OF rep, of ?n frs] by auto
  moreover obtain used where used: "frs = used @ rest" "take ?n (first_new ?K frs) = first_new ?K used"
      "rest \<noteq> [] \<longrightarrow> length (take ?n (first_new ?K frs)) = ?n"
    using pool_insert_loop_rest [OF rep p'(1)] by blast
  moreover have "rest \<noteq> [] \<longrightarrow> pool_len p' = p_max_entries p"
    using pool_len_entries [OF p'(3)] used(3) len by auto
  ultimately show ?thesis by (intro that [of p' used rest]) (simp_all add: pool_insert_all_def)
qed

lemma pool_return_rep:
  assumes "pool_rep E p xs" and "distinct (map snd frs)" and "set (map snd frs) \<inter> set (keys_of xs) = {}"
  shows "\<exists>p'. pool_return_to_pool E p frs = Some p' \<and> p_max_entries p' = p_max_entries p \<and>
           pool_rep E p' (xs @ map entry_of frs)"
  using assms
proof (induction frs arbitrary: p xs)
  case (Cons x frs)
  obtain f fid where x: "x = (f, fid)" by (cases x)
  note D = pool_repD [OF Cons.prems(1)]
  obtain es where es: "deque_push_back (p_entries p) fid f = Some es"
      "deque_invar es" "deque_list es = xs @ [(fid, f)]"
    using dq.push_back_fresh [OF D(1), of fid f] D(2) Cons.prems(3) x by auto
  let ?p = "p\<lparr>p_timeout_queue := timeout_queue_insert E f fid (p_timeout_queue p),
     p_total_size_bytes := p_total_size_bytes p + of_nat (serialized_size E f), p_entries := es\<rparr>"
  have rep: "pool_rep E ?p (xs @ [(fid, f)])"
    using pool_rep_add [OF Cons.prems(1) es(2), of xs fid f "[]"] es(3)
    by (simp add: pool_rep_def pool_entries_def)
  have "set (map snd frs) \<inter> set (keys_of (xs @ [(fid, f)])) = {}" using Cons.prems(2,3) x by auto
  from Cons.IH [OF rep _ this] Cons.prems(2) es(1) show ?case by (auto simp: x)
qed simp

lemma pool_rep_inv: "pool_rep E p xs \<Longrightarrow> length xs \<le> p_max_entries p \<Longrightarrow> pool_inv E p"
  by (auto simp: pool_inv_def pool_rep_def)

lemma pool_inv_rep: "pool_inv E p \<Longrightarrow> pool_rep E p (pool_entries p) \<and> length (pool_entries p) \<le> p_max_entries p"
  by (simp add: pool_inv_def)

lemma pool_insert_all_inv:
  assumes "pool_inv E p"
  shows "\<exists>p' used rest. pool_insert_all E p frs = Some (p', first_new (set (keys_of (pool_entries p))) used, rest) \<and>
    frs = used @ rest \<and> (rest \<noteq> [] \<longrightarrow> pool_len p' = p_max_entries p) \<and>
    p_max_entries p' = p_max_entries p \<and>
    pool_rep E p' (rev (map entry_of (first_new (set (keys_of (pool_entries p))) used)) @ pool_entries p) \<and>
    pool_inv E p'"
proof -
  obtain p' used rest where p': "pool_insert_all E p frs = Some (p', first_new (set (keys_of (pool_entries p))) used, rest)"
      "frs = used @ rest" "rest \<noteq> [] \<longrightarrow> pool_len p' = p_max_entries p"
      "first_new (set (keys_of (pool_entries p))) used =
         take (p_max_entries p - length (pool_entries p)) (first_new (set (keys_of (pool_entries p))) frs)"
      "p_max_entries p' = p_max_entries p"
      "pool_rep E p' (rev (map entry_of (first_new (set (keys_of (pool_entries p))) used)) @ pool_entries p)"
    by (rule pool_insert_all_rep [OF assms, of frs])
  have "length (rev (map entry_of (first_new (set (keys_of (pool_entries p))) used)) @ pool_entries p) \<le> p_max_entries p'"
    using pool_inv_rep [OF assms, THEN conjunct2] p'(5) unfolding p'(4) by auto
  with p' pool_rep_inv [OF p'(6)] show ?thesis by blast
qed

section \<open>Correctness\<close>

lemma pool_new_simps [simp]: "pool_entries (pool_new n) = []" "p_max_entries (pool_new n) = n"
  by (simp_all add: pool_new_def pool_entries_def dq.items_empty)

lemma pool_new_inv [simp]: "pool_inv E (pool_new n)"
  by (rule pool_rep_inv [OF pool_new_rep]) simp

definition example_env :: "(nat, unit, nat) fragment_env" where
  "example_env = \<lparr>tx_valid_until = (\<lambda>tx. BlockDate 0 (of_nat tx)), tx_verify_ok = (\<lambda>_. True),
     serialized_size = (\<lambda>_. 100), fragment_hash = (\<lambda>f. case f of Transaction tx \<Rightarrow> tx | _ \<Rightarrow> 0)\<rparr>"

text \<open>
  (C34) Insertion of a batch never panics. It admits the fragments that are neither in the pool nor
  earlier in the batch, in their order, up to the free capacity of the pool; they become
  the newest entries, the size and the expiry queue follow, and the capacity is
  never exceeded. Input is left unconsumed only when the pool is full.
\<close>

theorem pool_insert_all_correct:
  assumes "pool_inv E p"
  shows "\<exists>p' acc rest. pool_insert_all E p frs = Some (p', acc, rest) \<and>
    acc = take (p_max_entries p - length (pool_entries p)) (first_new (set (keys_of (pool_entries p))) frs) \<and>
    pool_entries p' = rev (map prod.swap acc) @ pool_entries p \<and> pool_inv E p' \<and>
    p_max_entries p' = p_max_entries p \<and>
    (\<exists>used. frs = used @ rest) \<and> (rest \<noteq> [] \<longrightarrow> pool_len p' = p_max_entries p')"
proof -
  obtain p' used rest where p': "pool_insert_all E p frs = Some (p', first_new (set (keys_of (pool_entries p))) used, rest)"
      "frs = used @ rest" "rest \<noteq> [] \<longrightarrow> pool_len p' = p_max_entries p"
      "first_new (set (keys_of (pool_entries p))) used =
         take (p_max_entries p - length (pool_entries p)) (first_new (set (keys_of (pool_entries p))) frs)"
      "p_max_entries p' = p_max_entries p"
      "pool_rep E p' (rev (map entry_of (first_new (set (keys_of (pool_entries p))) used)) @ pool_entries p)"
    by (rule pool_insert_all_rep [OF assms, of frs])
  moreover have "pool_inv E p'" using pool_insert_all_inv [OF assms, of frs] p'(1) by auto
  ultimately show ?thesis
    using pool_repD(3) [OF p'(6)]
    by (intro exI [of _ p'] exI [of _ "first_new (set (keys_of (pool_entries p))) used"] exI [of _ rest]) simp
qed

theorem pool_insert_all_correct_witness:
  "\<exists>p' rest. pool_insert_all example_env (pool_new 1) [(Transaction 5, 5), (Transaction 5, 5), (Transaction 7, 7)]
     = Some (p', [(Transaction 5, 5)], rest) \<and> pool_entries p' = [(5, Transaction 5)] \<and> pool_inv example_env p'"
  using pool_insert_all_correct [of example_env "pool_new 1" "[(Transaction 5, 5), (Transaction 5, 5), (Transaction 7, 7)]"]
  by auto

text \<open>
  Removal of expired fragments: the call returns the identifiers of exactly the entries whose
  expiry date lies strictly before the given date, each once; exactly these entries leave the pool, the
  others keep their order, and the invariant is kept (the stop at the first unexpired element of the
  expiry queue loses nothing).
\<close>

theorem pool_remove_expired_correct:
  assumes "pool_inv E p"
  shows "\<exists>ids p'. pool_remove_expired_txs E p now = Some (ids, p') \<and> pool_inv E p' \<and>
    pool_entries p' = filter (\<lambda>x. \<not> expired E now (snd x)) (pool_entries p) \<and>
    distinct ids \<and> set ids = {fid. \<exists>f. (fid, f) \<in> set (pool_entries p) \<and> expired E now f}"
proof -
  have rep: "pool_rep E p (pool_entries p)" and len: "length (pool_entries p) \<le> p_max_entries p"
    using pool_inv_rep [OF assms] by auto
  obtain ids p' where p': "pool_remove_expired_txs E p now = Some (ids, p')" "p_max_entries p' = p_max_entries p"
      "pool_rep E p' (filter (\<lambda>x. \<not> expired E now (snd x)) (pool_entries p))"
      "distinct ids" "set ids = {fid. \<exists>f. (fid, f) \<in> set (pool_entries p) \<and> expired E now f}"
    using pool_remove_expired_rep [OF rep, of now] by blast
  have "pool_inv E p'"
    using p'(2) len by (intro pool_rep_inv [OF p'(3)]) (simp add: order_trans [OF length_filter_le])
  with p' pool_repD(3) [OF p'(3)] show ?thesis by blast
qed

theorem pool_remove_expired_correct_witness:
  "\<exists>p ids p'. pool_entries p = [(7, Transaction 7), (5, Transaction 5)] \<and>
     pool_remove_expired_txs example_env p (BlockDate 0 6) = Some (ids, p') \<and> set ids = {5} \<and>
     pool_entries p' = [(7, Transaction 7)]"
proof -
  obtain p where p: "pool_rep example_env p [(7, Transaction 7), (5, Transaction 5)]" "p_max_entries p = 3"
    using pool_return_rep [OF pool_new_rep [of example_env 3], of "[(Transaction 7, 7), (Transaction 5, 5)]"] by auto
  have inv: "pool_inv example_env p" by (rule pool_rep_inv [OF p(1)]) (simp add: p(2))
  have "expired example_env (BlockDate 0 6) (Transaction n) \<longleftrightarrow> of_nat n < (6 :: u32)" for n
    by (simp add: expired_def example_env_def)
  then have ids: "{fid. \<exists>f. (fid, f) \<in> set (pool_entries p) \<and> expired example_env (BlockDate 0 6) f} = {5}"
    and es: "filter (\<lambda>x. \<not> expired example_env (BlockDate 0 6) (snd x)) (pool_entries p) = [(7, Transaction 7)]"
    by (auto simp: pool_repD(3) [OF p(1)])
  show ?thesis
    using pool_remove_expired_correct [OF inv, of "BlockDate 0 6", unfolded ids es] pool_repD(3) [OF p(1)] by blast
qed

text \<open>
  The pool is a queue: the fragment taken out is the oldest entry, and when it is
  put back the pool holds the same entries in the same order again. The pool is
  left unchanged when it is empty.
\<close>

theorem pool_take_and_return:
  assumes "pool_inv E p"
  shows "(pool_entries p = [] \<longrightarrow> pool_remove_oldest E p = Some (None, p)) \<and>
    (\<forall>xs fid f. pool_entries p = xs @ [(fid, f)] \<longrightarrow>
      (\<exists>p' p''. pool_remove_oldest E p = Some (Some (f, fid), p') \<and> pool_inv E p' \<and> pool_entries p' = xs \<and>
         pool_return_to_pool E p' [(f, fid)] = Some p'' \<and> pool_inv E p'' \<and> pool_entries p'' = pool_entries p))"
proof (intro conjI allI impI)
  have rep: "pool_rep E p (pool_entries p)" and len: "length (pool_entries p) \<le> p_max_entries p"
    using pool_inv_rep [OF assms] by auto
  {
    assume "pool_entries p = []"
    with rep show "pool_remove_oldest E p = Some (None, p)" by (simp add: pool_remove_oldest_empty)
  next
    fix xs fid f
    assume xs: "pool_entries p = xs @ [(fid, f)]"
    with rep obtain p' where p': "pool_remove_oldest E p = Some (Some (f, fid), p')"
        "p_max_entries p' = p_max_entries p" "pool_rep E p' xs"
      using pool_remove_oldest_snoc [of E p xs fid f] by auto
    have "set (map snd [(f, fid)]) \<inter> set (keys_of xs) = {}" using pool_repD(4) [OF rep] xs by simp
    with pool_return_rep [OF p'(3), of "[(f, fid)]"] obtain p'' where p'': "pool_return_to_pool E p' [(f, fid)] = Some p''"
        "p_max_entries p'' = p_max_entries p'" "pool_rep E p'' (xs @ [(fid, f)])"
      by auto
    have "pool_inv E p'" "pool_inv E p''"
      using pool_rep_inv [OF p'(3)] pool_rep_inv [OF p''(3)] p'(2) p''(2) len xs by auto
    with p' p'' xs pool_repD(3) [OF p'(3)] pool_repD(3) [OF p''(3)]
    show "\<exists>p' p''. pool_remove_oldest E p = Some (Some (f, fid), p') \<and> pool_inv E p' \<and> pool_entries p' = xs \<and>
         pool_return_to_pool E p' [(f, fid)] = Some p'' \<and> pool_inv E p'' \<and> pool_entries p'' = pool_entries p"
      by auto
  }
qed

theorem pool_take_and_return_witness:
  "\<exists>p p' p''. pool_entries p = [(7, Transaction 7), (5, Transaction 5)] \<and>
     pool_remove_oldest example_env p = Some (Some (Transaction 5, 5), p') \<and>
     pool_return_to_pool example_env p' [(Transaction 5, 5)] = Some p'' \<and> pool_entries p'' = pool_entries p"
proof -
  obtain p where p: "pool_rep example_env p [(7, Transaction 7), (5, Transaction 5)]" "p_max_entries p = 3"
    using pool_return_rep [OF pool_new_rep [of example_env 3], of "[(Transaction 7, 7), (Transaction 5, 5)]"] by auto
  have inv: "pool_inv example_env p" by (rule pool_rep_inv [OF p(1)]) (simp add: p(2))
  have "pool_entries p = [(7, Transaction 7)] @ [(5, Transaction 5)]" using pool_repD(3) [OF p(1)] by simp
  from pool_take_and_return [OF inv, THEN conjunct2, rule_format, OF this] pool_repD(3) [OF p(1)]
  show ?thesis by blast
qed

end
