(* ===== verification/Fragment_Logs.thy ===== *)
theory Fragment_Logs
  imports Lru_Cache Fragments
begin

text \<open>
  The fragment logs (\<^verbatim>\<open>jormungandr/src/fragment/logs.rs\<close>): an LRU cache from
  fragment identifiers to the status log of the fragment and the ledger date of its last
  accepted status change. The cache is a parameter (\<open>lru_ops\<close>). Operations return \<open>None\<close>
  where the code panics (the assertion of \<^verbatim>\<open>insert_pending\<close>, the \<^verbatim>\<open>unwrap\<close> of
  \<^verbatim>\<open>remove_logs_after_date\<close>).
\<close>

type_synonym ('id, 'h) log_entry = "('id, 'h) fragment_log \<times> block_date option"
type_synonym ('c, 'id, 'h) log_ops = "('c, 'id, ('id, 'h) log_entry) lru_ops"

section \<open>Operations\<close>

definition logs_new :: "('c, 'id, 'h) log_ops \<Rightarrow> nat \<Rightarrow> 'c" where
  "logs_new L max_entries = lru_new L max_entries"

definition logs_exists :: "('c, 'id, 'h) log_ops \<Rightarrow> 'c \<Rightarrow> 'id \<Rightarrow> bool" where
  "logs_exists L c fid = lru_contains L c fid"

definition logs_exist_all :: "('c, 'id, 'h) log_ops \<Rightarrow> 'c \<Rightarrow> 'id list \<Rightarrow> bool list" where
  "logs_exist_all L c fids = map (logs_exists L c) fids"

definition logs_insert_pending ::
  "('c, 'id, 'h) log_ops \<Rightarrow> 'c \<Rightarrow> ('id, 'h) fragment_log \<Rightarrow> (bool \<times> 'c) option" where
  "logs_insert_pending L c log =
     (if \<not> is_pending (fl_status log) then None
      else if lru_contains L c (fl_fragment_id log) then Some (False, c)
      else Some (True, lru_put L c (fl_fragment_id log) (log, None)))"

fun logs_insert_all_pending ::
  "('c, 'id, 'h) log_ops \<Rightarrow> 'c \<Rightarrow> ('id, 'h) fragment_log list \<Rightarrow> (nat \<times> 'c) option" where
  "logs_insert_all_pending L c [] = Some (0, c)"
| "logs_insert_all_pending L c (log # logs) = do {
     (was_modified, c') \<leftarrow> logs_insert_pending L c log;
     (n, c'') \<leftarrow> logs_insert_all_pending L c' logs;
     Some (if was_modified then Suc n else n, c'')
   }"

definition update_entry ::
  "nat \<Rightarrow> 'h fragment_status \<Rightarrow> block_date \<Rightarrow> ('id, 'h) log_entry \<Rightarrow> ('id, 'h) log_entry" where
  "update_entry now status ledger_date = (\<lambda>(entry, date).
     case fragment_log_modify now status entry of
       (False, entry') \<Rightarrow> (entry', date)
     | (True, entry') \<Rightarrow> (entry', Some ledger_date))"

definition logs_modify ::
  "('c, 'id, 'h) log_ops \<Rightarrow> (nat \<Rightarrow> nat) \<Rightarrow> 'c \<Rightarrow> 'id \<Rightarrow> 'h fragment_status \<Rightarrow> block_date \<Rightarrow> 'c" where
  "logs_modify L clk c fid status ledger_date =
     (case lru_get_mut L c fid (update_entry (clk 0) status ledger_date) of
        (Some _, c') \<Rightarrow> c'
      | (None, _) \<Rightarrow>
          (let entry = fragment_log_new clk fid Network;
               entry' = snd (fragment_log_modify (clk 2) status entry)
           in lru_put L c fid (entry', Some ledger_date)))"

text \<open>At most three clock readings are taken for each identifier.\<close>

fun logs_modify_all ::
  "('c, 'id, 'h) log_ops \<Rightarrow> (nat \<Rightarrow> nat) \<Rightarrow> 'c \<Rightarrow> 'id list \<Rightarrow> 'h fragment_status \<Rightarrow> block_date \<Rightarrow> 'c" where
  "logs_modify_all L clk c [] status ledger_date = c"
| "logs_modify_all L clk c (fid # fids) status ledger_date =
     logs_modify_all L (\<lambda>i. clk (i + 3)) (logs_modify L clk c fid status ledger_date) fids status ledger_date"

definition logs_by_ids ::
  "('c, 'id, 'h) log_ops \<Rightarrow> 'c \<Rightarrow> 'id list \<Rightarrow> ('id \<times> ('id, 'h) fragment_log) list" where
  "logs_by_ids L c fids =
     fold (\<lambda>(k, log, date) result. AList.update k log result)
       (List.map_filter (\<lambda>fid. map_option (\<lambda>log. (fid, log)) (lru_peek L c fid)) fids) []"

definition logs_list :: "('c, 'id, 'h) log_ops \<Rightarrow> 'c \<Rightarrow> ('id, 'h) fragment_log list" where
  "logs_list L c = map (\<lambda>(_, log, _). log) (lru_iter L c)"

text \<open>The first loop of \<^verbatim>\<open>remove_logs_after_date\<close>, over the entries in recency order.\<close>

fun logs_to_remove :: "block_date \<Rightarrow> ('id \<times> ('id, 'h) log_entry) list \<Rightarrow> 'id list option" where
  "logs_to_remove target_date [] = Some []"
| "logs_to_remove target_date ((_, log, date) # xs) =
     (case fl_status log of
        Pending \<Rightarrow> logs_to_remove target_date xs
      | _ \<Rightarrow> (case date of
                None \<Rightarrow> None
              | Some d \<Rightarrow>
                  if target_date < d
                  then map_option (\<lambda>fids. fl_fragment_id log # fids) (logs_to_remove target_date xs)
                  else Some []))"

definition logs_remove_after_date :: "('c, 'id, 'h) log_ops \<Rightarrow> 'c \<Rightarrow> block_date \<Rightarrow> 'c option" where
  "logs_remove_after_date L c target_date =
     map_option (\<lambda>fids. fold (\<lambda>fid c. snd (lru_pop L c fid)) fids c)
       (logs_to_remove target_date (lru_iter L c))"

section \<open>Invariant and views\<close>

text \<open>
  The comment of \<^verbatim>\<open>remove_logs_after_date\<close>: the date is always present for non-pending
  statuses. The entries are also stored under their own identifier.
\<close>

definition entry_ok :: "'id \<times> ('id, 'h) log_entry \<Rightarrow> bool" where
  "entry_ok = (\<lambda>(fid, log, date). fl_fragment_id log = fid \<and> (is_pending (fl_status log) \<or> date \<noteq> None))"

definition logs_inv :: "('c, 'id, 'h) log_ops \<Rightarrow> 'c \<Rightarrow> bool" where
  "logs_inv L c \<longleftrightarrow> 0 < lru_cap L c \<and> list_all entry_ok (lru_iter L c)"

definition logs_status :: "('c, 'id, 'h) log_ops \<Rightarrow> 'c \<Rightarrow> 'id \<Rightarrow> 'h fragment_status option" where
  "logs_status L c fid = map_option (\<lambda>(log, date). fl_status log) (map_of (lru_iter L c) fid)"

definition settled_after :: "block_date \<Rightarrow> 'id \<times> ('id, 'h) log_entry \<Rightarrow> bool" where
  "settled_after d = (\<lambda>(fid, log, date). \<not> is_pending (fl_status log) \<and> (case date of None \<Rightarrow> False | Some t \<Rightarrow> d < t))"

text \<open>The settled entries are in decreasing order of their dates, from the most recently used one.\<close>

definition recency_by_date :: "('id \<times> ('id, 'h) log_entry) list \<Rightarrow> bool" where
  "recency_by_date xs =
     sorted_wrt (\<lambda>a b. the (snd (snd b)) \<le> the (snd (snd a)))
       (filter (\<lambda>(fid, log, date). \<not> is_pending (fl_status log)) xs)"

lemma entry_ok_update:
  "entry_ok (fid, e) \<Longrightarrow> entry_ok (fid, update_entry now st d e)"
  by (cases e)
    (auto simp: entry_ok_def update_entry_def fragment_log_modify_def is_pending_iff split: if_splits)

lemma fl_status_update_entry:
  "fl_status (fst (update_entry now st d e)) =
     (if is_in_a_block (fl_status (fst e)) \<and> \<not> is_in_a_block st then fl_status (fst e) else st)"
  by (cases e) (simp add: update_entry_def fragment_log_modify_def)

lemma logs_to_remove_scan:
  assumes "list_all entry_ok xs"
  shows "logs_to_remove d xs =
     Some (map fst (takeWhile (\<lambda>x. settled_after d x)
       (filter (\<lambda>(fid, log, date). \<not> is_pending (fl_status log)) xs)))"
  using assms
proof (induction d xs rule: logs_to_remove.induct)
  case (2 target fid log date xs)
  then show ?case
    by (cases "fl_status log") (auto simp: entry_ok_def settled_after_def is_pending_iff split: option.splits)
qed simp

lemma takeWhile_settled:
  assumes "recency_by_date xs" and "list_all entry_ok xs"
  shows "takeWhile (settled_after d) (filter (\<lambda>(fid, log, date). \<not> is_pending (fl_status log)) xs)
       = filter (settled_after d) xs"
proof -
  let ?np = "\<lambda>(fid, log, date). \<not> is_pending (fl_status log)"
  have "sorted_wrt (\<lambda>a b. settled_after d b \<longrightarrow> settled_after d a) (filter ?np xs)"
    using assms(1) unfolding recency_by_date_def
  proof (rule sorted_wrt_mono_rel [rotated])
    fix a b
    assume "a \<in> set (filter ?np xs)" "b \<in> set (filter ?np xs)" "the (snd (snd b)) \<le> the (snd (snd a))"
    then show "settled_after d b \<longrightarrow> settled_after d a"
      using assms(2) by (fastforce simp: settled_after_def entry_ok_def list_all_iff split: option.splits)
  qed
  then have "takeWhile (settled_after d) (filter ?np xs) = filter (settled_after d) (filter ?np xs)"
    by (rule takeWhile_sorted_filter)
  also have "\<dots> = filter (settled_after d) xs"
    by (auto simp: settled_after_def intro: filter_cong)
  finally show ?thesis .
qed

section \<open>The logs on any LRU cache\<close>

locale log_cache = lru_cache L
  for L :: "('c, 'id, ('id, 'h) log_entry) lru_ops"
begin

lemma modify_iter:
  "lru_iter L (logs_modify L clk c fid st d) =
     (if map_of (lru_iter L c) fid \<noteq> None then to_front fid (update_entry (clk 0) st d) (lru_iter L c)
      else lru_iter L (lru_put L c fid
             (snd (fragment_log_modify (clk 2) st (fragment_log_new clk fid Network)), Some d)))"
proof (cases "lru_get_mut L c fid (update_entry (clk 0) st d)")
  case (Pair r c')
  then have r: "r = map_of (lru_iter L c) fid"
    and "lru_iter L c' = to_front fid (update_entry (clk 0) st d) (lru_iter L c)"
    using get_mut_result [of c fid "update_entry (clk 0) st d"]
      iter_get_mut [of c fid "update_entry (clk 0) st d"] by simp_all
  with Pair show ?thesis
    by (cases "map_of (lru_iter L c) fid") (simp_all add: logs_modify_def Let_def)
qed

lemma modify_cap: "lru_cap L (logs_modify L clk c fid st d) = lru_cap L c"
  by (auto simp: logs_modify_def Let_def caps split: prod.split option.split)
    (metis cap_get_mut snd_conv)

lemma put_inv:
  assumes "logs_inv L c" and "entry_ok (fid, e)"
  shows "logs_inv L (lru_put L c fid e)"
  using assms put_keys_subset [of c _ fid e] by (auto simp: logs_inv_def cap_put list_all_iff)

lemma insert_pending_inv:
  assumes "logs_inv L c" and "is_pending (fl_status log)"
  shows "\<exists>b c'. logs_insert_pending L c log = Some (b, c') \<and> logs_inv L c' \<and>
           lru_cap L c' = lru_cap L c"
  using assms by (auto simp: logs_insert_pending_def cap_put entry_ok_def intro: put_inv)

lemma insert_all_pending_inv:
  assumes "logs_inv L c" and "list_all (\<lambda>log. is_pending (fl_status log)) logs"
  shows "\<exists>n c'. logs_insert_all_pending L c logs = Some (n, c') \<and> logs_inv L c' \<and>
           lru_cap L c' = lru_cap L c"
  using assms
proof (induction logs arbitrary: c)
  case (Cons log logs)
  then obtain b c' where "logs_insert_pending L c log = Some (b, c')" "logs_inv L c'" "lru_cap L c' = lru_cap L c"
    using insert_pending_inv [of c log] by auto
  moreover from this Cons obtain n c'' where "logs_insert_all_pending L c' logs = Some (n, c'')"
      "logs_inv L c''" "lru_cap L c'' = lru_cap L c'"
    by fastforce
  ultimately show ?case by simp
qed simp

lemma modify_inv:
  assumes "logs_inv L c"
  shows "logs_inv L (logs_modify L clk c fid st d)"
proof (cases "map_of (lru_iter L c) fid")
  case (Some e)
  have "entry_ok (fid, e)" using assms map_of_SomeD [OF Some] by (auto simp: logs_inv_def list_all_iff)
  then have "list_all entry_ok (to_front fid (update_entry (clk 0) st d) (lru_iter L c))"
    using assms by (simp add: Some logs_inv_def list_all_iff set_adelete entry_ok_update)
  then show ?thesis using assms Some by (simp add: logs_inv_def modify_iter modify_cap)
next
  case None
  have "entry_ok (fid, snd (fragment_log_modify (clk 2) st (fragment_log_new clk fid Network)), Some d)"
    by (simp add: entry_ok_def fragment_log_modify_def fragment_log_new_def)
  with assms put_inv show ?thesis using None by (simp add: logs_inv_def modify_iter modify_cap cap_put)
qed

lemma modify_all_inv:
  "logs_inv L c \<Longrightarrow> logs_inv L (logs_modify_all L clk c fids st d) \<and>
     lru_cap L (logs_modify_all L clk c fids st d) = lru_cap L c"
  by (induction fids arbitrary: clk c) (simp_all add: modify_inv modify_cap)

lemma modify_status:
  assumes "0 < lru_cap L c"
  shows "logs_status L (logs_modify L clk c fid st d) fid =
     Some (case logs_status L c fid of
             None \<Rightarrow> st
           | Some old \<Rightarrow> if is_in_a_block old \<and> \<not> is_in_a_block st then old else st)"
proof (cases "map_of (lru_iter L c) fid")
  case None
  let ?e = "snd (fragment_log_modify (clk 2) st (fragment_log_new clk fid Network))"
  obtain xs where "lru_iter L (lru_put L c fid (?e, Some d)) = (fid, ?e, Some d) # xs"
    using put_front [OF assms] by blast
  with None have "logs_status L (logs_modify L clk c fid st d) fid = Some st"
    by (simp add: logs_status_def modify_iter fragment_log_modify_def fragment_log_new_def)
  with None show ?thesis by (simp add: logs_status_def)
next
  case (Some e)
  then show ?thesis
    using fl_status_update_entry [of "clk 0" st d e]
    by (simp add: logs_status_def modify_iter case_prod_beta)
qed

text \<open>Another identifier keeps its status, unless its entry is evicted to make room for a new one.\<close>

lemma modify_status_other:
  assumes "0 < lru_cap L c" and "fid' \<noteq> fid"
  shows "logs_status L (logs_modify L clk c fid st d) fid' = logs_status L c fid' \<or>
     \<not> logs_exists L c fid \<and> length (lru_iter L c) = lru_cap L c \<and>
     lru_iter L c \<noteq> [] \<and> fid' = fst (last (lru_iter L c))"
proof (cases "map_of (lru_iter L c) fid")
  case (Some e)
  with assms(2) show ?thesis by (simp add: logs_status_def modify_iter key_mem_iff)
next
  case None
  define xs where "xs = lru_iter L c"
  have del: "AList.delete fid xs = xs" using None by (intro adelete_notin) (simp add: xs_def map_of_eq_None_iff)
  obtain e where e: "lru_iter L (logs_modify L clk c fid st d) = take (lru_cap L c) ((fid, e) # xs)"
    using None assms(1) del by (auto simp: modify_iter key_mem_iff iter_put xs_def)
  show ?thesis
  proof (cases "length xs < lru_cap L c")
    case True
    with e assms(2) show ?thesis by (cases "lru_cap L c") (auto simp: logs_status_def xs_def)
  next
    case False
    then have len: "length xs = lru_cap L c" using iter_length [of c] by (simp add: xs_def)
    then have xs: "xs = butlast xs @ [last xs]" using assms(1) by (intro append_butlast_last_id [symmetric]) auto
    have "take (lru_cap L c) ((fid, e) # xs) = (fid, e) # butlast xs"
      using len assms(1) by (cases "lru_cap L c") (auto simp: butlast_conv_take)
    then have "fid' = fst (last xs) \<or> map_of (take (lru_cap L c) ((fid, e) # xs)) fid' = map_of xs fid'"
      using assms(2) by (subst (3) xs) (cases "last xs", auto simp: map_add_def split: option.split)
    then show ?thesis using e len assms(1) None
      by (auto simp: logs_status_def xs_def logs_exists_def contains_iff key_mem_iff)
  qed
qed

lemma pops_iter:
  "lru_iter L (fold (\<lambda>fid c. snd (lru_pop L c fid)) fids c) = filter (\<lambda>x. fst x \<notin> set fids) (lru_iter L c)
   \<and> lru_cap L (fold (\<lambda>fid c. snd (lru_pop L c fid)) fids c) = lru_cap L c"
  by (induction fids arbitrary: c) (auto simp: iter_pop cap_pop adelete_filter intro: filter_cong)

lemma remove_after_date_total:
  assumes "logs_inv L c"
  shows "\<exists>c'. logs_remove_after_date L c d = Some c' \<and> logs_inv L c' \<and> lru_cap L c' = lru_cap L c"
  using assms logs_to_remove_scan [of "lru_iter L c" d]
  by (auto simp: logs_remove_after_date_def logs_inv_def pops_iter list_all_iff)

lemma remove_after_date_exact:
  assumes "logs_inv L c" and "recency_by_date (lru_iter L c)"
  shows "\<exists>c'. logs_remove_after_date L c d = Some c' \<and>
           lru_iter L c' = filter (\<lambda>x. \<not> settled_after d x) (lru_iter L c)"
proof -
  define xs where "xs = lru_iter L c"
  have ok: "list_all entry_ok xs" using assms(1) by (simp add: logs_inv_def xs_def)
  have "logs_to_remove d xs = Some (map fst (filter (settled_after d) xs))"
    using logs_to_remove_scan [OF ok, of d] takeWhile_settled [OF _ ok, of d] assms(2) by (simp add: xs_def)
  moreover have "filter (\<lambda>x. fst x \<notin> fst ` set (filter (settled_after d) xs)) xs = filter (\<lambda>x. \<not> settled_after d x) xs"
  proof (rule filter_cong [OF refl])
    fix x assume "x \<in> set xs"
    moreover have "inj_on fst (set xs)" using keys_distinct [of c] by (simp add: xs_def distinct_map)
    ultimately show "(fst x \<notin> fst ` set (filter (settled_after d) xs)) = (\<not> settled_after d x)"
      by (auto dest: inj_onD)
  qed
  ultimately show ?thesis by (simp add: logs_remove_after_date_def pops_iter flip: xs_def)
qed

lemma exists_status: "logs_exists L c fid \<longleftrightarrow> logs_status L c fid \<noteq> None"
  by (simp add: logs_exists_def contains_iff logs_status_def key_mem_iff)

lemmas log_invs = insert_pending_inv insert_all_pending_inv modify_inv modify_all_inv remove_after_date_total

end

interpretation recency_logs: log_cache recency_ops
  by unfold_locales

section \<open>Correctness\<close>

text \<open>
  A status update. It keeps the invariant; the fragment has the new status afterwards, unless it was
  already in a block and the new status is not a block, in which case it keeps the old one; and every
  other fragment keeps its status, except that the least recently used one may be dropped
  when the cache is full and the updated fragment was unknown.
\<close>

theorem logs_modify_correct:
  assumes "lru_cache L" and "logs_inv L c"
  shows "logs_inv L (logs_modify L clk c fid st d) \<and>
    logs_status L (logs_modify L clk c fid st d) fid =
      Some (case logs_status L c fid of
              None \<Rightarrow> st
            | Some old \<Rightarrow> if is_in_a_block old \<and> \<not> is_in_a_block st then old else st) \<and>
    (\<forall>fid'. fid' \<noteq> fid \<longrightarrow>
       logs_status L (logs_modify L clk c fid st d) fid' = logs_status L c fid' \<or>
       \<not> logs_exists L c fid \<and> length (lru_iter L c) = lru_cap L c \<and> fid' = fst (last (lru_iter L c)))"
proof -
  have cap: "0 < lru_cap L c" using assms(2) by (simp add: logs_inv_def)
  show ?thesis
    using log_cache.modify_inv [OF log_cache.intro [OF assms(1)] assms(2), of clk fid st d]
      log_cache.modify_status [OF log_cache.intro [OF assms(1)] cap, of clk fid st d]
      log_cache.modify_status_other [OF log_cache.intro [OF assms(1)] cap, of _ fid clk st d]
    by blast
qed

definition example_logs :: "(nat, (nat, nat) log_entry) recency_list" where
  "example_logs = logs_modify recency_ops (\<lambda>_. 0) (logs_new recency_ops 2) 7 (InABlock (BlockDate 1 0) 70) (BlockDate 1 0)"

lemma example_logs_inv: "logs_inv recency_ops example_logs"
  unfolding example_logs_def
  by (rule recency_logs.modify_inv) (simp add: logs_inv_def logs_new_def recency.cap_new recency.iter_new)

theorem logs_modify_correct_witness:
  "logs_status recency_ops
     (logs_modify recency_ops (\<lambda>_. 0) example_logs 7 (Rejected ''late'') (BlockDate 2 0)) 7
   = Some (InABlock (BlockDate 1 0) 70)"
proof -
  have "logs_status recency_ops example_logs 7 = Some (InABlock (BlockDate 1 0) 70)"
    unfolding example_logs_def
    by (subst recency_logs.modify_status) (simp_all add: logs_new_def recency.cap_new logs_status_def recency.iter_new)
  then show ?thesis
    using logs_modify_correct [OF recency.lru_cache_axioms example_logs_inv, of "\<lambda>_. 0" 7 "Rejected ''late''" "BlockDate 2 0"]
    by simp
qed

text \<open>
  (C35) Pruning after a branch switch. It never hits the \<^verbatim>\<open>unwrap\<close> of an absent date, and when the
  settled entries are ordered by date from the most recently used one, it removes exactly the settled entries
  dated after the fork and keeps all the others in their order.
\<close>

theorem logs_prune_correct:
  assumes "lru_cache L" and "logs_inv L c"
  shows "\<exists>c'. logs_remove_after_date L c d = Some c' \<and> logs_inv L c' \<and>
    (recency_by_date (lru_iter L c) \<longrightarrow> lru_iter L c' = filter (\<lambda>x. \<not> settled_after d x) (lru_iter L c))"
  using log_cache.remove_after_date_total [OF log_cache.intro [OF assms(1)] assms(2), of d]
    log_cache.remove_after_date_exact [OF log_cache.intro [OF assms(1)] assms(2), of d]
  by auto

theorem logs_prune_correct_witness:
  "\<exists>c'. logs_remove_after_date recency_ops example_logs (BlockDate 0 5) = Some c' \<and> lru_iter recency_ops c' = []"
proof -
  have it: "lru_iter recency_ops example_logs =
      [(7, snd (fragment_log_modify 0 (InABlock (BlockDate 1 0) 70) (fragment_log_new (\<lambda>_. 0) 7 Network)), Some (BlockDate 1 0))]"
    by (simp add: example_logs_def recency_logs.modify_iter logs_new_def recency.iter_new recency.iter_put recency.cap_new)
  show ?thesis
    using logs_prune_correct [OF recency.lru_cache_axioms example_logs_inv, of "BlockDate 0 5"]
    by (auto simp: it recency_by_date_def settled_after_def fragment_log_modify_def fragment_log_new_def)
qed

text \<open>
  Without that order the early exit of the loop misses entries. A refused update does not change the date of
  an entry and yet makes it the most recently used one: fragment 1 was settled at date 1.0 and fragment 2 at date 3.0;
  after a refused update of fragment 1, pruning everything after date 2.0 stops at fragment 1 and
  fragment 2 stays logged as part of a block of the abandoned branch.
\<close>

theorem logs_prune_stops_early:
  "let c0 = logs_new recency_ops 4 :: (nat, (nat, nat) log_entry) recency_list;
       c1 = logs_modify recency_ops (\<lambda>_. 0) c0 1 (InABlock (BlockDate 1 0) 10) (BlockDate 1 0);
       c2 = logs_modify recency_ops (\<lambda>_. 0) c1 2 (InABlock (BlockDate 3 0) 30) (BlockDate 3 0);
       c3 = logs_modify recency_ops (\<lambda>_. 0) c2 1 (Rejected ''expired'') (BlockDate 3 1)
   in map_option (\<lambda>c. logs_status recency_ops c 2) (logs_remove_after_date recency_ops c3 (BlockDate 2 0))
      = Some (Some (InABlock (BlockDate 3 0) 30))"
  unfolding Let_def
  by (simp add: logs_remove_after_date_def recency_logs.modify_iter logs_new_def recency.iter_new recency.iter_put
      recency.cap_new recency_logs.modify_cap logs_status_def fragment_log_modify_def fragment_log_new_def update_entry_def)

end
