(* ===== verification/Fragment_Selection.thy ===== *)
theory Fragment_Selection
  imports Fragment_Pool Fragment_Logs
begin

text \<open>
  The selection of fragments for a new block (\<^verbatim>\<open>jormungandr/src/fragment/selection.rs\<close>):
  \<^verbatim>\<open>try_apply_fragment\<close> and \<^verbatim>\<open>OldestFirst::select\<close>.

  The ledger and the contents builder are types of the ledger library, used through the
  record \<open>ledger_ops\<close>. The two races of \<^verbatim>\<open>try_apply_fragment\<close> (the simulation of
  the fragment against the soft deadline, then against the hard deadline) are resolved by a schedule, an
  argument of the model: \<open>sched i = (soft, hard)\<close> says for the \<open>i\<close>-th fragment whether
  the soft deadline wins the first race and the hard deadline the second. All theorems hold
  for every schedule.
\<close>

section \<open>The ledger interface\<close>

text \<open>An error of the ledger is its message and the messages of its chain of sources.\<close>

record ('lg, 'f, 'cb, 'ct) ledger_ops =
  block_content_max_size :: "'lg \<Rightarrow> u32"
  ledger_block_date :: "'lg \<Rightarrow> block_date"
  apply_fragment :: "'lg \<Rightarrow> 'f \<Rightarrow> (string \<times> string list, 'lg) result"
  builder_new :: 'cb
  builder_push :: "'cb \<Rightarrow> 'f \<Rightarrow> 'cb"
  builder_into :: "'cb \<Rightarrow> 'ct"

section \<open>Operations\<close>

datatype apply_fragment_error = DoesNotFit | SoftDeadlineReached | FragmentRejected string

text \<open>The decimal text of a number, as \<^verbatim>\<open>format!\<close> prints it.\<close>

fun show_nat :: "nat \<Rightarrow> string" where
  "show_nat n = (if n < 10 then [char_of (48 + n)] else show_nat (n div 10) @ [char_of (48 + n mod 10)])"

declare show_nat.simps [simp del]

definition too_large_message :: "nat \<Rightarrow> u32 \<Rightarrow> string" where
  "too_large_message raw max_size =
     ''fragment size '' @ show_nat raw @ '' exceeds maximum block content size '' @ show_nat (unat max_size)"

definition error_message :: "string \<times> string list \<Rightarrow> string" where
  "error_message err = fst err @ concat (map (\<lambda>e. '': '' @ e) (snd err))"

definition try_apply_fragment ::
  "('tx, 'p, 'id) fragment_env \<Rightarrow> ('lg, ('tx, 'p) fragment, 'cb, 'ct) ledger_ops \<Rightarrow> ('tx, 'p) fragment \<Rightarrow> 'lg
    \<Rightarrow> bool \<times> bool \<Rightarrow> u32 \<Rightarrow> (apply_fragment_error, 'lg \<times> u32) result" where
  "try_apply_fragment E G f ledger race space_left =
     (let raw_fragment_size = serialized_size E f;
          max_size = block_content_max_size G ledger
      in if raw_fragment_size < 2 ^ 32 \<and> (of_nat raw_fragment_size :: u32) \<le> max_size then
           (let fragment_size = of_nat raw_fragment_size :: u32 in
            if space_left < fragment_size then Inl DoesNotFit
            else
              (let space_left = space_left - fragment_size;
                   applied = (case apply_fragment G ledger f of
                       Inr ledger' \<Rightarrow> Inr (ledger', space_left)
                     | Inl err \<Rightarrow> Inl (FragmentRejected (error_message err)))
               in case race of
                    (False, _) \<Rightarrow> applied
                  | (True, hard) \<Rightarrow>
                      if space_left < max_size then Inl SoftDeadlineReached
                      else if hard then
                        Inl (FragmentRejected
                          ''cannot process a single fragment within the given time bounds (hard deadline)'')
                      else applied))
         else Inl (FragmentRejected (too_large_message raw_fragment_size max_size)))"

text \<open>The local variables of \<^verbatim>\<open>select\<close>, with the pool and the logs it borrows.\<close>

record ('lg, 'cb, 'c, 'tx, 'p, 'id) selection_state =
  sl_ledger :: 'lg
  sl_logs :: 'c
  sl_pool :: "('tx, 'p, 'id) pool"
  sl_space_left :: u32
  sl_contents :: 'cb
  sl_return :: "(('tx, 'p) fragment \<times> 'id) list"
  sl_rejected_cnt :: nat
  sl_clock :: "nat \<Rightarrow> nat"

text \<open>The body of the loop, for the fragment taken from the pool.\<close>

definition select_fragment ::
  "('tx, 'p, 'id) fragment_env \<Rightarrow> ('lg, ('tx, 'p) fragment, 'cb, 'ct) ledger_ops \<Rightarrow> ('c, 'id, 'h) log_ops
    \<Rightarrow> block_date \<Rightarrow> bool \<times> bool \<Rightarrow> ('tx, 'p) fragment \<Rightarrow> 'id
    \<Rightarrow> ('lg, 'cb, 'c, 'tx, 'p, 'id) selection_state \<Rightarrow> ('lg, 'cb, 'c, 'tx, 'p, 'id) selection_state" where
  "select_fragment E G L date race f fid st =
     (case try_apply_fragment E G f (sl_ledger st) race (sl_space_left st) of
        Inr (ledger_new, space_left_new) \<Rightarrow>
          st\<lparr>sl_contents := builder_push G (sl_contents st) f, sl_ledger := ledger_new,
             sl_space_left := space_left_new\<rparr>
      | Inl (FragmentRejected reason) \<Rightarrow>
          st\<lparr>sl_logs := logs_modify L (sl_clock st) (sl_logs st) fid (Rejected reason) date,
             sl_clock := (\<lambda>i. sl_clock st (i + 3)),
             sl_rejected_cnt := sl_rejected_cnt st + 1\<rparr>
      | Inl _ \<Rightarrow> st\<lparr>sl_return := sl_return st @ [(f, fid)]\<rparr>)"

text \<open>
  The \<^verbatim>\<open>while let\<close> loop, with fuel: every iteration takes one fragment out of the pool, so
  the length of the pool plus one is enough (\<open>select_loop_selection\<close> below).
\<close>

fun select_loop ::
  "('tx, 'p, 'id) fragment_env \<Rightarrow> ('lg, ('tx, 'p) fragment, 'cb, 'ct) ledger_ops \<Rightarrow> ('c, 'id, 'h) log_ops
    \<Rightarrow> block_date \<Rightarrow> (nat \<Rightarrow> bool \<times> bool) \<Rightarrow> nat \<Rightarrow> ('lg, 'cb, 'c, 'tx, 'p, 'id) selection_state
    \<Rightarrow> ('lg, 'cb, 'c, 'tx, 'p, 'id) selection_state option" where
  "select_loop E G L date sched 0 st = None"
| "select_loop E G L date sched (Suc fuel) st = do {
     (oldest, pool) \<leftarrow> pool_remove_oldest E (sl_pool st);
     (case oldest of
        None \<Rightarrow> Some (st\<lparr>sl_pool := pool\<rparr>)
      | Some (f, fid) \<Rightarrow>
          (let st' = select_fragment E G L date (sched 0) f fid (st\<lparr>sl_pool := pool\<rparr>) in
           if sl_space_left st' = 0 then Some st'
           else select_loop E G L date (\<lambda>i. sched (Suc i)) fuel st'))
   }"

record ('ct, 'lg) selection_result =
  sr_contents :: 'ct
  sr_ledger :: 'lg
  sr_rejected_cnt :: nat

definition oldest_first_select ::
  "('tx, 'p, 'id :: linorder) fragment_env \<Rightarrow> ('lg, ('tx, 'p) fragment, 'cb, 'ct) ledger_ops \<Rightarrow> ('c, 'id, 'h) log_ops
    \<Rightarrow> (nat \<Rightarrow> nat) \<Rightarrow> (nat \<Rightarrow> bool \<times> bool) \<Rightarrow> 'lg \<Rightarrow> 'c \<Rightarrow> ('tx, 'p, 'id) pool
    \<Rightarrow> (('ct, 'lg) selection_result \<times> 'c \<times> ('tx, 'p, 'id) pool) option" where
  "oldest_first_select E G L clk sched ledger logs pool = do {
     st \<leftarrow> select_loop E G L (ledger_block_date G ledger) sched (Suc (pool_len pool))
       \<lparr>sl_ledger = ledger, sl_logs = logs, sl_pool = pool,
        sl_space_left = block_content_max_size G ledger, sl_contents = builder_new G,
        sl_return = [], sl_rejected_cnt = 0, sl_clock = clk\<rparr>;
     pool' \<leftarrow> pool_return_to_pool E (sl_pool st) (rev (sl_return st));
     Some (\<lparr>sr_contents = builder_into G (sl_contents st), sr_ledger = sl_ledger st,
            sr_rejected_cnt = sl_rejected_cnt st\<rparr>, sl_logs st, pool')
   }"

section \<open>Abstract specification\<close>

text \<open>
  A selection is a sequence of verdicts on the fragments, oldest first. A fragment is
  selected only if it fits in the space left and the ledger accepts it, in which case
  it uses up its size. It is refused if it is larger than a whole block or the ledger
  rejects it, and put back if it does not fit in the space left, with no effect on the ledger or
  the space. When no deadline passes (\<open>timely\<close>) these are the only reasons; otherwise a deadline may
  also put back or refuse a fragment.
\<close>

datatype verdict = Selected | PutBack | Refused string

record ('lg, 'f) selection_rules =
  rule_max :: "'lg \<Rightarrow> nat"
  rule_size :: "'f \<Rightarrow> nat"
  rule_apply :: "'lg \<Rightarrow> 'f \<Rightarrow> (string \<times> string list, 'lg) result"

inductive selection ::
  "('lg, 'f) selection_rules \<Rightarrow> bool \<Rightarrow> 'lg \<Rightarrow> nat \<Rightarrow> (verdict \<times> 'f \<times> 'id) list \<Rightarrow> 'lg \<Rightarrow> nat \<Rightarrow> bool"
  for R :: "('lg, 'f) selection_rules" and timely :: bool where
  finished: "selection R timely lg space [] lg space"
| selected: "\<lbrakk>rule_size R f \<le> space; rule_size R f \<le> rule_max R lg; rule_apply R lg f = Inr lg';
      selection R timely lg' (space - rule_size R f) vs lg'' space''\<rbrakk>
    \<Longrightarrow> selection R timely lg space ((Selected, f, fid) # vs) lg'' space''"
| put_back: "\<lbrakk>space < rule_size R f \<or> \<not> timely; selection R timely lg space vs lg'' space''\<rbrakk>
    \<Longrightarrow> selection R timely lg space ((PutBack, f, fid) # vs) lg'' space''"
| refused: "\<lbrakk>rule_max R lg < rule_size R f \<or> (\<exists>e. rule_apply R lg f = Inl e \<and> reason = error_message e) \<or> \<not> timely;
      selection R timely lg space vs lg'' space''\<rbrakk>
    \<Longrightarrow> selection R timely lg space ((Refused reason, f, fid) # vs) lg'' space''"

inductive_cases selection_NilE: "selection R timely lg space [] lg'' space''"
inductive_cases selection_ConsE: "selection R timely lg space (v # vs) lg'' space''"

definition code_rules ::
  "('tx, 'p, 'id) fragment_env \<Rightarrow> ('lg, ('tx, 'p) fragment, 'cb, 'ct) ledger_ops
    \<Rightarrow> ('lg, ('tx, 'p) fragment) selection_rules" where
  "code_rules E G = \<lparr>rule_max = \<lambda>lg. unat (block_content_max_size G lg),
     rule_size = serialized_size E, rule_apply = apply_fragment G\<rparr>"

definition no_deadline :: "(nat \<Rightarrow> bool \<times> bool) \<Rightarrow> bool" where
  "no_deadline sched \<longleftrightarrow> (\<forall>i. \<not> fst (sched i))"

definition with_verdict :: "(verdict \<Rightarrow> bool) \<Rightarrow> (verdict \<times> 'f \<times> 'id) list \<Rightarrow> ('f \<times> 'id) list" where
  "with_verdict P vs = map snd (filter (\<lambda>v. P (fst v)) vs)"

abbreviation chosen :: "(verdict \<times> 'f \<times> 'id) list \<Rightarrow> ('f \<times> 'id) list" where
  "chosen \<equiv> with_verdict (\<lambda>v. v = Selected)"

abbreviation put_backs :: "(verdict \<times> 'f \<times> 'id) list \<Rightarrow> ('f \<times> 'id) list" where
  "put_backs \<equiv> with_verdict (\<lambda>v. v = PutBack)"

text \<open>The effect of the refusals on the logs, in order.\<close>

fun log_refusals ::
  "('c, 'id, 'h) log_ops \<Rightarrow> (nat \<Rightarrow> nat) \<Rightarrow> block_date \<Rightarrow> 'c \<Rightarrow> (verdict \<times> 'f \<times> 'id) list \<Rightarrow> 'c" where
  "log_refusals L clk date c [] = c"
| "log_refusals L clk date c ((Refused reason, f, fid) # vs) =
     log_refusals L (\<lambda>i. clk (i + 3)) date (logs_modify L clk c fid (Rejected reason) date) vs"
| "log_refusals L clk date c (_ # vs) = log_refusals L clk date c vs"

definition refusals :: "(verdict \<times> 'f \<times> 'id) list \<Rightarrow> ('id \<times> string) list" where
  "refusals vs = List.map_filter (\<lambda>(v, f, fid). case v of Refused r \<Rightarrow> Some (fid, r) | _ \<Rightarrow> None) vs"

section \<open>One fragment\<close>

lemma with_verdict_simps [simp]:
  "with_verdict P [] = []"
  "with_verdict P (v # vs) = (if P (fst v) then snd v # with_verdict P vs else with_verdict P vs)"
  by (simp_all add: with_verdict_def)

lemma refusals_simps [simp]:
  "refusals [] = []"
  "refusals ((Refused r, f, fid) # vs) = (fid, r) # refusals vs"
  "refusals ((Selected, f, fid) # vs) = refusals vs"
  "refusals ((PutBack, f, fid) # vs) = refusals vs"
  by (simp_all add: refusals_def List.map_filter_simps)

lemma try_apply_ok:
  assumes "try_apply_fragment E G f lg race space = Inr (lg', space')"
  shows "serialized_size E f \<le> unat space" "serialized_size E f \<le> unat (block_content_max_size G lg)"
    "apply_fragment G lg f = Inr lg'" "unat space' = unat space - serialized_size E f"
proof -
  have n: "serialized_size E f < 2 ^ 32" and le: "(of_nat (serialized_size E f) :: u32) \<le> block_content_max_size G lg"
    "\<not> space < (of_nat (serialized_size E f) :: u32)" and app: "apply_fragment G lg f = Inr lg'"
    and space': "space' = space - of_nat (serialized_size E f)"
    using assms by (auto simp: try_apply_fragment_def Let_def split: if_splits sum.splits prod.splits bool.splits)
  show "serialized_size E f \<le> unat (block_content_max_size G lg)" "apply_fragment G lg f = Inr lg'"
    using le(1) app unat_u32_of_nat [OF n] by (simp_all add: word_le_nat_alt)
  show "serialized_size E f \<le> unat space" using le(2) unat_u32_of_nat [OF n] by (simp add: word_less_nat_alt)
  show "unat space' = unat space - serialized_size E f"
    using le(2) unat_u32_of_nat [OF n] by (simp add: space' unat_sub word_le_nat_alt word_less_nat_alt)
qed

lemma try_apply_put_back:
  assumes "try_apply_fragment E G f lg race space = Inl e" and "e = DoesNotFit \<or> e = SoftDeadlineReached"
  shows "unat space < serialized_size E f \<or> fst race"
  using assms unat_u32_of_nat [of "serialized_size E f"]
  by (auto simp: try_apply_fragment_def Let_def word_less_nat_alt split: if_splits sum.splits prod.splits bool.splits)

lemma try_apply_rejected:
  assumes "try_apply_fragment E G f lg race space = Inl (FragmentRejected reason)"
  shows "unat (block_content_max_size G lg) < serialized_size E f \<or>
     (\<exists>e. apply_fragment G lg f = Inl e \<and> reason = error_message e) \<or> fst race"
proof (cases "serialized_size E f < 2 ^ 32")
  case True
  with assms unat_u32_of_nat [OF True] show ?thesis
    by (auto simp: try_apply_fragment_def Let_def word_le_nat_alt split: if_splits sum.splits prod.splits bool.splits)
next
  case False
  have "unat (block_content_max_size G lg) < 2 ^ 32" by (rule unat_u32_less)
  with False show ?thesis by simp
qed

text \<open>
  \<open>selects E G L date timely st vs st'\<close>: the verdicts \<open>vs\<close> lead from the state \<open>st\<close> of the
  loop to \<open>st'\<close>.
\<close>

definition selects ::
  "('tx, 'p, 'id) fragment_env \<Rightarrow> ('lg, ('tx, 'p) fragment, 'cb, 'ct) ledger_ops \<Rightarrow> ('c, 'id, 'h) log_ops
    \<Rightarrow> block_date \<Rightarrow> bool \<Rightarrow> ('lg, 'cb, 'c, 'tx, 'p, 'id) selection_state
    \<Rightarrow> (verdict \<times> ('tx, 'p) fragment \<times> 'id) list \<Rightarrow> ('lg, 'cb, 'c, 'tx, 'p, 'id) selection_state \<Rightarrow> bool" where
  "selects E G L date timely st vs st' \<longleftrightarrow>
     selection (code_rules E G) timely (sl_ledger st) (unat (sl_space_left st)) vs
       (sl_ledger st') (unat (sl_space_left st')) \<and>
     sl_contents st' = foldl (builder_push G) (sl_contents st) (map fst (chosen vs)) \<and>
     sl_return st' = sl_return st @ put_backs vs \<and>
     sl_rejected_cnt st' = sl_rejected_cnt st + length (refusals vs) \<and>
     sl_logs st' = log_refusals L (sl_clock st) date (sl_logs st) vs"

lemma selects_Nil: "selects E G L date timely st [] st"
  by (simp add: selects_def finished)

lemma selects_pool [simp]: "selects E G L date timely (st\<lparr>sl_pool := p\<rparr>) vs st' = selects E G L date timely st vs st'"
  by (simp add: selects_def)

lemma select_fragment_pool [simp]: "sl_pool (select_fragment E G L date race f fid st) = sl_pool st"
  by (simp add: select_fragment_def split: sum.split apply_fragment_error.split prod.split)

lemma selects_Cons:
  assumes "timely \<longrightarrow> \<not> fst race"
  shows "\<exists>v. \<forall>vs st'. selects E G L date timely (select_fragment E G L date race f fid st) vs st'
     \<longrightarrow> selects E G L date timely st ((v, f, fid) # vs) st'"
proof (cases "try_apply_fragment E G f (sl_ledger st) race (sl_space_left st)")
  case (Inr r)
  then obtain lg' space' where r: "try_apply_fragment E G f (sl_ledger st) race (sl_space_left st) = Inr (lg', space')"
    by (cases r) simp
  show ?thesis
    by (rule exI [of _ Selected])
      (use try_apply_ok [OF r] in \<open>auto simp: selects_def select_fragment_def r code_rules_def intro!: selected\<close>)
next
  case (Inl e)
  show ?thesis
  proof (cases e)
    case (FragmentRejected reason)
    then have r: "try_apply_fragment E G f (sl_ledger st) race (sl_space_left st) = Inl (FragmentRejected reason)"
      using Inl by simp
    show ?thesis
      by (rule exI [of _ "Refused reason"])
        (use assms try_apply_rejected [OF r] in \<open>auto simp: selects_def select_fragment_def r code_rules_def intro!: refused\<close>)
  qed (use Inl assms try_apply_put_back [OF Inl] in
        \<open>auto simp: selects_def select_fragment_def code_rules_def intro!: put_back exI [of _ PutBack]\<close>)
qed

lemma select_loop_selection:
  assumes "pool_rep E (sl_pool st) xs" and "length xs < fuel" and "timely \<longrightarrow> no_deadline sched"
  shows "\<exists>st' vs un. select_loop E G L date sched fuel st = Some st' \<and>
     xs = un @ rev (map (\<lambda>v. entry_of (snd v)) vs) \<and>
     pool_rep E (sl_pool st') un \<and> p_max_entries (sl_pool st') = p_max_entries (sl_pool st) \<and>
     selects E G L date timely st vs st' \<and> (un \<noteq> [] \<longrightarrow> sl_space_left st' = 0)"
  using assms
proof (induction fuel arbitrary: st xs sched)
  case (Suc fuel)
  show ?case
  proof (cases xs rule: rev_cases)
    case Nil
    then show ?thesis
      using pool_remove_oldest_empty [of E "sl_pool st"] Suc.prems(1)
      by (intro exI [of _ st] exI [of _ "[]"]) (auto simp: selects_Nil)
  next
    case (snoc ys x)
    obtain fid f where x: "x = (fid, f)" by (rule prod.exhaust)
    obtain p where p: "pool_remove_oldest E (sl_pool st) = Some (Some (f, fid), p)"
        "p_max_entries p = p_max_entries (sl_pool st)" "pool_rep E p ys"
      using pool_remove_oldest_snoc [of E "sl_pool st" ys fid f] Suc.prems(1) snoc x by auto
    define st1 where "st1 = select_fragment E G L date (sched 0) f fid (st\<lparr>sl_pool := p\<rparr>)"
    have pool1: "sl_pool st1 = p" by (simp add: st1_def)
    from Suc.prems(3) have "timely \<longrightarrow> \<not> fst (sched 0)" by (auto simp: no_deadline_def)
    then obtain v where v: "\<And>vs st'. selects E G L date timely st1 vs st'
        \<Longrightarrow> selects E G L date timely st ((v, f, fid) # vs) st'"
      unfolding st1_def
      using selects_Cons [of timely "sched 0" E G L date f fid "st\<lparr>sl_pool := p\<rparr>"] unfolding selects_pool by blast
    show ?thesis
    proof (cases "sl_space_left st1 = 0")
      case True
      have "selects E G L date timely st [(v, f, fid)] st1"
        by (rule v [OF selects_Nil])
      with True p pool1 snoc x show ?thesis
        by (intro exI [of _ st1] exI [of _ "[(v, f, fid)]"] exI [of _ ys]) (auto simp: Let_def simp flip: st1_def)
    next
      case False
      have "timely \<longrightarrow> no_deadline (\<lambda>i. sched (Suc i))" using Suc.prems(3) by (auto simp: no_deadline_def)
      with Suc.IH [of st1 ys "\<lambda>i. sched (Suc i)"] p(3) Suc.prems(2) snoc pool1
      obtain st' vs un where IH: "select_loop E G L date (\<lambda>i. sched (Suc i)) fuel st1 = Some st'"
          "ys = un @ rev (map (\<lambda>v. entry_of (snd v)) vs)" "pool_rep E (sl_pool st') un"
          "p_max_entries (sl_pool st') = p_max_entries p"
          "selects E G L date timely st1 vs st'" "un \<noteq> [] \<longrightarrow> sl_space_left st' = 0"
        by auto
      with False p v [OF IH(5)] snoc x show ?thesis
        by (intro exI [of _ st'] exI [of _ "(v, f, fid) # vs"] exI [of _ un]) (auto simp: Let_def simp flip: st1_def)
    qed
  qed
qed simp

section \<open>The whole selection\<close>

lemma pool_entries_split:
  assumes "wf_alist (un @ rev (map (\<lambda>v. entry_of (snd v)) vs))"
  shows "distinct (map snd (rev (put_backs vs)))" "set (map snd (rev (put_backs vs))) \<inter> set (keys_of un) = {}"
proof -
  have "keys_of (un @ rev (map (\<lambda>v. entry_of (snd v)) vs)) = keys_of un @ rev (map (\<lambda>v. snd (snd v)) vs)"
    by (simp add: rev_map comp_def)
  with assms have "distinct (keys_of un @ rev (map (\<lambda>v. snd (snd v)) vs))" by (simp only:)
  then have "distinct (map (\<lambda>v. snd (snd v)) vs)" "set (map (\<lambda>v. snd (snd v)) vs) \<inter> set (keys_of un) = {}"
    by auto
  moreover have "map snd (put_backs vs) = map (\<lambda>v. snd (snd v)) (filter (\<lambda>v. fst v = PutBack) vs)"
    by (simp add: with_verdict_def)
  ultimately have "distinct (map snd (put_backs vs))" "set (map snd (put_backs vs)) \<inter> set (keys_of un) = {}"
    by (auto simp: distinct_map_filter simp del: set_map) auto
  then show "distinct (map snd (rev (put_backs vs)))"
      "set (map snd (rev (put_backs vs))) \<inter> set (keys_of un) = {}"
    by (simp_all flip: rev_map)
qed

lemma oldest_first_selects:
  assumes rep: "pool_rep E pool xs" and timely: "timely \<longrightarrow> no_deadline sched"
  shows "\<exists>lg' space' vs un pool'.
     oldest_first_select E G L clk sched ledger logs pool =
       Some (\<lparr>sr_contents = builder_into G (foldl (builder_push G) (builder_new G) (map fst (chosen vs))),
              sr_ledger = lg', sr_rejected_cnt = length (refusals vs)\<rparr>,
             log_refusals L clk (ledger_block_date G ledger) logs vs, pool') \<and>
     xs = un @ rev (map (\<lambda>v. entry_of (snd v)) vs) \<and>
     selection (code_rules E G) timely ledger (unat (block_content_max_size G ledger)) vs lg' space' \<and>
     (un \<noteq> [] \<longrightarrow> space' = 0) \<and>
     pool_rep E pool' (un @ map entry_of (rev (put_backs vs))) \<and> p_max_entries pool' = p_max_entries pool"
proof -
  let ?st = "\<lparr>sl_ledger = ledger, sl_logs = logs, sl_pool = pool,
        sl_space_left = block_content_max_size G ledger, sl_contents = builder_new G,
        sl_return = [], sl_rejected_cnt = 0, sl_clock = clk\<rparr>"
  have "pool_rep E (sl_pool ?st) xs" "length xs < Suc (pool_len pool)"
    using rep pool_len_entries [OF rep] by simp_all
  from select_loop_selection [OF this timely, of G L "ledger_block_date G ledger"]
  obtain st vs un where st:
    "select_loop E G L (ledger_block_date G ledger) sched (Suc (pool_len pool)) ?st = Some st"
    "xs = un @ rev (map (\<lambda>v. entry_of (snd v)) vs)" "pool_rep E (sl_pool st) un"
    "p_max_entries (sl_pool st) = p_max_entries pool"
    "selects E G L (ledger_block_date G ledger) timely ?st vs st" "un \<noteq> [] \<longrightarrow> sl_space_left st = 0"
    by auto
  have wf: "wf_alist (un @ rev (map (\<lambda>v. entry_of (snd v)) vs))" using pool_repD(4) [OF rep] st(2) by simp
  obtain pool' where pool': "pool_return_to_pool E (sl_pool st) (rev (put_backs vs)) = Some pool'"
      "p_max_entries pool' = p_max_entries pool" "pool_rep E pool' (un @ map entry_of (rev (put_backs vs)))"
    using pool_return_rep [OF st(3) pool_entries_split [OF wf]] st(4) by auto
  moreover have "sl_return st = put_backs vs" using st(5) by (simp add: selects_def)
  ultimately show ?thesis using st(2,5,6)
    by (intro exI [of _ "sl_ledger st"] exI [of _ "unat (sl_space_left st)"] exI [of _ vs] exI [of _ un] exI [of _ pool'])
      (simp add: oldest_first_select_def selects_def st(1) del: select_loop.simps)
qed

lemma oldest_first_select_total:
  assumes "pool_inv E pool"
  shows "\<exists>r logs' pool'. oldest_first_select E G L clk sched ledger logs pool = Some (r, logs', pool')"
proof -
  have "pool_rep E pool (pool_entries pool)" using assms by (simp add: pool_inv_def)
  from oldest_first_selects [OF this, of False sched G L clk ledger logs] show ?thesis by auto
qed

section \<open>Consequences of the specification\<close>

lemma selection_space:
  "selection R timely lg space vs lg' space' \<Longrightarrow>
     (\<Sum>x\<leftarrow>chosen vs. rule_size R (fst x)) + space' = space"
  by (induction rule: selection.induct) auto

fun apply_all :: "('lg \<Rightarrow> 'f \<Rightarrow> ('e, 'lg) result) \<Rightarrow> 'lg \<Rightarrow> 'f list \<Rightarrow> ('e, 'lg) result" where
  "apply_all app lg [] = Inr lg"
| "apply_all app lg (f # fs) = rbind (app lg f) (\<lambda>lg'. apply_all app lg' fs)"

lemma selection_ledger:
  "selection R timely lg space vs lg' space' \<Longrightarrow>
     apply_all (rule_apply R) lg (map fst (chosen vs)) = Inr lg'"
  by (induction rule: selection.induct) auto

text \<open>Without a deadline, a fragment put back was too large for what was left of the block.\<close>

lemma selection_put_back:
  "selection R True lg space vs lg' space' \<Longrightarrow> x \<in> set (put_backs vs) \<Longrightarrow> space' < rule_size R (fst x)"
proof (induction lg space vs lg' space' rule: selection.induct)
  case (put_back space f lg vs lg'' space'' fid)
  then show ?case using selection_space [OF put_back(2)] by auto
qed auto

lemma chosen_subset: "set (with_verdict P vs) \<subseteq> snd ` set vs"
  by (auto simp: with_verdict_def)

lemma chosen_not_kept:
  assumes "wf_alist (un @ rev (map (\<lambda>v. prod.swap (snd v)) vs))"
  shows "prod.swap ` set (chosen vs) \<inter> set (un @ rev (map prod.swap (put_backs vs))) = {}"
proof -
  have "keys_of (un @ rev (map (\<lambda>v. prod.swap (snd v)) vs)) = keys_of un @ rev (map (\<lambda>v. snd (snd v)) vs)"
    by (simp add: rev_map comp_def)
  with assms have d: "distinct (keys_of un @ rev (map (\<lambda>v. snd (snd v)) vs))" by (simp only:)
  then have inj: "inj_on (\<lambda>v. snd (snd v)) (set vs)" by (simp add: distinct_map)
  have "\<not> (x \<in> set (chosen vs) \<and> x \<in> set (put_backs vs))" for x
    using inj by (auto simp: with_verdict_def dest!: inj_onD [of _ _ "(Selected, x)" "(PutBack, x)"])
  moreover have "prod.swap x \<notin> set un" if "x \<in> set (chosen vs)" for x
    using that d by (force simp: with_verdict_def)
  ultimately show ?thesis by auto
qed

section \<open>Correctness\<close>

text \<open>
  (C6) The selection implements its specification. It always ends, without a panic; the fragments are
  judged from the oldest to the newest entry of the pool, each with one verdict, following
  \<open>selection\<close>; the selection stops early only when the block is full. The contents are the selected
  fragments in that order, the refused ones are logged as rejected and counted, and the pool keeps the
  untouched and the put-back entries in their old order.
\<close>

theorem oldest_first_select_correct:
  assumes "pool_inv E pool"
  shows "\<exists>vs un lg' space' pool'.
    oldest_first_select E G L clk sched ledger logs pool =
      Some (\<lparr>sr_contents = builder_into G (foldl (builder_push G) (builder_new G) (map fst (chosen vs))),
             sr_ledger = lg', sr_rejected_cnt = length (refusals vs)\<rparr>,
            log_refusals L clk (ledger_block_date G ledger) logs vs, pool') \<and>
    pool_entries pool = un @ rev (map (\<lambda>v. prod.swap (snd v)) vs) \<and>
    selection (code_rules E G) (no_deadline sched) ledger (unat (block_content_max_size G ledger)) vs lg' space' \<and>
    (un \<noteq> [] \<longrightarrow> space' = 0) \<and>
    pool_inv E pool' \<and> pool_entries pool' = un @ rev (map prod.swap (put_backs vs))"
proof -
  have rep: "pool_rep E pool (pool_entries pool)" using assms by (simp add: pool_inv_def)
  obtain lg' space' vs un pool' where r:
    "oldest_first_select E G L clk sched ledger logs pool =
      Some (\<lparr>sr_contents = builder_into G (foldl (builder_push G) (builder_new G) (map fst (chosen vs))),
             sr_ledger = lg', sr_rejected_cnt = length (refusals vs)\<rparr>,
            log_refusals L clk (ledger_block_date G ledger) logs vs, pool')"
    "pool_entries pool = un @ rev (map (\<lambda>v. prod.swap (snd v)) vs)"
    "selection (code_rules E G) (no_deadline sched) ledger (unat (block_content_max_size G ledger)) vs lg' space'"
    "un \<noteq> [] \<longrightarrow> space' = 0"
    "pool_rep E pool' (un @ map entry_of (rev (put_backs vs)))" "p_max_entries pool' = p_max_entries pool"
    using oldest_first_selects [OF rep, of "no_deadline sched" sched G L clk ledger logs] by blast
  have "length (put_backs vs) \<le> length vs" by (simp add: with_verdict_def)
  then have "pool_inv E pool'"
    using r(2,6) assms by (intro pool_rep_inv [OF r(5)]) (simp add: pool_inv_def)
  with r pool_repD(3) [OF r(5)] show ?thesis by (simp add: rev_map) blast
qed

text \<open>The ledger of the witnesses counts the applied fragments and accepts every fragment.\<close>

definition example_ledger :: "(nat, (nat, unit) fragment, (nat, unit) fragment list, (nat, unit) fragment list) ledger_ops" where
  "example_ledger = \<lparr>block_content_max_size = (\<lambda>_. 150), ledger_block_date = (\<lambda>_. BlockDate 0 0),
     apply_fragment = (\<lambda>n f. Inr (Suc n)), builder_new = [], builder_push = (\<lambda>b f. b @ [f]), builder_into = (\<lambda>b. b)\<rparr>"

lemma example_pool:
  obtains p where "pool_inv example_env p" "pool_entries p = [(7, Transaction 7), (5, Transaction 5)]"
proof -
  obtain p where p: "pool_rep example_env p [(7, Transaction 7), (5, Transaction 5)]" "p_max_entries p = 3"
    using pool_return_rep [OF pool_new_rep [of example_env 3], of "[(Transaction 7, 7), (Transaction 5, 5)]"] by auto
  show ?thesis
    by (rule that [of p]) (use p pool_rep_inv [OF p(1)] pool_repD(3) [OF p(1)] in simp_all)
qed

theorem oldest_first_select_correct_witness:
  "\<exists>p r logs' p'. pool_entries p = [(7, Transaction 7), (5, Transaction 5)] \<and>
     oldest_first_select example_env example_ledger (recency_ops :: (_, nat, (nat, nat) log_entry) lru_ops)
       (\<lambda>_. 0) (\<lambda>_. (False, False)) 0 (logs_new recency_ops 4) p = Some (r, logs', p') \<and> pool_inv example_env p'"
proof -
  obtain p where p: "pool_inv example_env p" "pool_entries p = [(7, Transaction 7), (5, Transaction 5)]"
    by (rule example_pool)
  show ?thesis
    using oldest_first_select_correct [OF p(1), of example_ledger
        "recency_ops :: (_, nat, (nat, nat) log_entry) lru_ops" "\<lambda>_. 0" "\<lambda>_. (False, False)" 0 "logs_new recency_ops 4"] p(2)
    by blast
qed

text \<open>
  (C7) The selected block is valid: the serialized sizes of its fragments add up to at most the maximum block
  content size (with no wrap-around of the 32-bit counter), and the returned ledger is the result of applying
  exactly these fragments, in order and all successfully, to the initial ledger. Every
  selected fragment was in the pool and none of them stays there.
\<close>

theorem oldest_first_select_block:
  assumes "pool_inv E pool"
    and "oldest_first_select E G L clk sched ledger logs pool = Some (r, logs', pool')"
  shows "\<exists>sel. sr_contents r = builder_into G (foldl (builder_push G) (builder_new G) (map fst sel)) \<and>
    (\<Sum>x\<leftarrow>sel. serialized_size E (fst x)) \<le> unat (block_content_max_size G ledger) \<and>
    apply_all (apply_fragment G) ledger (map fst sel) = Inr (sr_ledger r) \<and>
    prod.swap ` set sel \<subseteq> set (pool_entries pool) \<and> prod.swap ` set sel \<inter> set (pool_entries pool') = {}"
proof -
  obtain vs un space' where r:
    "sr_contents r = builder_into G (foldl (builder_push G) (builder_new G) (map fst (chosen vs)))"
    "pool_entries pool = un @ rev (map (\<lambda>v. prod.swap (snd v)) vs)"
    "selection (code_rules E G) (no_deadline sched) ledger (unat (block_content_max_size G ledger)) vs (sr_ledger r) space'"
    "pool_entries pool' = un @ rev (map prod.swap (put_backs vs))"
  proof -
    have rep: "pool_rep E pool (pool_entries pool)" using assms(1) by (simp add: pool_inv_def)
    obtain lg' space' vs un where o: "oldest_first_select E G L clk sched ledger logs pool =
      Some (\<lparr>sr_contents = builder_into G (foldl (builder_push G) (builder_new G) (map fst (chosen vs))),
             sr_ledger = lg', sr_rejected_cnt = length (refusals vs)\<rparr>,
            log_refusals L clk (ledger_block_date G ledger) logs vs, pool')"
      "pool_entries pool = un @ rev (map (\<lambda>v. prod.swap (snd v)) vs)"
      "selection (code_rules E G) (no_deadline sched) ledger (unat (block_content_max_size G ledger)) vs lg' space'"
      "pool_rep E pool' (un @ map entry_of (rev (put_backs vs)))"
      using oldest_first_selects [OF rep, of "no_deadline sched" sched G L clk ledger logs] assms(2) by auto
    show ?thesis
      by (rule that [of vs un space']) (use o assms(2) pool_repD(3) [OF o(4)] in \<open>simp_all add: rev_map\<close>)
  qed
  have "wf_alist (pool_entries pool)" using assms(1) pool_repD(4) by (auto simp: pool_inv_def)
  then have disj: "prod.swap ` set (chosen vs) \<inter> set (pool_entries pool') = {}"
    unfolding r(2,4) by (rule chosen_not_kept)
  have "prod.swap ` set (chosen vs) \<subseteq> set (pool_entries pool)"
    using chosen_subset [of "\<lambda>v. v = Selected" vs] by (force simp: r(2))
  with disj r(1) selection_space [OF r(3)] selection_ledger [OF r(3)] show ?thesis
    by (intro exI [of _ "chosen vs"]) (simp add: code_rules_def)
qed

theorem oldest_first_select_block_witness:
  "\<exists>p r logs' p' (sel :: ((nat, unit) fragment \<times> nat) list). pool_entries p = [(7, Transaction 7), (5, Transaction 5)] \<and>
     oldest_first_select example_env example_ledger (recency_ops :: (_, nat, (nat, nat) log_entry) lru_ops)
       (\<lambda>_. 0) (\<lambda>_. (False, False)) 0 (logs_new recency_ops 4) p = Some (r, logs', p') \<and>
     sr_contents r = map fst sel \<and> length sel \<le> 1 \<and> sr_ledger r = length sel"
proof -
  obtain p where p: "pool_inv example_env p" "pool_entries p = [(7, Transaction 7), (5, Transaction 5)]"
    by (rule example_pool)
  obtain r logs' p' where run: "oldest_first_select example_env example_ledger (recency_ops :: (_, nat, (nat, nat) log_entry) lru_ops)
       (\<lambda>_. 0) (\<lambda>_. (False, False)) 0 (logs_new recency_ops 4) p = Some (r, logs', p')"
    using oldest_first_select_total [OF p(1), of example_ledger "recency_ops :: (_, nat, (nat, nat) log_entry) lru_ops"
        "\<lambda>_. 0" "\<lambda>_. (False, False)" 0 "logs_new recency_ops 4"] by (elim exE) (rule that)
  have builder: "foldl (\<lambda>b f. b @ [f]) b fs = b @ fs" for b fs :: "(nat, unit) fragment list"
    by (induction fs arbitrary: b) simp_all
  have count: "apply_all (\<lambda>n f. Inr (Suc n)) n fs = Inr (n + length fs)" for n and fs :: "(nat, unit) fragment list"
    by (induction fs arbitrary: n) simp_all
  from oldest_first_select_block [OF p(1) run] obtain sel :: "((nat, unit) fragment \<times> nat) list" where
    "sr_contents r = builder_into example_ledger (foldl (builder_push example_ledger) (builder_new example_ledger) (map fst sel))"
    "(\<Sum>x\<leftarrow>sel. serialized_size example_env (fst x)) \<le> unat (block_content_max_size example_ledger 0)"
    "apply_all (apply_fragment example_ledger) 0 (map fst sel) = Inr (sr_ledger r)"
    by blast
  then have sel: "sr_contents r = map fst sel" "length sel \<le> 1" "sr_ledger r = length sel"
    by (simp_all add: example_ledger_def example_env_def builder count sum_list_triv)
  show ?thesis by (rule exI [of _ p], rule exI [of _ r], rule exI, rule exI, rule exI [of _ sel]) (use p(2) run sel in simp)
qed

text \<open>
  (C36) After the soft deadline no fragment of positive size is applied any more, whatever the
  hard deadline does: the space left is compared with the maximum after the size of the current fragment has been
  subtracted, so the case of a block with a single fragment in progress does not arise.
\<close>

theorem soft_deadline_always_aborts:
  assumes "0 < serialized_size E f" and "space_left \<le> block_content_max_size G ledger"
  shows "\<exists>e. try_apply_fragment E G f ledger (True, hard) space_left = Inl e \<and>
    (e = DoesNotFit \<or> e = SoftDeadlineReached \<or>
     e = FragmentRejected (too_large_message (serialized_size E f) (block_content_max_size G ledger)))"
proof -
  have "space_left - of_nat (serialized_size E f) < block_content_max_size G ledger"
    if "serialized_size E f < 2 ^ 32" "\<not> space_left < of_nat (serialized_size E f)"
  proof -
    have "unat (space_left - of_nat (serialized_size E f)) = unat space_left - serialized_size E f"
      using that unat_u32_of_nat [OF that(1)] by (simp add: unat_sub word_le_nat_alt word_less_nat_alt)
    then show ?thesis using assms that unat_u32_of_nat [OF that(1)] by (simp add: word_le_nat_alt word_less_nat_alt)
  qed
  then show ?thesis by (auto simp: try_apply_fragment_def Let_def)
qed

theorem soft_deadline_always_aborts_witness:
  "try_apply_fragment example_env example_ledger (Transaction 5) 0 (True, False) 150 = Inl SoftDeadlineReached"
  using soft_deadline_always_aborts [of example_env "Transaction 5" 150 example_ledger 0 False]
  by (auto simp: try_apply_fragment_def example_env_def example_ledger_def Let_def)

end
