(* ===== verification/Mempool.thy ===== *)
theory Mempool
  imports Complex_Main "HOL-Library.Multiset" Fragment_Selection
begin

text \<open>
  The fragment task: the outer \<^verbatim>\<open>Pool\<close> of \<^verbatim>\<open>jormungandr/src/fragment/pool.rs\<close>, which joins
  the internal pool and the fragment logs, and the message loop of
  \<^verbatim>\<open>jormungandr/src/fragment/process.rs\<close>.

  The state keeps what the task hands to its neighbours: the fragments sent to the network
  task, the entries handed to the writer of the persistent log (\<open>None\<close> when it is
  closed), and the metrics. Whether a send succeeds is an argument of the operations, as are the
  clock and the tip of the chain. The usage ratio is the exact quotient (the code rounds it to a
  floating point number).
\<close>

section \<open>State\<close>

record mempool_metrics =
  mx_usage_ratio :: rat
  mx_total_size :: u64
  mx_rejected_cnt :: nat
  mx_recv_cnt :: nat

record ('c, 'tx, 'p, 'id) mempool =
  mp_logs :: 'c
  mp_pool :: "('tx, 'p, 'id) pool"
  mp_propagated :: "('tx, 'p) fragment list"
  mp_persistent_log :: "(nat \<times> ('tx, 'p) fragment) list option"
  mp_metrics :: mempool_metrics

text \<open>
  What the task asks of the tip: the settings of its ledger, the slot at a time
  (\<^verbatim>\<open>time_frame().slot_at\<close>) and the date of a slot in the era of the tip
  (\<^verbatim>\<open>era.from_slot_to_era\<close> and the conversion to a block date).
\<close>

record 'st pool_tip =
  tip_settings :: 'st
  tip_slot_at :: "nat \<Rightarrow> u64 option"
  tip_slot_to_date :: "u64 \<Rightarrow> block_date option"

text \<open>\<^verbatim>\<open>valid_transaction_date\<close> of the ledger library.\<close>

datatype tx_validity_error = TransactionExpired | TransactionValidForTooLong

type_synonym 'st validity_check = "'st \<Rightarrow> block_date \<Rightarrow> block_date \<Rightarrow> (tx_validity_error, unit) result"

datatype pool_error = CannotPropagate

section \<open>Operations\<close>

definition mempool_new ::
  "nat \<Rightarrow> 'c \<Rightarrow> (nat \<times> ('tx, 'p) fragment) list option \<Rightarrow> mempool_metrics \<Rightarrow> ('c, 'tx, 'p, 'id) mempool" where
  "mempool_new max_entries logs persistent_log metrics =
     \<lparr>mp_logs = logs, mp_pool = pool_new max_entries, mp_propagated = [],
      mp_persistent_log = persistent_log, mp_metrics = metrics\<rparr>"

definition get_current_block_date :: "'st pool_tip \<Rightarrow> nat \<Rightarrow> block_date option" where
  "get_current_block_date tip time = do {
     slot \<leftarrow> tip_slot_at tip time;
     block_date \<leftarrow> tip_slot_to_date tip slot;
     Some (BlockDate (epoch block_date) (slot_id block_date + 1))
   }"

definition update_metrics :: "('c, 'tx, 'p, 'id) mempool \<Rightarrow> ('c, 'tx, 'p, 'id) mempool" where
  "update_metrics mp =
     (let ratio = (case p_max_entries (mp_pool mp) of
                     0 \<Rightarrow> 1
                   | n \<Rightarrow> of_nat (pool_len (mp_pool mp)) / of_nat n)
      in mp\<lparr>mp_metrics := (mp_metrics mp)\<lparr>mx_usage_ratio := ratio,
                                           mx_total_size := p_total_size_bytes (mp_pool mp)\<rparr>\<rparr>)"

definition close_persistent_log :: "('c, 'tx, 'p, 'id) mempool \<Rightarrow> ('c, 'tx, 'p, 'id) mempool" where
  "close_persistent_log mp = mp\<lparr>mp_persistent_log := None\<rparr>"

definition set_persistent_log ::
  "('c, 'tx, 'p, 'id) mempool \<Rightarrow> (nat \<times> ('tx, 'p) fragment) list \<Rightarrow> ('c, 'tx, 'p, 'id) mempool" where
  "set_persistent_log mp file = mp\<lparr>mp_persistent_log := Some file\<rparr>"

definition check_expiry ::
  "('tx, 'p, 'id) fragment_env \<Rightarrow> 'st validity_check \<Rightarrow> 'st \<Rightarrow> block_date \<Rightarrow> ('tx, 'p) fragment
    \<Rightarrow> (fragment_rejection_reason, unit) result" where
  "check_expiry E V settings block_date f =
     (case get_transaction_expiry_date E f of
        None \<Rightarrow> Inr ()
      | Some until \<Rightarrow>
          (case V settings until block_date of
             Inr _ \<Rightarrow> Inr ()
           | Inl TransactionExpired \<Rightarrow> Inl FragmentExpired
           | Inl TransactionValidForTooLong \<Rightarrow> Inl FragmentValidForTooLong))"

definition filter_fragment ::
  "('tx, 'p, 'id) fragment_env \<Rightarrow> 'st validity_check \<Rightarrow> ('c, 'id, 'h) log_ops \<Rightarrow> 'st \<Rightarrow> block_date \<Rightarrow> nat
    \<Rightarrow> ('c, 'tx, 'p, 'id) mempool \<Rightarrow> ('tx, 'p) fragment \<Rightarrow> 'id
    \<Rightarrow> (fragment_rejection_reason, unit) result \<times> ('c, 'tx, 'p, 'id) mempool" where
  "filter_fragment E V L settings block_date now mp f fid =
     (if logs_exists L (mp_logs mp) fid then (Inl FragmentAlreadyInLog, mp)
      else case check_expiry E V settings block_date f of
        Inl reason \<Rightarrow> (Inl reason, mp)
      | Inr _ \<Rightarrow>
          if \<not> is_fragment_valid E f then (Inl FragmentInvalid, mp)
          else (Inr (), mp\<lparr>mp_persistent_log := map_option (\<lambda>l. l @ [(now, f)]) (mp_persistent_log mp)\<rparr>))"

text \<open>
  The filtering loop of \<^verbatim>\<open>insert_and_propagate_all\<close>: the new state, the fragments that
  passed, the rejections, and what the iterator still holds when the loop ends.
\<close>

fun filter_loop ::
  "('tx, 'p, 'id) fragment_env \<Rightarrow> 'st validity_check \<Rightarrow> ('c, 'id, 'h) log_ops \<Rightarrow> 'st \<Rightarrow> block_date \<Rightarrow> bool
    \<Rightarrow> (nat \<Rightarrow> nat) \<Rightarrow> ('c, 'tx, 'p, 'id) mempool \<Rightarrow> (('tx, 'p) fragment \<times> 'id) list
    \<Rightarrow> ('c, 'tx, 'p, 'id) mempool \<times> (('tx, 'p) fragment \<times> 'id) list \<times> 'id rejected_fragment_info list
       \<times> (('tx, 'p) fragment \<times> 'id) list" where
  "filter_loop E V L settings date fail_fast clk mp [] = (mp, [], [], [])"
| "filter_loop E V L settings date fail_fast clk mp ((f, fid) # frs) =
     (let (res, mp1) = filter_fragment E V L settings date (clk 0) mp f fid;
          (mp2, filtered, rejected, rest) = filter_loop E V L settings date fail_fast (\<lambda>i. clk (Suc i)) mp1 frs
      in case res of
           Inr _ \<Rightarrow> (mp2, (f, fid) # filtered, rejected, rest)
         | Inl reason \<Rightarrow>
             if reason = FragmentInvalid \<and> fail_fast
             then (mp1, [], [\<lparr>rj_id = fid, rj_reason = reason\<rparr>], frs)
             else (mp2, filtered, \<lparr>rj_id = fid, rj_reason = reason\<rparr> # rejected, rest))"

text \<open>
  The sending loop: \<open>send_ok i\<close> says whether the \<open>i\<close>-th send succeeds, and the first failure
  ends it. The result is the fragments that were sent and the accepted identifiers.
\<close>

fun propagate_loop ::
  "(nat \<Rightarrow> bool) \<Rightarrow> (('tx, 'p) fragment \<times> 'id) list
    \<Rightarrow> ('tx, 'p) fragment list \<times> (pool_error, 'id list) result" where
  "propagate_loop send_ok [] = ([], Inr [])"
| "propagate_loop send_ok ((f, fid) # frs) =
     (if \<not> send_ok 0 then ([], Inl CannotPropagate)
      else let (sent, res) = propagate_loop (\<lambda>i. send_ok (Suc i)) frs
           in (f # sent, map_sum id (\<lambda>accepted. fid # accepted) res))"

fun new_logs :: "(nat \<Rightarrow> nat) \<Rightarrow> fragment_origin \<Rightarrow> ('f \<times> 'id) list \<Rightarrow> ('id, 'h) fragment_log list" where
  "new_logs clk origin [] = []"
| "new_logs clk origin ((f, fid) # frs) =
     fragment_log_new clk fid origin # new_logs (\<lambda>i. clk (i + 2)) origin frs"

definition insert_and_propagate_all ::
  "('tx, 'p, 'id :: linorder) fragment_env \<Rightarrow> 'st validity_check \<Rightarrow> ('c, 'id, 'h) log_ops \<Rightarrow> 'st pool_tip
    \<Rightarrow> nat \<Rightarrow> (nat \<Rightarrow> nat) \<Rightarrow> (nat \<Rightarrow> nat) \<Rightarrow> (nat \<Rightarrow> bool) \<Rightarrow> ('c, 'tx, 'p, 'id) mempool
    \<Rightarrow> fragment_origin \<Rightarrow> ('tx, 'p) fragment list \<Rightarrow> bool
    \<Rightarrow> ((pool_error, 'id fragments_processing_summary) result \<times> ('c, 'tx, 'p, 'id) mempool) option" where
  "insert_and_propagate_all E V L tip time log_clk clk send_ok mp origin fragments fail_fast = do {
     block_date \<leftarrow> get_current_block_date tip time;
     let (mp1, filtered, rejected, rest) =
       filter_loop E V L (tip_settings tip) block_date fail_fast log_clk mp
         (map (\<lambda>f. (f, fragment_hash E f)) fragments);
     let rejected = rejected @
       (if fail_fast then map (\<lambda>(_, fid). \<lparr>rj_id = fid, rj_reason = PreviousFragmentInvalid\<rparr>) rest else []);
     (pool', new_fragments, overflow) \<leftarrow> pool_insert_all E (mp_pool mp1) filtered;
     (_, logs') \<leftarrow> logs_insert_all_pending L (mp_logs mp1) (new_logs clk origin new_fragments);
     let mp2 = update_metrics (mp1\<lparr>mp_pool := pool', mp_logs := logs'\<rparr>);
     let (sent, accepted) = propagate_loop send_ok new_fragments;
     let mp3 = mp2\<lparr>mp_propagated := mp_propagated mp2 @ sent\<rparr>;
     Some (rbind accepted (\<lambda>accepted.
             Inr \<lparr>sm_accepted = accepted,
                  sm_rejected = rejected @
                    map (\<lambda>(_, fid). \<lparr>rj_id = fid, rj_reason = PoolOverflow\<rparr>) overflow\<rparr>), mp3)
   }"

definition remove_added_to_block ::
  "('tx, 'p, 'id) fragment_env \<Rightarrow> ('c, 'id, 'h) log_ops \<Rightarrow> (nat \<Rightarrow> nat) \<Rightarrow> ('c, 'tx, 'p, 'id) mempool \<Rightarrow> 'id list
    \<Rightarrow> 'h fragment_status \<Rightarrow> ('c, 'tx, 'p, 'id) mempool option" where
  "remove_added_to_block E L clk mp fragment_ids status = do {
     date \<leftarrow> (case status of InABlock date _ \<Rightarrow> Some date | _ \<Rightarrow> None);
     pool' \<leftarrow> pool_remove_all E (mp_pool mp) fragment_ids;
     Some (update_metrics
       (mp\<lparr>mp_pool := pool', mp_logs := logs_modify_all L clk (mp_logs mp) fragment_ids status date\<rparr>))
   }"

definition mempool_select ::
  "('tx, 'p, 'id :: linorder) fragment_env \<Rightarrow> ('lg, ('tx, 'p) fragment, 'cb, 'ct) ledger_ops \<Rightarrow> ('c, 'id, 'h) log_ops
    \<Rightarrow> (nat \<Rightarrow> nat) \<Rightarrow> (nat \<Rightarrow> bool \<times> bool) \<Rightarrow> ('c, 'tx, 'p, 'id) mempool \<Rightarrow> 'lg
    \<Rightarrow> (('ct \<times> 'lg) \<times> ('c, 'tx, 'p, 'id) mempool) option" where
  "mempool_select E G L clk sched mp ledger = do {
     (r, logs', pool') \<leftarrow> oldest_first_select E G L clk sched ledger (mp_logs mp) (mp_pool mp);
     let m = mp_metrics mp;
     Some ((sr_contents r, sr_ledger r),
           update_metrics (mp\<lparr>mp_logs := logs', mp_pool := pool',
             mp_metrics := m\<lparr>mx_rejected_cnt := mx_rejected_cnt m + sr_rejected_cnt r\<rparr>\<rparr>))
   }"

definition prune_after_ledger_branch ::
  "('c, 'id, 'h) log_ops \<Rightarrow> ('c, 'tx, 'p, 'id) mempool \<Rightarrow> block_date \<Rightarrow> ('c, 'tx, 'p, 'id) mempool option" where
  "prune_after_ledger_branch L mp branch_date =
     map_option (\<lambda>logs'. update_metrics (mp\<lparr>mp_logs := logs'\<rparr>)) (logs_remove_after_date L (mp_logs mp) branch_date)"

definition mempool_remove_expired_txs ::
  "('tx, 'p, 'id) fragment_env \<Rightarrow> ('c, 'id, 'h) log_ops \<Rightarrow> 'st pool_tip \<Rightarrow> nat \<Rightarrow> (nat \<Rightarrow> nat)
    \<Rightarrow> ('c, 'tx, 'p, 'id) mempool \<Rightarrow> ('c, 'tx, 'p, 'id) mempool option" where
  "mempool_remove_expired_txs E L tip time clk mp = do {
     block_date \<leftarrow> get_current_block_date tip time;
     (fragment_ids, pool') \<leftarrow> pool_remove_expired_txs E (mp_pool mp) block_date;
     let m = mp_metrics mp;
     Some (update_metrics
       (mp\<lparr>mp_pool := pool',
          mp_metrics := m\<lparr>mx_rejected_cnt := mx_rejected_cnt m + length fragment_ids\<rparr>,
          mp_logs := logs_modify_all L clk (mp_logs mp) fragment_ids (Rejected ''fragment expired'') block_date\<rparr>))
   }"

section \<open>The message loop\<close>

datatype ('lg, 'tx, 'p, 'id, 'h) transaction_msg =
    SendTransactions fragment_origin "('tx, 'p) fragment list" bool
  | RemoveTransactions "'id list" "'h fragment_status"
  | GetLogs
  | GetStatuses "'id list"
  | BranchSwitch block_date
  | SelectTransactions 'lg

datatype ('ct, 'lg, 'id, 'h) transaction_reply =
    SummaryReply "'id fragments_processing_summary"
  | LogsReply "('id, 'h) fragment_log list"
  | StatusesReply "('id \<times> 'h fragment_status) list"
  | ContentsReply "'ct \<times> 'lg"
  | NoReply

datatype process_error = PoolError pool_error | PersistentLogError

text \<open>What the surroundings decide while one message is handled.\<close>

record 'st task_inputs =
  in_tip :: "'st pool_tip"
  in_time :: nat
  in_log_clock :: "nat \<Rightarrow> nat"
  in_clock :: "nat \<Rightarrow> nat"
  in_send_ok :: "nat \<Rightarrow> bool"
  in_schedule :: "nat \<Rightarrow> bool \<times> bool"

definition fragment_task_init ::
  "('c, 'id, 'h) log_ops \<Rightarrow> nat \<Rightarrow> nat \<Rightarrow> (nat \<times> ('tx, 'p) fragment) list option \<Rightarrow> mempool_metrics
    \<Rightarrow> ('c, 'tx, 'p, 'id) mempool" where
  "fragment_task_init L pool_max_entries logs_max_entries persistent_log metrics =
     mempool_new pool_max_entries (logs_new L (max logs_max_entries pool_max_entries)) persistent_log metrics"

fun handle_transaction_msg ::
  "('tx, 'p, 'id :: linorder) fragment_env \<Rightarrow> 'st validity_check \<Rightarrow> ('lg, ('tx, 'p) fragment, 'cb, 'ct) ledger_ops
    \<Rightarrow> ('c, 'id, 'h) log_ops \<Rightarrow> 'st task_inputs \<Rightarrow> ('c, 'tx, 'p, 'id) mempool
    \<Rightarrow> ('lg, 'tx, 'p, 'id, 'h) transaction_msg
    \<Rightarrow> ((process_error, ('ct, 'lg, 'id, 'h) transaction_reply) result \<times> ('c, 'tx, 'p, 'id) mempool) option" where
  "handle_transaction_msg E V G L I mp (SendTransactions origin fragments fail_fast) = do {
     (res, mp') \<leftarrow> insert_and_propagate_all E V L (in_tip I) (in_time I) (in_log_clock I) (in_clock I)
                     (in_send_ok I) mp origin fragments fail_fast;
     (case res of
        Inl e \<Rightarrow> Some (Inl (PoolError e), mp')
      | Inr summary \<Rightarrow>
          Some (Inr (SummaryReply summary),
            mp'\<lparr>mp_metrics := (mp_metrics mp')\<lparr>mx_recv_cnt :=
                  mx_recv_cnt (mp_metrics mp') + length (sm_accepted summary)\<rparr>\<rparr>))
   }"
| "handle_transaction_msg E V G L I mp (RemoveTransactions fragment_ids status) = do {
     mp1 \<leftarrow> remove_added_to_block E L (in_clock I) mp fragment_ids status;
     mp2 \<leftarrow> mempool_remove_expired_txs E L (in_tip I) (in_time I)
              (\<lambda>i. in_clock I (i + 3 * length fragment_ids)) mp1;
     Some (Inr NoReply, mp2)
   }"
| "handle_transaction_msg E V G L I mp GetLogs = Some (Inr (LogsReply (logs_list L (mp_logs mp))), mp)"
| "handle_transaction_msg E V G L I mp (GetStatuses fragment_ids) =
     Some (Inr (StatusesReply (map (\<lambda>(fid, log). (fid, fl_status log)) (logs_by_ids L (mp_logs mp) fragment_ids))), mp)"
| "handle_transaction_msg E V G L I mp (BranchSwitch fork_date) =
     map_option (\<lambda>mp'. (Inr NoReply, mp')) (prune_after_ledger_branch L mp fork_date)"
| "handle_transaction_msg E V G L I mp (SelectTransactions ledger) =
     map_option (\<lambda>(contents, mp'). (Inr (ContentsReply contents), mp'))
       (mempool_select E G L (in_clock I) (in_schedule I) mp ledger)"

text \<open>The hourly rotation of the persistent log; \<open>None\<close> when the new file cannot be opened.\<close>

definition rotate_persistent_log ::
  "('c, 'tx, 'p, 'id) mempool \<Rightarrow> (nat \<times> ('tx, 'p) fragment) list option
    \<Rightarrow> (process_error, unit) result \<times> ('c, 'tx, 'p, 'id) mempool" where
  "rotate_persistent_log mp opened =
     (let mp1 = close_persistent_log mp
      in case opened of
           None \<Rightarrow> (Inl PersistentLogError, mp1)
         | Some file \<Rightarrow> (Inr (), set_persistent_log mp1 file))"

section \<open>The invariant of the task\<close>

definition mempool_inv ::
  "('tx, 'p, 'id :: linorder) fragment_env \<Rightarrow> ('c, 'id, 'h) log_ops \<Rightarrow> ('c, 'tx, 'p, 'id) mempool \<Rightarrow> bool" where
  "mempool_inv E L mp \<longleftrightarrow> pool_inv E (mp_pool mp) \<and> logs_inv L (mp_logs mp)"

text \<open>A message is handled without a panic when the clock gives a date and the removal status is a block.\<close>

definition acceptable_msg ::
  "'st task_inputs \<Rightarrow> ('lg, 'tx, 'p, 'id, 'h) transaction_msg \<Rightarrow> bool" where
  "acceptable_msg I msg \<longleftrightarrow>
     (case msg of
        SendTransactions _ _ _ \<Rightarrow> get_current_block_date (in_tip I) (in_time I) \<noteq> None
      | RemoveTransactions _ status \<Rightarrow>
          is_in_a_block status \<and> get_current_block_date (in_tip I) (in_time I) \<noteq> None
      | _ \<Rightarrow> True)"

text \<open>The two gauges show the current contents of the pool.\<close>

definition metrics_current :: "('c, 'tx, 'p, 'id) mempool \<Rightarrow> bool" where
  "metrics_current mp \<longleftrightarrow> mp_metrics (update_metrics mp) = mp_metrics mp"

inductive task_reachable ::
  "('tx, 'p, 'id :: linorder) fragment_env \<Rightarrow> 'st validity_check \<Rightarrow> ('lg, ('tx, 'p) fragment, 'cb, 'ct) ledger_ops
    \<Rightarrow> ('c, 'id, 'h) log_ops \<Rightarrow> ('c, 'tx, 'p, 'id) mempool \<Rightarrow> ('c, 'tx, 'p, 'id) mempool \<Rightarrow> bool"
  for E :: "('tx, 'p, 'id :: linorder) fragment_env" and V :: "'st validity_check"
    and G :: "('lg, ('tx, 'p) fragment, 'cb, 'ct) ledger_ops" and L :: "('c, 'id, 'h) log_ops" where
  start: "task_reachable E V G L mp mp"
| message: "task_reachable E V G L mp0 mp \<Longrightarrow>
     handle_transaction_msg E V G L (I :: 'st task_inputs) mp msg = Some (Inr reply, mp') \<Longrightarrow>
     task_reachable E V G L mp0 mp'"
| wakeup: "task_reachable E V G L mp0 mp \<Longrightarrow> rotate_persistent_log mp opened = (Inr (), mp') \<Longrightarrow>
     task_reachable E V G L mp0 mp'"

section \<open>Admission\<close>

text \<open>The reason to reject a fragment on arrival, in the order of the tests, if any.\<close>

definition admission ::
  "('tx, 'p, 'id) fragment_env \<Rightarrow> 'st validity_check \<Rightarrow> ('c, 'id, 'h) log_ops \<Rightarrow> 'st \<Rightarrow> block_date \<Rightarrow> 'c
    \<Rightarrow> ('tx, 'p) fragment \<times> 'id \<Rightarrow> fragment_rejection_reason option" where
  "admission E V L settings date c x =
     (if logs_exists L c (snd x) then Some FragmentAlreadyInLog
      else case check_expiry E V settings date (fst x) of
        Inl reason \<Rightarrow> Some reason
      | Inr _ \<Rightarrow> if is_fragment_valid E (fst x) then None else Some FragmentInvalid)"

definition reject_with :: "('f \<times> 'id \<Rightarrow> fragment_rejection_reason option) \<Rightarrow> ('f \<times> 'id) list \<Rightarrow> 'id rejected_fragment_info list" where
  "reject_with adm frs = map (\<lambda>x. \<lparr>rj_id = snd x, rj_reason = the (adm x)\<rparr>) (filter (\<lambda>x. adm x \<noteq> None) frs)"

lemma filter_fragment_admission:
  "filter_fragment E V L settings date now mp f fid =
     (case admission E V L settings date (mp_logs mp) (f, fid) of
        Some reason \<Rightarrow> (Inl reason, mp)
      | None \<Rightarrow> (Inr (), mp\<lparr>mp_persistent_log := map_option (\<lambda>l. l @ [(now, f)]) (mp_persistent_log mp)\<rparr>))"
  by (simp add: filter_fragment_def admission_def split: sum.split)

text \<open>
  The part of the batch that the loop handles: all of it, or with \<open>fail_fast\<close> everything up to and
  including the first invalid fragment.
\<close>

fun handled :: "('f \<times> 'id \<Rightarrow> fragment_rejection_reason option) \<Rightarrow> bool \<Rightarrow> ('f \<times> 'id) list \<Rightarrow> ('f \<times> 'id) list" where
  "handled adm fail_fast [] = []"
| "handled adm fail_fast (x # xs) =
     x # (if fail_fast \<and> adm x = Some FragmentInvalid then [] else handled adm fail_fast xs)"

definition unhandled :: "('f \<times> 'id \<Rightarrow> fragment_rejection_reason option) \<Rightarrow> bool \<Rightarrow> ('f \<times> 'id) list \<Rightarrow> ('f \<times> 'id) list" where
  "unhandled adm fail_fast xs = drop (length (handled adm fail_fast xs)) xs"

lemma handled_unhandled: "handled adm fail_fast xs @ unhandled adm fail_fast xs = xs"
  by (induction xs) (auto simp: unhandled_def)

lemma unhandled_fail_fast: "unhandled adm fail_fast xs \<noteq> [] \<Longrightarrow> fail_fast"
  by (induction xs) (auto simp: unhandled_def split: if_splits)

lemma filter_loop_spec:
  assumes adm: "adm = admission E V L settings date (mp_logs mp)" and hs: "hs = handled adm fail_fast frs"
  shows "\<exists>plog. filter_loop E V L settings date fail_fast clk mp frs =
       (mp\<lparr>mp_persistent_log := plog\<rparr>, filter (\<lambda>x. adm x = None) hs, reject_with adm hs, unhandled adm fail_fast frs)
     \<and> map_option (map snd) plog =
         map_option (\<lambda>l. map snd l @ map fst (filter (\<lambda>x. adm x = None) hs)) (mp_persistent_log mp)"
  using adm unfolding hs
proof (induction frs arbitrary: clk mp)
  case Nil
  then show ?case
    by (intro exI [of _ "mp_persistent_log mp"]) (simp add: reject_with_def unhandled_def)
next
  case (Cons x frs)
  obtain f fid where x: "x = (f, fid)" by (rule prod.exhaust)
  show ?case
  proof (cases "adm x")
    case (Some reason)
    obtain plog where "filter_loop E V L settings date fail_fast (\<lambda>i. clk (Suc i)) mp frs =
        (mp\<lparr>mp_persistent_log := plog\<rparr>, filter (\<lambda>x. adm x = None) (handled adm fail_fast frs),
         reject_with adm (handled adm fail_fast frs), unhandled adm fail_fast frs)"
      "map_option (map snd) plog = map_option (\<lambda>l. map snd l @
         map fst (filter (\<lambda>x. adm x = None) (handled adm fail_fast frs))) (mp_persistent_log mp)"
      using Cons.IH [OF Cons.prems] by blast
    moreover have "filter_fragment E V L settings date (clk 0) mp f fid = (Inl reason, mp)"
      using Some unfolding Cons.prems x filter_fragment_admission by simp
    ultimately show ?thesis using Some x
      by (intro exI [of _ "if fail_fast \<and> reason = FragmentInvalid then mp_persistent_log mp else plog"])
        (simp add: reject_with_def unhandled_def option.map_comp comp_def)
  next
    case None
    let ?mp = "mp\<lparr>mp_persistent_log := map_option (\<lambda>l. l @ [(clk 0, f)]) (mp_persistent_log mp)\<rparr>"
    have "adm = admission E V L settings date (mp_logs ?mp)" using Cons.prems by simp
    then obtain plog where "filter_loop E V L settings date fail_fast (\<lambda>i. clk (Suc i)) ?mp frs =
        (?mp\<lparr>mp_persistent_log := plog\<rparr>, filter (\<lambda>x. adm x = None) (handled adm fail_fast frs),
         reject_with adm (handled adm fail_fast frs), unhandled adm fail_fast frs)"
      "map_option (map snd) plog = map_option (\<lambda>l. map snd l @
         map fst (filter (\<lambda>x. adm x = None) (handled adm fail_fast frs))) (mp_persistent_log ?mp)"
      using Cons.IH by blast
    moreover have "filter_fragment E V L settings date (clk 0) mp f fid = (Inr (), ?mp)"
      using None unfolding Cons.prems x filter_fragment_admission by simp
    ultimately show ?thesis using None x
      by (intro exI [of _ plog]) (simp add: reject_with_def unhandled_def option.map_comp comp_def)
  qed
qed

section \<open>Propagation\<close>

lemma propagate_loop_all:
  "(\<And>i. send_ok i) \<Longrightarrow> propagate_loop send_ok frs = (map fst frs, Inr (map snd frs))"
  by (induction send_ok frs rule: propagate_loop.induct) auto

lemma propagate_loop_prefix: "\<exists>n. fst (propagate_loop send_ok frs) = take n (map fst frs)"
proof (induction send_ok frs rule: propagate_loop.induct)
  case (2 send_ok f fid frs)
  show ?case
  proof (cases "send_ok 0")
    case True
    then obtain n where "fst (propagate_loop (\<lambda>i. send_ok (Suc i)) frs) = take n (map fst frs)"
      using "2.IH" by blast
    with True show ?thesis by (intro exI [of _ "Suc n"]) (simp add: case_prod_beta)
  qed (auto intro: exI [of _ 0])
qed simp

lemma new_logs_pending: "list_all (\<lambda>log. is_pending (fl_status log)) (new_logs clk origin frs)"
  by (induction clk origin frs rule: new_logs.induct) (auto simp: fragment_log_new_def)

lemma new_logs_ids: "map fl_fragment_id (new_logs clk origin frs) = map snd frs"
  by (induction clk origin frs rule: new_logs.induct) (auto simp: fragment_log_new_def)

section \<open>Metrics\<close>

lemma update_metrics_simps [simp]:
  "mp_logs (update_metrics mp) = mp_logs mp" "mp_pool (update_metrics mp) = mp_pool mp"
  "mp_propagated (update_metrics mp) = mp_propagated mp"
  "mp_persistent_log (update_metrics mp) = mp_persistent_log mp"
  by (simp_all add: update_metrics_def Let_def)

lemma mempool_inv_update [simp]: "mempool_inv E L (update_metrics mp) = mempool_inv E L mp"
  by (simp add: mempool_inv_def)

lemma metrics_current_iff:
  "metrics_current mp \<longleftrightarrow>
     mx_total_size (mp_metrics mp) = p_total_size_bytes (mp_pool mp) \<and>
     mx_usage_ratio (mp_metrics mp) =
       (case p_max_entries (mp_pool mp) of 0 \<Rightarrow> 1 | n \<Rightarrow> of_nat (pool_len (mp_pool mp)) / of_nat n)"
  by (cases "mp_metrics mp") (auto simp: metrics_current_def update_metrics_def Let_def)

lemma metrics_current_cong:
  assumes "mp_pool mp' = mp_pool mp" "mx_usage_ratio (mp_metrics mp') = mx_usage_ratio (mp_metrics mp)"
    "mx_total_size (mp_metrics mp') = mx_total_size (mp_metrics mp)"
  shows "metrics_current mp' = metrics_current mp"
  by (simp only: metrics_current_iff assms)

lemma metrics_current_update: "metrics_current (update_metrics mp)"
  by (simp add: metrics_current_iff update_metrics_def Let_def split: nat.split)

text \<open>Nothing is lost between the parts into which a batch is divided.\<close>

lemma summary_ids_batch:
  assumes split: "frs = hs @ rest" and flt: "filter (\<lambda>x. adm x = None) hs = used @ overflow"
    and ff: "rest \<noteq> [] \<Longrightarrow> fail_fast"
    and ids: "map snd frs = ids"
  shows "mset (summary_fragment_ids \<lparr>sm_accepted = map snd used, sm_rejected = reject_with adm hs @
     (if fail_fast then map (\<lambda>(_, fid). \<lparr>rj_id = fid, rj_reason = PreviousFragmentInvalid\<rparr>) rest else []) @
     map (\<lambda>(_, fid). \<lparr>rj_id = fid, rj_reason = PoolOverflow\<rparr>) overflow\<rparr>) = mset ids"
proof -
  have rj: "map (\<lambda>x. rj_id (case x of (_, fid) \<Rightarrow> \<lparr>rj_id = fid, rj_reason = r\<rparr>)) xs = map snd xs"
    for r and xs :: "('a \<times> 'b) list"
    by (simp add: case_prod_beta)
  have "mset (map snd hs) = mset (map snd (filter (\<lambda>x. adm x \<noteq> None) hs)) + mset (map snd (filter (\<lambda>x. adm x = None) hs))"
    by (induction hs) auto
  with flt ff show ?thesis
    unfolding ids [symmetric] split
    by (cases fail_fast) (auto simp: summary_fragment_ids_def reject_with_def comp_def rj)
qed

section \<open>The messages preserve the invariant\<close>

locale mempool_cache = log_cache L
  for L :: "('c, 'id :: linorder, ('id, 'h) log_entry) lru_ops"
begin

lemma init_inv:
  "0 < max logs_max pool_max \<Longrightarrow> mempool_inv E L (fragment_task_init L pool_max logs_max plog metrics)"
  using pool_rep_inv [OF pool_new_rep, of pool_max E]
  by (simp add: mempool_inv_def fragment_task_init_def mempool_new_def logs_inv_def logs_new_def cap_new iter_new
      pool_new_def)

lemma insert_total:
  assumes inv: "mempool_inv E L mp" and date: "get_current_block_date tip time = Some d"
    and adm: "adm = admission E V L (tip_settings tip) d (mp_logs mp)"
    and frs: "frs = map (\<lambda>f. (f, fragment_hash E f)) fragments" and hs: "hs = handled adm fail_fast frs"
  obtains mp' used overflow new n where
    "insert_and_propagate_all E V L tip time log_clk clk send_ok mp origin fragments fail_fast =
       Some (rbind (snd (propagate_loop send_ok new))
               (\<lambda>accepted. Inr \<lparr>sm_accepted = accepted,
                  sm_rejected = reject_with adm hs @
                    (if fail_fast then map (\<lambda>(_, fid). \<lparr>rj_id = fid, rj_reason = PreviousFragmentInvalid\<rparr>)
                       (unhandled adm fail_fast frs) else []) @
                    map (\<lambda>(_, fid). \<lparr>rj_id = fid, rj_reason = PoolOverflow\<rparr>) overflow\<rparr>), mp')"
    "filter (\<lambda>x. adm x = None) hs = used @ overflow"
    "new = first_new (set (keys_of (pool_entries (mp_pool mp)))) used"
    "overflow \<noteq> [] \<longrightarrow> pool_len (mp_pool mp') = p_max_entries (mp_pool mp')"
    "pool_entries (mp_pool mp') = rev (map entry_of new) @ pool_entries (mp_pool mp)"
    "p_max_entries (mp_pool mp') = p_max_entries (mp_pool mp)"
    "mp_propagated mp' = mp_propagated mp @ fst (propagate_loop send_ok new)"
    "logs_insert_all_pending L (mp_logs mp) (new_logs clk origin new) = Some (n, mp_logs mp')"
    "mempool_inv E L mp'" "metrics_current mp'"
proof -
  have pool: "pool_inv E (mp_pool mp)" and logs: "logs_inv L (mp_logs mp)"
    using inv by (auto simp: mempool_inv_def)
  obtain plog where fl: "filter_loop E V L (tip_settings tip) d fail_fast log_clk mp frs =
       (mp\<lparr>mp_persistent_log := plog\<rparr>, filter (\<lambda>x. adm x = None) hs, reject_with adm hs, unhandled adm fail_fast frs)"
    using filter_loop_spec [OF adm hs] by blast
  define fs where "fs = filter (\<lambda>x. adm x = None) hs"
  obtain p' used rest where pi: "pool_insert_all E (mp_pool mp) fs =
        Some (p', first_new (set (keys_of (pool_entries (mp_pool mp)))) used, rest)"
      "fs = used @ rest" "rest \<noteq> [] \<longrightarrow> pool_len p' = p_max_entries (mp_pool mp)"
      "p_max_entries p' = p_max_entries (mp_pool mp)"
      "pool_rep E p' (rev (map entry_of (first_new (set (keys_of (pool_entries (mp_pool mp)))) used)) @ pool_entries (mp_pool mp))"
      "pool_inv E p'"
    using pool_insert_all_inv [OF pool] by blast
  define new where "new = first_new (set (keys_of (pool_entries (mp_pool mp)))) used"
  note p' = pi [folded new_def] and fl = fl [folded fs_def]
  obtain n c' where c': "logs_insert_all_pending L (mp_logs mp) (new_logs clk origin new) = Some (n, c')" "logs_inv L c'"
    using insert_all_pending_inv [OF logs new_logs_pending [of clk origin new]] by auto
  define mp2 where "mp2 = update_metrics (mp\<lparr>mp_persistent_log := plog, mp_pool := p', mp_logs := c'\<rparr>)"
  define mp' where "mp' = mp2\<lparr>mp_propagated := mp_propagated mp2 @ fst (propagate_loop send_ok new)\<rparr>"
  have "metrics_current mp2" unfolding mp2_def by (rule metrics_current_update)
  then have "metrics_current mp'" using metrics_current_cong [of mp' mp2] by (simp add: mp'_def)
  moreover have "mempool_inv E L mp'" using p'(6) c'(2) by (simp add: mempool_inv_def mp'_def mp2_def)
  moreover have "insert_and_propagate_all E V L tip time log_clk clk send_ok mp origin fragments fail_fast =
       Some (rbind (snd (propagate_loop send_ok new))
               (\<lambda>accepted. Inr \<lparr>sm_accepted = accepted,
                  sm_rejected = reject_with adm hs @
                    (if fail_fast then map (\<lambda>(_, fid). \<lparr>rj_id = fid, rj_reason = PreviousFragmentInvalid\<rparr>)
                       (unhandled adm fail_fast frs) else []) @
                    map (\<lambda>(_, fid). \<lparr>rj_id = fid, rj_reason = PoolOverflow\<rparr>) rest\<rparr>), mp')"
    using fl p'(1) c'(1) by (cases fail_fast)
      (simp_all add: insert_and_propagate_all_def date frs [symmetric] case_prod_beta mp'_def mp2_def)
  ultimately show ?thesis
    using p' c'(1) pool_repD(3) [OF p'(5)]
    by (intro that [of new rest mp' used n]) (simp_all add: mp'_def mp2_def new_def fs_def)
qed

lemma remove_added_total:
  assumes inv: "mempool_inv E L mp"
  shows "\<exists>mp'. remove_added_to_block E L clk mp fids (InABlock d b) = Some mp' \<and> mempool_inv E L mp' \<and>
     metrics_current mp' \<and>
     pool_entries (mp_pool mp') = filter (\<lambda>x. fst x \<notin> set fids) (pool_entries (mp_pool mp)) \<and>
     mp_logs mp' = logs_modify_all L clk (mp_logs mp) fids (InABlock d b) d"
proof -
  obtain p' where p': "pool_remove_all E (mp_pool mp) fids = Some p'" "p_max_entries p' = p_max_entries (mp_pool mp)"
      "pool_rep E p' (filter (\<lambda>x. fst x \<notin> set fids) (pool_entries (mp_pool mp)))"
    using pool_remove_all_rep [of E "mp_pool mp"] inv by (auto simp: mempool_inv_def pool_inv_def)
  have "pool_inv E p'"
    using p'(2,3) inv by (intro pool_rep_inv [OF p'(3)]) (auto simp: mempool_inv_def pool_inv_def intro: order_trans [OF length_filter_le])
  with p' inv pool_repD(3) [OF p'(3)] show ?thesis
    by (simp add: remove_added_to_block_def metrics_current_update) (simp add: mempool_inv_def modify_all_inv)
qed

lemma remove_expired_total:
  assumes inv: "mempool_inv E L mp" and date: "get_current_block_date tip time = Some d"
  shows "\<exists>mp' fids. mempool_remove_expired_txs E L tip time clk mp = Some mp' \<and> mempool_inv E L mp' \<and>
     metrics_current mp' \<and>
     pool_entries (mp_pool mp') = filter (\<lambda>x. \<not> expired E d (snd x)) (pool_entries (mp_pool mp)) \<and>
     set fids = {fid. \<exists>f. (fid, f) \<in> set (pool_entries (mp_pool mp)) \<and> expired E d f} \<and> distinct fids \<and>
     mp_logs mp' = logs_modify_all L clk (mp_logs mp) fids (Rejected ''fragment expired'') d \<and>
     mx_rejected_cnt (mp_metrics mp') = mx_rejected_cnt (mp_metrics mp) + length fids"
proof -
  obtain fids p' where p': "pool_remove_expired_txs E (mp_pool mp) d = Some (fids, p')"
      "p_max_entries p' = p_max_entries (mp_pool mp)"
      "pool_rep E p' (filter (\<lambda>x. \<not> expired E d (snd x)) (pool_entries (mp_pool mp)))"
      "distinct fids" "set fids = {fid. \<exists>f. (fid, f) \<in> set (pool_entries (mp_pool mp)) \<and> expired E d f}"
    using pool_remove_expired_rep [of E "mp_pool mp" "pool_entries (mp_pool mp)" d] inv
    by (auto simp: mempool_inv_def pool_inv_def)
  have "pool_inv E p'"
    using p'(2,3) inv by (intro pool_rep_inv [OF p'(3)]) (auto simp: mempool_inv_def pool_inv_def intro: order_trans [OF length_filter_le])
  with p' inv pool_repD(3) [OF p'(3)] show ?thesis
    by (intro exI [of _ "update_metrics (mp\<lparr>mp_pool := p',
          mp_metrics := (mp_metrics mp)\<lparr>mx_rejected_cnt := mx_rejected_cnt (mp_metrics mp) + length fids\<rparr>,
          mp_logs := logs_modify_all L clk (mp_logs mp) fids (Rejected ''fragment expired'') d\<rparr>)"] exI [of _ fids])
      (simp add: mempool_remove_expired_txs_def date metrics_current_update Let_def,
       simp add: mempool_inv_def modify_all_inv update_metrics_def Let_def)
qed

lemma log_refusals_inv:
  "logs_inv L c \<Longrightarrow> logs_inv L (log_refusals L clk d c vs)"
proof (induction vs arbitrary: clk c)
  case (Cons v vs)
  obtain w f fid where "v = (w, f, fid)" by (rule prod_cases3)
  with Cons show ?case by (cases w) (simp_all add: modify_inv)
qed simp

lemma select_total:
  assumes inv: "mempool_inv E L mp"
  shows "\<exists>r mp'. mempool_select E G L clk sched mp ledger = Some (r, mp') \<and> mempool_inv E L mp' \<and> metrics_current mp'"
proof -
  have rep: "pool_rep E (mp_pool mp) (pool_entries (mp_pool mp))" using inv by (simp add: mempool_inv_def pool_inv_def)
  obtain r vs un pool' where sel: "oldest_first_select E G L clk sched ledger (mp_logs mp) (mp_pool mp) =
       Some (r, log_refusals L clk (ledger_block_date G ledger) (mp_logs mp) vs, pool')"
     "pool_entries (mp_pool mp) = un @ rev (map (\<lambda>v. entry_of (snd v)) vs)"
     "pool_rep E pool' (un @ map entry_of (rev (put_backs vs)))" "p_max_entries pool' = p_max_entries (mp_pool mp)"
    using oldest_first_selects [OF rep, of False sched G L clk ledger "mp_logs mp"] by auto
  have "length (put_backs vs) \<le> length vs" by (simp add: with_verdict_def)
  then have "length (un @ map entry_of (rev (put_backs vs))) \<le> p_max_entries pool'"
    using sel(2,4) inv by (simp add: mempool_inv_def pool_inv_def)
  from pool_rep_inv [OF sel(3) this] have "pool_inv E pool'" .
  with sel(1) inv show ?thesis
    by (simp add: mempool_select_def Let_def metrics_current_update) (simp add: mempool_inv_def log_refusals_inv)
qed

lemma prune_total:
  assumes inv: "mempool_inv E L mp"
  shows "\<exists>mp'. prune_after_ledger_branch L mp d = Some mp' \<and> mempool_inv E L mp' \<and> metrics_current mp'"
  using remove_after_date_total [of "mp_logs mp" d] inv
  by (auto simp: prune_after_ledger_branch_def mempool_inv_def metrics_current_update)

lemma handle_send_total:
  assumes inv: "mempool_inv E L mp" and ok: "get_current_block_date (in_tip I) (in_time I) = Some d"
  shows "\<exists>r mp'. handle_transaction_msg E V G L I mp (SendTransactions origin fragments fail_fast) = Some (r, mp') \<and>
     mempool_inv E L mp' \<and> metrics_current mp'"
proof -
  obtain res mp1 where ins: "insert_and_propagate_all E V L (in_tip I) (in_time I) (in_log_clock I) (in_clock I)
       (in_send_ok I) mp origin fragments fail_fast = Some (res, mp1)" "mempool_inv E L mp1" "metrics_current mp1"
    by (rule insert_total [OF inv ok refl refl refl, where send_ok = "in_send_ok I" and clk = "in_clock I"
          and log_clk = "in_log_clock I" and fail_fast = fail_fast and origin = origin and fragments = fragments and V = V])
  show ?thesis
  proof (cases res)
    case (Inl e)
    with ins show ?thesis by simp
  next
    case (Inr summary)
    let ?mp = "mp1\<lparr>mp_metrics := (mp_metrics mp1)\<lparr>mx_recv_cnt := mx_recv_cnt (mp_metrics mp1) + length (sm_accepted summary)\<rparr>\<rparr>"
    have "metrics_current ?mp" using ins(3) metrics_current_cong [of ?mp mp1] by simp
    moreover have "mempool_inv E L ?mp" using ins(2) by (simp add: mempool_inv_def)
    ultimately show ?thesis using ins(1) Inr by simp
  qed
qed

lemma handle_total:
  assumes inv: "mempool_inv E L mp" and ok: "acceptable_msg I msg"
  shows "\<exists>r mp'. handle_transaction_msg E V G L I mp msg = Some (r, mp') \<and> mempool_inv E L mp' \<and>
     (metrics_current mp \<longrightarrow> metrics_current mp')"
proof (cases msg)
  case (SendTransactions origin fragments fail_fast)
  with ok obtain d where "get_current_block_date (in_tip I) (in_time I) = Some d" by (auto simp: acceptable_msg_def)
  from handle_send_total [OF inv this, of V G origin fragments fail_fast] SendTransactions show ?thesis by auto
next
  case (RemoveTransactions fids st)
  with ok obtain d b d' where st: "st = InABlock d b" and d': "get_current_block_date (in_tip I) (in_time I) = Some d'"
    by (cases st) (auto simp: acceptable_msg_def)
  obtain mp1 where mp1: "remove_added_to_block E L (in_clock I) mp fids st = Some mp1" "mempool_inv E L mp1"
    using remove_added_total [OF inv, of "in_clock I" fids d b] st by auto
  obtain mp2 where "mempool_remove_expired_txs E L (in_tip I) (in_time I) (\<lambda>i. in_clock I (i + 3 * length fids)) mp1 = Some mp2"
      "mempool_inv E L mp2" "metrics_current mp2"
    using remove_expired_total [OF mp1(2) d'] by blast
  with mp1(1) RemoveTransactions show ?thesis by simp
next
  case (BranchSwitch d)
  with prune_total [OF inv, of d] show ?thesis by auto
next
  case (SelectTransactions ledger)
  obtain r mp' where "mempool_select E G L (in_clock I) (in_schedule I) mp ledger = Some (r, mp')"
      "mempool_inv E L mp'" "metrics_current mp'"
    using select_total [OF inv, of G "in_clock I" "in_schedule I" ledger] by auto
  with SelectTransactions show ?thesis by simp
qed (use inv in auto)

lemma handle_acceptable:
  assumes "handle_transaction_msg E V G L I mp msg = Some (r, mp')"
  shows "acceptable_msg I msg"
  using assms
  by (cases msg)
    (auto simp: acceptable_msg_def bind_eq_Some_conv insert_and_propagate_all_def remove_added_to_block_def
       mempool_remove_expired_txs_def split: fragment_status.splits)

lemma rotate_inv:
  assumes "rotate_persistent_log mp opened = (r, mp')"
  shows "mempool_inv E L mp' = mempool_inv E L mp" "metrics_current mp' = metrics_current mp"
  using assms metrics_current_cong [of mp' mp]
  by (auto simp: rotate_persistent_log_def close_persistent_log_def set_persistent_log_def mempool_inv_def
      Let_def split: option.splits)

lemma reachable_inv:
  assumes "task_reachable E V G L mp0 mp" and "mempool_inv E L mp0"
  shows "mempool_inv E L mp \<and> (metrics_current mp0 \<longrightarrow> metrics_current mp)"
  using assms
proof (induction rule: task_reachable.induct)
  case (message mp0 mp I msg reply mp')
  then show ?case
    using handle_total [of E mp I msg V G] handle_acceptable [OF message(2)] by fastforce
next
  case (wakeup mp0 mp opened mp')
  then show ?case using rotate_inv [OF wakeup(2)] by auto
qed simp

lemma insert_answers:
  assumes inv: "mempool_inv E L mp" and date: "get_current_block_date tip time = Some d"
    and send: "\<And>i. send_ok i" and dist: "distinct (map (fragment_hash E) fragments)"
    and logged: "\<forall>x\<in>set (pool_entries (mp_pool mp)). logs_exists L (mp_logs mp) (fst x)"
    and adm: "adm = admission E V L (tip_settings tip) d (mp_logs mp)"
  shows "\<exists>s mp' acc. insert_and_propagate_all E V L tip time log_clk clk send_ok mp origin fragments fail_fast = Some (Inr s, mp') \<and>
     mset (summary_fragment_ids s) = mset (map (fragment_hash E) fragments) \<and>
     sm_accepted s = map (fragment_hash E) acc \<and> set acc \<subseteq> set fragments \<and>
     (\<forall>f\<in>set acc. adm (f, fragment_hash E f) = None) \<and>
     pool_entries (mp_pool mp') = rev (map (\<lambda>f. (fragment_hash E f, f)) acc) @ pool_entries (mp_pool mp) \<and>
     mp_propagated mp' = mp_propagated mp @ acc \<and> mempool_inv E L mp'"
proof -
  define frs where "frs = map (\<lambda>f. (f, fragment_hash E f)) fragments"
  define hs where "hs = handled adm fail_fast frs"
  let ?K = "set (keys_of (pool_entries (mp_pool mp)))"
  obtain mp' used overflow new where run:
    "insert_and_propagate_all E V L tip time log_clk clk send_ok mp origin fragments fail_fast =
       Some (rbind (snd (propagate_loop send_ok new))
               (\<lambda>accepted. Inr \<lparr>sm_accepted = accepted,
                  sm_rejected = reject_with adm hs @
                    (if fail_fast then map (\<lambda>(_, fid). \<lparr>rj_id = fid, rj_reason = PreviousFragmentInvalid\<rparr>)
                       (unhandled adm fail_fast frs) else []) @
                    map (\<lambda>(_, fid). \<lparr>rj_id = fid, rj_reason = PoolOverflow\<rparr>) overflow\<rparr>), mp')"
    and flt: "filter (\<lambda>x. adm x = None) hs = used @ overflow" and new: "new = first_new ?K used"
    and es: "pool_entries (mp_pool mp') = rev (map entry_of new) @ pool_entries (mp_pool mp)"
    and sent: "mp_propagated mp' = mp_propagated mp @ fst (propagate_loop send_ok new)"
    and inv': "mempool_inv E L mp'"
    by (rule insert_total [OF inv date adm frs_def hs_def, where send_ok = send_ok and clk = clk and log_clk = log_clk
          and origin = origin])
  have split: "frs = hs @ unhandled adm fail_fast frs" unfolding hs_def by (rule handled_unhandled [symmetric])
  have "map snd frs = map (fragment_hash E) fragments" by (simp add: frs_def)
  with dist have "distinct (map snd (hs @ unhandled adm fail_fast frs))" by (metis split)
  then have "distinct (map snd (filter (\<lambda>x. adm x = None) hs))" by (simp add: distinct_map_filter)
  then have "distinct (map snd used)" unfolding flt by simp
  moreover have "snd ` set used \<inter> ?K = {}"
  proof -
    have "adm x = None" if "x \<in> set used" for x
    proof -
      from that have "x \<in> set (filter (\<lambda>x. adm x = None) hs)" unfolding flt by simp
      then show ?thesis by simp
    qed
    then show ?thesis using logged by (force simp: adm admission_def)
  qed
  ultimately have new_used: "new = used" unfolding new by (rule first_new_all)
  have used: "fst x \<in> set fragments \<and> snd x = fragment_hash E (fst x) \<and> adm x = None" if "x \<in> set used" for x
  proof -
    from that have "x \<in> set (filter (\<lambda>x. adm x = None) hs)" unfolding flt by simp
    moreover have "set hs \<subseteq> set frs" by (subst split) auto
    ultimately have "adm x = None" "x \<in> set frs" by auto
    then show ?thesis by (auto simp: frs_def)
  qed
  have ids: "map snd used = map (fragment_hash E) (map fst used)"
    and pairs: "map entry_of used = map (\<lambda>f. (fragment_hash E f, f)) (map fst used)"
    using used by (auto simp: prod_eq_iff)
  have adms: "\<forall>f\<in>set (map fst used). adm (f, fragment_hash E f) = None" "set (map fst used) \<subseteq> set fragments"
  proof -
    have "adm (fst x, fragment_hash E (fst x)) = None" if "x \<in> set used" for x
      using used [OF that] by (cases x) simp
    then show "\<forall>f\<in>set (map fst used). adm (f, fragment_hash E f) = None" by simp
    show "set (map fst used) \<subseteq> set fragments" using used by auto
  qed
  let ?s = "\<lparr>sm_accepted = map snd used, sm_rejected = reject_with adm hs @
     (if fail_fast then map (\<lambda>(_, fid). \<lparr>rj_id = fid, rj_reason = PreviousFragmentInvalid\<rparr>)
        (unhandled adm fail_fast frs) else []) @
     map (\<lambda>(_, fid). \<lparr>rj_id = fid, rj_reason = PoolOverflow\<rparr>) overflow\<rparr>"
  have "mset (summary_fragment_ids ?s) = mset (map (fragment_hash E) fragments)"
    by (rule summary_ids_batch [OF split flt unhandled_fail_fast]) (simp_all add: frs_def)
  moreover have "insert_and_propagate_all E V L tip time log_clk clk send_ok mp origin fragments fail_fast = Some (Inr ?s, mp')"
    using run propagate_loop_all [of send_ok used, OF send] by (simp add: new_used)
  moreover have "mp_propagated mp' = mp_propagated mp @ map fst used"
    using sent propagate_loop_all [of send_ok used, OF send] by (simp add: new_used)
  moreover have "pool_entries (mp_pool mp') = rev (map (\<lambda>f. (fragment_hash E f, f)) (map fst used)) @ pool_entries (mp_pool mp)"
    using es unfolding new_used pairs .
  ultimately show ?thesis using adms inv' ids
    by (intro exI [of _ ?s] exI [of _ mp'] exI [of _ "map fst used"] conjI) (simp_all only: fragments_processing_summary.simps)
qed

end

interpretation recency_pool: mempool_cache recency_ops
  by unfold_locales

section \<open>Correctness\<close>


definition example_tip :: "unit pool_tip" where
  "example_tip = \<lparr>tip_settings = (), tip_slot_at = (\<lambda>t. Some (of_nat t)), tip_slot_to_date = (\<lambda>s. Some (BlockDate 0 0))\<rparr>"


definition example_check :: "unit validity_check" where
  "example_check settings until now = (if until < now then Inl TransactionExpired else Inr ())"


definition example_mempool :: "((nat, (nat, nat) log_entry) recency_list, nat, unit, nat) mempool" where
  "example_mempool = update_metrics (fragment_task_init recency_ops 3 3 None
     \<lparr>mx_usage_ratio = 0, mx_total_size = 0, mx_rejected_cnt = 0, mx_recv_cnt = 0\<rparr>)"



lemma example_mempool_simps:
  "mempool_inv example_env recency_ops example_mempool" "pool_entries (mp_pool example_mempool) = []"
  "mp_logs example_mempool = logs_new recency_ops 3" "mp_propagated example_mempool = []"
  "p_max_entries (mp_pool example_mempool) = 3"
  using recency_pool.init_inv [of 3 3 example_env None]
  by (simp_all add: example_mempool_def fragment_task_init_def mempool_new_def)


text \<open>
  The hypothesis that the identifiers are distinct is needed. A fragment submitted twice in one batch is
  accepted once, and the second copy is neither accepted nor rejected.
\<close>

theorem duplicate_in_batch_unanswered:
  "\<exists>mp'. insert_and_propagate_all example_env example_check recency_ops example_tip 0 (\<lambda>_. 0) (\<lambda>_. 0) (\<lambda>_. True)
      example_mempool Rest [Transaction 5, Transaction 5] False
    = Some (Inr \<lparr>sm_accepted = [5], sm_rejected = []\<rparr>, mp')"
proof -
  let ?x = "(Transaction 5, 5) :: (nat, unit) fragment \<times> nat"
  let ?adm = "admission example_env example_check recency_ops (tip_settings example_tip) (BlockDate 0 1) (mp_logs example_mempool)"
  have date: "get_current_block_date example_tip 0 = Some (BlockDate 0 1)"
    by (simp add: example_tip_def get_current_block_date_def)
  have adm: "?adm ?x = None"
    by (simp add: admission_def example_mempool_simps logs_new_def logs_exists_def recency.contains_iff recency.iter_new
        check_expiry_def example_env_def example_check_def is_transaction_valid_def)
  have frs: "[?x, ?x] = map (\<lambda>f. (f, fragment_hash example_env f)) [Transaction 5, Transaction 5]"
    by (simp add: example_env_def)
  have hs: "[?x, ?x] = handled ?adm False [?x, ?x]" by simp
  obtain mp' used overflow new where run:
    "insert_and_propagate_all example_env example_check recency_ops example_tip 0 (\<lambda>_. 0) (\<lambda>_. 0) (\<lambda>_. True)
        example_mempool Rest [Transaction 5, Transaction 5] False =
       Some (rbind (snd (propagate_loop (\<lambda>_. True) new))
               (\<lambda>accepted. Inr \<lparr>sm_accepted = accepted, sm_rejected = reject_with ?adm [?x, ?x] @ [] @
                    map (\<lambda>(_, fid). \<lparr>rj_id = fid, rj_reason = PoolOverflow\<rparr>) overflow\<rparr>), mp')"
    "filter (\<lambda>x. ?adm x = None) [?x, ?x] = used @ overflow"
    "new = first_new (set (keys_of (pool_entries (mp_pool example_mempool)))) used"
    "overflow \<noteq> [] \<longrightarrow> pool_len (mp_pool mp') = p_max_entries (mp_pool mp')"
    "pool_entries (mp_pool mp') = rev (map entry_of new) @ pool_entries (mp_pool example_mempool)"
    "p_max_entries (mp_pool mp') = p_max_entries (mp_pool example_mempool)" "mempool_inv example_env recency_ops mp'"
    by (rule recency_pool.insert_total [OF example_mempool_simps(1) date refl frs hs, where log_clk = "\<lambda>_. 0"
          and clk = "\<lambda>_. 0" and send_ok = "\<lambda>_. True" and origin = Rest, unfolded if_False])
  have "pool_rep example_env (mp_pool mp') (pool_entries (mp_pool mp'))"
    using run(7) by (simp add: mempool_inv_def pool_inv_def)
  then have "overflow \<noteq> [] \<longrightarrow> length new = 3"
    using run(4-6) pool_len_entries by (fastforce simp: example_mempool_simps)
  moreover have "used @ overflow = [?x, ?x]" using run(2) adm by simp
  then have "used = [] \<and> overflow = [?x, ?x] \<or> used = [?x] \<and> overflow = [?x] \<or> used = [?x, ?x] \<and> overflow = []"
    by (auto simp: append_eq_Cons_conv)
  ultimately have "overflow = []" "new = [?x]" using run(3) by (auto simp: example_mempool_simps)
  then show ?thesis using run(1) adm by (simp add: reject_with_def)
qed

end
