(* ===== verification/Message_Box.thy ===== *)
theory Message_Box
  imports Actions
begin

text \<open>
  The sending end of the channels between the tasks, \<^verbatim>\<open>MessageBox\<close> of
  \<^verbatim>\<open>jormungandr/src/utils/async_msg.rs\<close>. A send fails when the queue is full or closed, which depends on the
  receiver: \<open>mb_accepts i\<close> says whether the \<open>i\<close>-th attempt is accepted. The messages that went through are kept
  in the order in which the receiver gets them.
\<close>

record 'm mailbox =
  mb_sent :: "'m list"
  mb_attempts :: nat
  mb_accepts :: "nat \<Rightarrow> bool"

definition mailbox_new :: "(nat \<Rightarrow> bool) \<Rightarrow> 'm mailbox" where
  "mailbox_new accepts = \<lparr>mb_sent = [], mb_attempts = 0, mb_accepts = accepts\<rparr>"

definition mb_try_send :: "'m \<Rightarrow> 'm mailbox \<Rightarrow> bool \<times> 'm mailbox" where
  "mb_try_send msg mb =
     (let ok = mb_accepts mb (mb_attempts mb);
          mb = mb\<lparr>mb_attempts := mb_attempts mb + 1\<rparr>
      in if ok then (True, mb\<lparr>mb_sent := mb_sent mb @ [msg]\<rparr>) else (False, mb))"

text \<open>As an operation of a task that owns the mailbox and turns a failure into an error.\<close>

definition act_send ::
  "('s \<Rightarrow> 'm mailbox) \<Rightarrow> (('m mailbox \<Rightarrow> 'm mailbox) \<Rightarrow> 's \<Rightarrow> 's) \<Rightarrow> 'e \<Rightarrow> 'm \<Rightarrow> ('s, 'e, unit) action" where
  "act_send box update error msg s =
     (let (ok, mb) = mb_try_send msg (box s)
      in Some (if ok then Inr () else Inl error, update (\<lambda>_. mb) s))"

text \<open>As an operation whose failure is only logged.\<close>

definition act_send_or_log ::
  "('s \<Rightarrow> 'm mailbox) \<Rightarrow> (('m mailbox \<Rightarrow> 'm mailbox) \<Rightarrow> 's \<Rightarrow> 's) \<Rightarrow> 'm \<Rightarrow> ('s, 'e, unit) action" where
  "act_send_or_log box update msg = act_modify (\<lambda>s. update (\<lambda>_. snd (mb_try_send msg (box s))) s)"

lemma mb_try_send_accepted:
  "mb_accepts mb (mb_attempts mb) \<Longrightarrow>
     mb_try_send msg mb = (True, mb\<lparr>mb_attempts := mb_attempts mb + 1, mb_sent := mb_sent mb @ [msg]\<rparr>)"
  by (simp add: mb_try_send_def)

lemma mb_try_send_sent: "mb_sent (snd (mb_try_send msg mb)) = mb_sent mb @ (if fst (mb_try_send msg mb) then [msg] else [])"
  by (simp add: mb_try_send_def Let_def)

lemma mb_try_send_accepts [simp]: "mb_accepts (snd (mb_try_send msg mb)) = mb_accepts mb"
  by (simp add: mb_try_send_def Let_def)

lemma mb_try_send_all: "mb_accepts mb = (\<lambda>_. True) \<Longrightarrow> fst (mb_try_send msg mb)"
  by (simp add: mb_try_send_def Let_def)

end
