(* ===== verification/Tip_Update.thy ===== *)
theory Tip_Update
  imports Mempool Node_Chain Message_Box
begin

text \<open>
  The tip of the chain and the task that moves it, \<^verbatim>\<open>jormungandr/src/blockchain/tip.rs\<close>. A candidate that
  chain selection prefers becomes the tip: the tag \<^verbatim>\<open>HEAD\<close> of the storage moves, the fragment task is told
  which fragments are now in a block, and the watchers get the new tip. A branch switch also tells the fragment
  task the date from which its log entries are void. Periodically the branches of the storage are compared again.

  The state \<open>tip_updater\<close> holds the shared blockchain, the tip, the mailboxes of the two receivers, which may be
  absent, and the last block reported to the metrics. \<^verbatim>\<open>Arc::ptr_eq\<close> and the identifier of a fragment (\<open>E\<close>) are
  parameters.
\<close>

datatype ('h, 'b) watch_msg = WatchNewBlock 'b | WatchNewTip 'h

record ('n, 'r, 'b, 'm, 'w) tip_updater =
  tu_tip :: 'r
  tu_blockchain :: 'n
  tu_watch_mbox :: "'w mailbox option"
  tu_fragment_mbox :: "'m mailbox option"
  tu_tip_block :: "('b \<times> 'r) option"

type_synonym ('c, 'mv, 's, 'hid, 'x, 'f, 'q, 'lg, 'ld, 'tf, 'rw, 'tx, 'p, 'id) tip_state =
  "(('c, 'mv, 's, 'hid) node_chain, ('hid, 'x, 'lg, 'ld, 'tf, 'rw) noderef, ('hid, 'x, 'f, 'q) block,
    ('lg, 'tx, 'p, 'id, 'hid) transaction_msg, (('hid, 'x) header, ('hid, 'x, 'f, 'q) block) watch_msg) tip_updater"

type_synonym ('c, 'mv, 's, 'hid, 'x, 'f, 'q, 'lg, 'ld, 'tf, 'rw, 'tx, 'p, 'id, 'e, 'io, 'a) tip_action =
  "(('c, 'mv, 's, 'hid, 'x, 'f, 'q, 'lg, 'ld, 'tf, 'rw, 'tx, 'p, 'id) tip_state, ('hid, 'e, 'io) chain_error, 'a) action"

definition tip_updater_new ::
  "'r \<Rightarrow> 'n \<Rightarrow> 'm mailbox option \<Rightarrow> 'w mailbox option \<Rightarrow> ('n, 'r, 'b, 'm, 'w) tip_updater" where
  "tip_updater_new tip blockchain fragment_mbox watch_mbox =
     \<lparr>tu_tip = tip, tu_blockchain = blockchain, tu_watch_mbox = watch_mbox, tu_fragment_mbox = fragment_mbox,
      tu_tip_block = None\<rparr>"

definition on_chain :: "('n, 'e, 'a) action \<Rightarrow> (('n, 'r, 'b, 'm, 'w) tip_updater, 'e, 'a) action" where
  "on_chain m = act_focus tu_blockchain (\<lambda>n. tu_blockchain_update (\<lambda>_. n)) m"

definition update_ref :: "'r \<Rightarrow> (('n, 'r, 'b, 'm, 'w) tip_updater, 'e, unit) action" where
  "update_ref new_ref = act_modify (tu_tip_update (\<lambda>_. new_ref))"

definition tell_fragment_task ::
  "'m \<Rightarrow> (('n, 'r, 'b, 'm, 'w) tip_updater, ('hid, 'e, 'io) chain_error, unit) action" where
  "tell_fragment_task msg s =
     (case tu_fragment_mbox s of
        None \<Rightarrow> Some (Inr (), s)
      | Some mbox \<Rightarrow>
          (let (ok, mbox) = mb_try_send msg mbox
           in Some (if ok then Inr () else Inl TransactionSendError, s\<lparr>tu_fragment_mbox := Some mbox\<rparr>)))"

definition fragment_ids :: "('f \<Rightarrow> 'id) \<Rightarrow> ('hid, 'x, 'f, 'q) block \<Rightarrow> 'id list" where
  "fragment_ids E block = map (\<lambda>(f, _). E f) (b_contents block)"

definition try_request_fragment_removal ::
  "'id list \<Rightarrow> ('hid, 'x) header
    \<Rightarrow> (('n, 'r, 'b, ('lg, 'tx, 'p, 'id, 'hid) transaction_msg, 'w) tip_updater, ('hid, 'e, 'io) chain_error, unit) action" where
  "try_request_fragment_removal ids header =
     tell_fragment_task (RemoveTransactions ids (InABlock (h_block_date header) (h_hash header)))"

text \<open>The loop over the rest of the stream in \<^verbatim>\<open>switch_tip_branch\<close>.\<close>

fun request_removals ::
  "('f \<Rightarrow> 'id) \<Rightarrow> ('io storage_error, ('hid, 'x, 'f, 'q) block) result list
    \<Rightarrow> (('n, 'r, 'b, ('lg, 'tx, 'p, 'id, 'hid) transaction_msg, 'w) tip_updater, ('hid, 'e, 'io) chain_error, unit) action" where
  "request_removals E [] = act_return ()"
| "request_removals E (Inl e # stream) = act_throw (Storage e)"
| "request_removals E (Inr block # stream) =
     act_bind (try_request_fragment_removal (fragment_ids E block) (b_header block)) (\<lambda>_.
     request_removals E stream)"

definition switch_tip_branch ::
  "('f \<Rightarrow> 'id) \<Rightarrow> ('s, 'hid, 'x, 'f, 'q, 'io) store_ops
    \<Rightarrow> ('hid, 'x, 'lg, 'ld, 'tf, 'rw) noderef \<Rightarrow> 'hid
    \<Rightarrow> ('c, 'mv, 's, 'hid, 'x, 'f, 'q, 'lg, 'ld, 'tf, 'rw, 'tx, 'p, 'id, 'e, 'io, unit) tip_action" where
  "switch_tip_branch E S candidate tip_hash =
     (let candidate_hash = ref_hash candidate in
      act_bind act_get (\<lambda>s.
      act_bind (act_unwrap (find_common_ancestor S (nc_storage (tu_blockchain s)) candidate_hash tip_hash)) (\<lambda>found.
      act_bind (act_result (map_err Storage found)) (\<lambda>common_ancestor.
      act_bind (act_result (map_err Storage (stream_from_to S (nc_storage (tu_blockchain s)) common_ancestor candidate_hash)))
      (\<lambda>stream.
      case stream of
        [] \<Rightarrow> act_panic
      | first # rest \<Rightarrow>
          act_bind (act_result (map_err Storage first)) (\<lambda>ancestor.
          act_bind (tell_fragment_task (BranchSwitch (h_block_date (b_header ancestor)))) (\<lambda>_.
          act_bind (request_removals E rest) (\<lambda>_.
          act_bind (on_chain (with_storage (storage_put_tag S main_branch_tag candidate_hash))) (\<lambda>_.
          update_ref candidate)))))))))"

definition update_current_branch_tip ::
  "('f \<Rightarrow> 'id) \<Rightarrow> ('s, 'hid, 'x, 'f, 'q, 'io) store_ops
    \<Rightarrow> ('hid, 'x, 'lg, 'ld, 'tf, 'rw) noderef \<Rightarrow> ('hid, 'x, 'f, 'q) block
    \<Rightarrow> ('c, 'mv, 's, 'hid, 'x, 'f, 'q, 'lg, 'ld, 'tf, 'rw, 'tx, 'p, 'id, 'e, 'io, unit) tip_action" where
  "update_current_branch_tip E S candidate block =
     act_bind (on_chain (with_storage (storage_put_tag S main_branch_tag (ref_hash candidate)))) (\<lambda>_.
     act_bind (try_request_fragment_removal (fragment_ids E block) (b_header block)) (\<lambda>_.
     update_ref candidate))"

text \<open>Metrics and watchers, which cannot fail: an error of the watch mailbox is logged.\<close>

definition announce_tip ::
  "'b \<Rightarrow> 'r \<Rightarrow> 'h \<Rightarrow> ('n, 'r, 'b, 'm, ('h, 'w) watch_msg) tip_updater \<Rightarrow> ('n, 'r, 'b, 'm, ('h, 'w) watch_msg) tip_updater" where
  "announce_tip block candidate header s =
     s\<lparr>tu_tip_block := Some (block, candidate),
       tu_watch_mbox := map_option (\<lambda>mbox. snd (mb_try_send (WatchNewTip header) mbox)) (tu_watch_mbox s)\<rparr>"

definition process_new_ref ::
  "('hid, 'x, 'f, 'q, 'lg, 'ld, 'e, 'tf, 'rw, 'mv) node_ops \<Rightarrow> ('f \<Rightarrow> 'id)
    \<Rightarrow> ('s, 'hid, 'x, 'f, 'q, 'io) store_ops \<Rightarrow> nat \<Rightarrow> ('hid, 'x, 'lg, 'ld, 'tf, 'rw) noderef
    \<Rightarrow> ('c, 'mv, 's, 'hid, 'x, 'f, 'q, 'lg, 'ld, 'tf, 'rw, 'tx, 'p, 'id, 'e, 'io, unit) tip_action" where
  "process_new_ref N E S now candidate =
     act_bind act_get (\<lambda>s.
     let tip_ref = tu_tip s in
     act_bind (act_unwrap (compare_against N now tip_ref candidate)) (\<lambda>comparison.
     case comparison of
       PreferCurrentRef \<Rightarrow> act_return ()
     | PreferCandidateRef \<Rightarrow>
         act_bind (act_result (map_err Storage (storage_get S (nc_storage (tu_blockchain s)) (ref_hash candidate)))) (\<lambda>maybe_block.
         case maybe_block of
           None \<Rightarrow> act_throw (Storage BlockNotFound)
         | Some block \<Rightarrow>
             act_bind (if ref_hash tip_ref = ref_block_parent_hash candidate
                       then update_current_branch_tip E S candidate block
                       else switch_tip_branch E S candidate (ref_hash tip_ref)) (\<lambda>_.
             act_modify (announce_tip block candidate (ref_header candidate))))))"

text \<open>
  \<^verbatim>\<open>Iterator::max_by\<close> of the standard library with the comparison of \<^verbatim>\<open>reprocess_tip\<close>: the current best stays unless the
  other one is preferred. Each comparison reads the clock.
\<close>

fun best_branch ::
  "('hid, 'x, 'f, 'q, 'lg, 'ld, 'e, 'tf, 'rw, 'mv) node_ops \<Rightarrow> (nat \<Rightarrow> nat) \<Rightarrow> ('hid, 'x, 'lg, 'ld, 'tf, 'rw) noderef
    \<Rightarrow> ('hid, 'x, 'lg, 'ld, 'tf, 'rw) noderef list \<Rightarrow> ('hid, 'x, 'lg, 'ld, 'tf, 'rw) noderef option" where
  "best_branch N clk best [] = Some best"
| "best_branch N clk best (r # rs) = do {
     comparison \<leftarrow> compare_against N (clk 0) best r;
     best_branch N (\<lambda>i. clk (Suc i)) (case comparison of PreferCurrentRef \<Rightarrow> best | PreferCandidateRef \<Rightarrow> r) rs
   }"

text \<open>The result is the reference to be sent to the tip updater, if any.\<close>

definition reprocess_tip ::
  "('hid, 'x, 'f, 'q, 'lg, 'ld, 'e, 'tf, 'rw, 'mv) node_ops \<Rightarrow> ('c, 'hid, 'x, 'lg, 'ld, 'tf, 'rw) ref_cache_ops
    \<Rightarrow> ('s, 'hid, 'x, 'f, 'q, 'io) store_ops
    \<Rightarrow> (('hid, 'x, 'lg, 'ld, 'tf, 'rw) noderef \<Rightarrow> ('hid, 'x, 'lg, 'ld, 'tf, 'rw) noderef \<Rightarrow> bool) \<Rightarrow> (nat \<Rightarrow> nat)
    \<Rightarrow> ('hid, 'x, 'lg, 'ld, 'tf, 'rw) noderef
    \<Rightarrow> (('c, 'mv, 's, 'hid) node_chain, ('hid, 'e, 'io) chain_error, ('hid, 'x, 'lg, 'ld, 'tf, 'rw) noderef option) action" where
  "reprocess_tip N L S ptr_eq clk tip =
     act_bind (node_branches L S) (\<lambda>branches.
     case branches of
       [] \<Rightarrow> act_return None
     | r # rs \<Rightarrow>
         act_bind (act_unwrap (best_branch N clk r rs)) (\<lambda>new_tip.
         act_return (if ptr_eq tip new_tip then None else Some new_tip)))"

text \<open>
  The loop of the tip updater: it takes a candidate from its input or from the queue of reprocessed tips, or it
  starts a reprocessing, whose result may be lost when that queue is full. Between two steps the other tasks may
  change the blockchain.
\<close>

inductive tip_step ::
  "('hid, 'x, 'f, 'q, 'lg, 'ld, 'e, 'tf, 'rw, 'mv) node_ops \<Rightarrow> ('f \<Rightarrow> 'id)
    \<Rightarrow> ('c, 'hid, 'x, 'lg, 'ld, 'tf, 'rw) ref_cache_ops \<Rightarrow> ('s, 'hid, 'x, 'f, 'q, 'io) store_ops
    \<Rightarrow> (('hid, 'x, 'lg, 'ld, 'tf, 'rw) noderef \<Rightarrow> ('hid, 'x, 'lg, 'ld, 'tf, 'rw) noderef \<Rightarrow> bool)
    \<Rightarrow> ('c, 'mv, 's, 'hid, 'x, 'f, 'q, 'lg, 'ld, 'tf, 'rw, 'tx, 'p, 'id) tip_state \<times> ('hid, 'x, 'lg, 'ld, 'tf, 'rw) noderef list
    \<Rightarrow> ('c, 'mv, 's, 'hid, 'x, 'f, 'q, 'lg, 'ld, 'tf, 'rw, 'tx, 'p, 'id) tip_state \<times> ('hid, 'x, 'lg, 'ld, 'tf, 'rw) noderef list
    \<Rightarrow> bool"
  for N E L S ptr_eq where
  tip_input: "process_new_ref N E S now candidate s = Some (res, s') \<Longrightarrow> tip_step N E L S ptr_eq (s, queue) (s', queue)"
| tip_internal: "process_new_ref N E S now candidate s = Some (res, s') \<Longrightarrow>
     tip_step N E L S ptr_eq (s, candidate # queue) (s', queue)"
| tip_reprocess: "reprocess_tip N L S ptr_eq clk (tu_tip s) (tu_blockchain s) = Some (res, n) \<Longrightarrow>
     queue' = queue \<or> (\<exists>r. res = Inr (Some r) \<and> queue' = queue @ [r]) \<Longrightarrow>
     tip_step N E L S ptr_eq (s, queue) (s\<lparr>tu_blockchain := n\<rparr>, queue')"
| tip_others: "tip_step N E L S ptr_eq (s, queue) (s\<lparr>tu_blockchain := n\<rparr>, queue)"

section \<open>Progress\<close>

definition sent :: "'m mailbox option \<Rightarrow> 'm list" where
  "sent mbox = (case mbox of None \<Rightarrow> [] | Some mb \<Rightarrow> mb_sent mb)"

text \<open>The messages for the fragment task that name a block.\<close>

fun block_msg :: "('lg, 'tx, 'p, 'id, 'h) transaction_msg \<Rightarrow> bool" where
  "block_msg (RemoveTransactions _ status) \<longleftrightarrow> is_in_a_block status"
| "block_msg (BranchSwitch _) \<longleftrightarrow> True"
| "block_msg _ \<longleftrightarrow> False"

text \<open>What the work on a candidate may change before the tip is announced.\<close>

definition quiet ::
  "'r \<Rightarrow> ('n, 'r, 'b, ('lg, 'tx, 'p, 'id, 'h) transaction_msg, 'w) tip_updater
    \<Rightarrow> ('n, 'r, 'b, ('lg, 'tx, 'p, 'id, 'h) transaction_msg, 'w) tip_updater \<Rightarrow> bool" where
  "quiet c s0 s \<longleftrightarrow> (tu_tip s = tu_tip s0 \<or> tu_tip s = c) \<and> tu_watch_mbox s = tu_watch_mbox s0 \<and>
     (\<exists>ms. sent (tu_fragment_mbox s) = sent (tu_fragment_mbox s0) @ ms \<and> (\<forall>m\<in>set ms. block_msg m))"

lemma quiet_refl [simp]: "quiet c s s"
  by (simp add: quiet_def)

lemma quiet_chain: "quiet c s0 s \<Longrightarrow> quiet c s0 (s\<lparr>tu_blockchain := n\<rparr>)"
  by (simp add: quiet_def)

lemma keeps_quiet_tell:
  assumes "block_msg m"
  shows "keeps (quiet c s0) (tell_fragment_task m)"
  unfolding keeps_def
proof (intro allI impI)
  fix s r s' assume q: "quiet c s0 s" and run: "tell_fragment_task m s = Some (r, s')"
  show "quiet c s0 s'"
  proof (cases "tu_fragment_mbox s")
    case None
    then show ?thesis using q run by (simp add: tell_fragment_task_def)
  next
    case (Some mb)
    then have s': "s' = s\<lparr>tu_fragment_mbox := Some (snd (mb_try_send m mb))\<rparr>"
      using run by (auto simp: tell_fragment_task_def case_prod_beta Let_def)
    obtain ms where "mb_sent mb = sent (tu_fragment_mbox s0) @ ms" "\<forall>m\<in>set ms. block_msg m"
      using q Some by (auto simp: quiet_def sent_def)
    then have "sent (tu_fragment_mbox s') = sent (tu_fragment_mbox s0) @ ms @ (if fst (mb_try_send m mb) then [m] else [])"
        "\<forall>m\<in>set (ms @ (if fst (mb_try_send m mb) then [m] else [])). block_msg m"
      using assms by (auto simp: s' sent_def mb_try_send_sent)
    then show ?thesis using q s' unfolding quiet_def by (intro conjI exI) auto
  qed
qed

lemma keeps_quiet_removal: "keeps (quiet c s0) (try_request_fragment_removal ids header)"
  unfolding try_request_fragment_removal_def by (rule keeps_quiet_tell) (simp add: is_in_a_block_def)

lemma keeps_quiet_removals: "keeps (quiet c s0) (request_removals E stream)"
proof (induction E stream rule: request_removals.induct)
  case (3 E block stream)
  then show ?case unfolding request_removals.simps by (intro keeps_rules keeps_quiet_removal)
qed (simp_all only: request_removals.simps keeps_basic)

lemma keeps_quiet_on_chain: "keeps (quiet c s0) (on_chain m)"
  by (auto simp: keeps_def on_chain_def act_focus_def quiet_chain)

lemma keeps_quiet_update: "keeps (quiet c s0) (update_ref c)"
  unfolding update_ref_def by (rule keeps_modify) (simp add: quiet_def)

lemmas quiet_rules = keeps_quiet_tell keeps_quiet_removal keeps_quiet_removals keeps_quiet_on_chain keeps_quiet_update

lemma keeps_list [keeps_rules]:
  "keeps I m \<Longrightarrow> (\<And>x xs. keeps I (f x xs)) \<Longrightarrow> keeps I (case v of [] \<Rightarrow> m | x # xs \<Rightarrow> f x xs)"
  by (cases v) auto

lemma keeps_quiet_update_tip: "keeps (quiet candidate s0) (update_current_branch_tip E S candidate block)"
  unfolding update_current_branch_tip_def by (intro keeps_rules quiet_rules)

lemma keeps_quiet_switch: "keeps (quiet candidate s0) (switch_tip_branch E S candidate tip_hash)"
  unfolding switch_tip_branch_def Let_def by (intro keeps_rules quiet_rules) simp_all

lemma update_current_sets_tip:
  "update_current_branch_tip E S candidate block s = Some (Inr (), s') \<Longrightarrow> tu_tip s' = candidate"
  by (auto simp: update_current_branch_tip_def act_bind_Inr update_ref_def)

lemma switch_Inr:
  assumes "(switch_tip_branch E S candidate tip_hash :: (_, ('hid, 'e, 'io) chain_error, unit) action) s = Some (Inr (), s')"
  obtains common first rest s1 s2 s3 where
    "find_common_ancestor S (nc_storage (tu_blockchain s)) (ref_hash candidate) tip_hash = Some (Inr common)"
    and "stream_from_to S (nc_storage (tu_blockchain s)) common (ref_hash candidate) = Inr (Inr first # rest)"
    and "(tell_fragment_task (BranchSwitch (h_block_date (b_header first))) :: (_, ('hid, 'e, 'io) chain_error, unit) action) s = Some (Inr (), s1)"
    and "(request_removals E rest :: (_, ('hid, 'e, 'io) chain_error, unit) action) s1 = Some (Inr (), s2)"
    and "(on_chain (with_storage (storage_put_tag S main_branch_tag (ref_hash candidate)))
      :: (_, ('hid, 'e, 'io) chain_error, unit) action) s2 = Some (Inr (), s3)"
    and "s' = s3\<lparr>tu_tip := candidate\<rparr>"
proof -
  let ?find = "find_common_ancestor S (nc_storage (tu_blockchain s)) (ref_hash candidate) tip_hash"
  obtain common where common: "?find = Some (Inr common)"
    using assms by (cases ?find; cases "the ?find") (simp_all add: switch_tip_branch_def Let_def)
  let ?stream = "stream_from_to S (nc_storage (tu_blockchain s)) common (ref_hash candidate)"
  obtain first rest where stream: "?stream = Inr (Inr first # rest)"
  proof (cases ?stream)
    case (Inr items)
    then show thesis
    proof (cases items)
      case (Cons item rest)
      then show thesis using assms common Inr that by (cases item) (simp_all add: switch_tip_branch_def Let_def)
    qed (use assms common in \<open>simp add: switch_tip_branch_def Let_def\<close>)
  qed (use assms common in \<open>simp add: switch_tip_branch_def Let_def\<close>)
  show thesis
    using assms common stream that by (auto simp: switch_tip_branch_def Let_def act_bind_Inr update_ref_def)
qed

lemma switch_sets_tip:
  assumes "switch_tip_branch E S candidate tip_hash s = Some (Inr (), s')"
  shows "tu_tip s' = candidate"
  by (rule switch_Inr [OF assms]) simp

definition tip_progress ::
  "('c, 'mv, 's, 'hid, 'x, 'f, 'q, 'lg, 'ld, 'tf, 'rw, 'tx, 'p, 'id) tip_state
    \<Rightarrow> ('c, 'mv, 's, 'hid, 'x, 'f, 'q, 'lg, 'ld, 'tf, 'rw, 'tx, 'p, 'id) tip_state \<Rightarrow> bool" where
  "tip_progress s s' \<longleftrightarrow>
     (tu_tip s' = tu_tip s \<or> ref_chain_length (tu_tip s) < ref_chain_length (tu_tip s')) \<and>
     (\<exists>ms. sent (tu_fragment_mbox s') = sent (tu_fragment_mbox s) @ ms \<and> (\<forall>m\<in>set ms. block_msg m)) \<and>
     (\<exists>hs. sent (tu_watch_mbox s') = sent (tu_watch_mbox s) @ map WatchNewTip hs \<and>
        sorted_wrt (<) (map h_chain_length hs) \<and>
        (\<forall>h\<in>set hs. ref_chain_length (tu_tip s) < h_chain_length h \<and> h_chain_length h \<le> ref_chain_length (tu_tip s')))"

lemma tip_progress_refl: "tip_progress s s"
  by (simp add: tip_progress_def)

lemma tip_progress_chain: "tip_progress s (s\<lparr>tu_blockchain := n\<rparr>)"
  by (simp add: tip_progress_def)

lemma tip_progress_trans:
  assumes "tip_progress a b" and "tip_progress b c"
  shows "tip_progress a c"
proof -
  obtain ms1 ms2 where ms: "sent (tu_fragment_mbox b) = sent (tu_fragment_mbox a) @ ms1" "\<forall>m\<in>set ms1. block_msg m"
      "sent (tu_fragment_mbox c) = sent (tu_fragment_mbox b) @ ms2" "\<forall>m\<in>set ms2. block_msg m"
    using assms unfolding tip_progress_def by blast
  obtain hs1 where hs1: "sent (tu_watch_mbox b) = sent (tu_watch_mbox a) @ map WatchNewTip hs1"
      "sorted_wrt (<) (map h_chain_length hs1)"
      "\<forall>h\<in>set hs1. ref_chain_length (tu_tip a) < h_chain_length h \<and> h_chain_length h \<le> ref_chain_length (tu_tip b)"
    using assms(1) unfolding tip_progress_def by blast
  obtain hs2 where hs2: "sent (tu_watch_mbox c) = sent (tu_watch_mbox b) @ map WatchNewTip hs2"
      "sorted_wrt (<) (map h_chain_length hs2)"
      "\<forall>h\<in>set hs2. ref_chain_length (tu_tip b) < h_chain_length h \<and> h_chain_length h \<le> ref_chain_length (tu_tip c)"
    using assms(2) unfolding tip_progress_def by blast
  have le: "ref_chain_length (tu_tip a) \<le> ref_chain_length (tu_tip b)" "ref_chain_length (tu_tip b) \<le> ref_chain_length (tu_tip c)"
    using assms by (auto simp: tip_progress_def)
  have "tu_tip c = tu_tip a \<or> ref_chain_length (tu_tip a) < ref_chain_length (tu_tip c)"
    using assms by (auto simp: tip_progress_def)
  moreover have "\<exists>ms. sent (tu_fragment_mbox c) = sent (tu_fragment_mbox a) @ ms \<and> (\<forall>m\<in>set ms. block_msg m)"
    using ms by (intro exI [of _ "ms1 @ ms2"]) auto
  moreover have "\<exists>hs. sent (tu_watch_mbox c) = sent (tu_watch_mbox a) @ map WatchNewTip hs \<and>
        sorted_wrt (<) (map h_chain_length hs) \<and>
        (\<forall>h\<in>set hs. ref_chain_length (tu_tip a) < h_chain_length h \<and> h_chain_length h \<le> ref_chain_length (tu_tip c))"
    using hs1 hs2 le by (intro exI [of _ "hs1 @ hs2"]) (force simp: sorted_wrt_append)
  ultimately show ?thesis unfolding tip_progress_def by blast
qed

lemma compare_candidate:
  "compare_against N now current candidate = Some PreferCandidateRef \<Longrightarrow> ref_chain_length current < ref_chain_length candidate"
  by (auto simp: compare_against_def Let_def bind_eq_Some_conv split: if_splits)

lemma quiet_progress:
  "quiet c s s' \<Longrightarrow> ref_chain_length (tu_tip s) < ref_chain_length c \<Longrightarrow> tip_progress s s'"
  by (auto simp: quiet_def tip_progress_def)

lemma announce_progress:
  assumes "quiet c s s1" and "tu_tip s1 = c" and "ref_chain_length (tu_tip s) < ref_chain_length c"
  shows "tip_progress s (announce_tip block c (ref_header c) s1)"
proof -
  have same: "tu_watch_mbox s1 = tu_watch_mbox s" using assms(1) by (simp add: quiet_def)
  have "\<exists>hs. sent (tu_watch_mbox (announce_tip block c (ref_header c) s1)) = sent (tu_watch_mbox s) @ map WatchNewTip hs \<and>
      sorted_wrt (<) (map h_chain_length hs) \<and> set hs \<subseteq> {ref_header c}"
  proof (cases "tu_watch_mbox s")
    case None
    then show ?thesis using same by (intro exI [of _ "[]"]) (simp add: announce_tip_def sent_def)
  next
    case (Some mb)
    then show ?thesis
      using same by (intro exI [of _ "if fst (mb_try_send (WatchNewTip (ref_header c)) mb) then [ref_header c] else []"])
        (auto simp: announce_tip_def sent_def mb_try_send_sent)
  qed
  then show ?thesis
    using assms unfolding tip_progress_def quiet_def by (auto simp: announce_tip_def ref_chain_length_def)
qed

lemma process_new_ref_progress:
  fixes N :: "('hid, 'x, 'f, 'q, 'lg, 'ld, 'e, 'tf, 'rw, 'mv) node_ops"
    and S :: "('s, 'hid, 'x, 'f, 'q, 'io) store_ops"
  assumes "process_new_ref N E S now candidate s = Some (res, s')"
  shows "tip_progress s s'"
proof -
  obtain comparison where cmp: "compare_against N now (tu_tip s) candidate = Some comparison"
    using assms by (cases "compare_against N now (tu_tip s) candidate") (simp_all add: process_new_ref_def Let_def)
  show ?thesis
  proof (cases comparison)
    case PreferCurrentRef
    then show ?thesis using assms cmp by (simp add: process_new_ref_def Let_def tip_progress_refl)
  next
    case PreferCandidateRef
    note longer = compare_candidate [OF cmp [unfolded PreferCandidateRef]]
    let ?move = "\<lambda>block. if ref_hash (tu_tip s) = ref_block_parent_hash candidate
        then update_current_branch_tip E S candidate block
        else (switch_tip_branch E S candidate (ref_hash (tu_tip s)) :: (_, ('hid, 'e, 'io) chain_error, unit) action)"
    consider "s' = s" | block s1 r1 where "?move block s = Some (r1, s1)"
        "s' = (case r1 of Inl _ \<Rightarrow> s1 | Inr _ \<Rightarrow> announce_tip block candidate (ref_header candidate) s1)"
      using assms cmp PreferCandidateRef
      by (auto simp: process_new_ref_def Let_def act_bind_def split: option.splits sum.splits)
    then show ?thesis
    proof cases
      case 1
      then show ?thesis by (simp add: tip_progress_refl)
    next
      case 2
      have "quiet candidate s s1"
        using 2(1) keepsD [OF keeps_quiet_update_tip quiet_refl] keepsD [OF keeps_quiet_switch quiet_refl]
        by (auto split: if_splits)
      moreover have "tu_tip s1 = candidate" if "r1 = Inr u" for u
        using 2(1) that by (auto simp: update_current_sets_tip switch_sets_tip split: if_splits)
      ultimately show ?thesis
        using 2(2) longer by (auto simp: quiet_progress announce_progress split: sum.splits)
    qed
  qed
qed

lemma tip_step_progress: "tip_step N E L S ptr_eq x y \<Longrightarrow> tip_progress (fst x) (fst y)"
  by (induction rule: tip_step.induct) (auto intro: process_new_ref_progress tip_progress_chain)

lemma tip_steps_progress: "(tip_step N E L S ptr_eq)\<^sup>*\<^sup>* x y \<Longrightarrow> tip_progress (fst x) (fst y)"
  by (induction rule: rtranclp_induct) (auto intro: tip_progress_refl tip_progress_trans tip_step_progress)

section \<open>The messages of a tip change\<close>

definition removal :: "('f \<Rightarrow> 'id) \<Rightarrow> ('hid, 'x, 'f, 'q) block
    \<Rightarrow> ('lg, 'tx, 'p, 'id, 'hid) transaction_msg" where
  "removal E block = RemoveTransactions (fragment_ids E block) (InABlock (h_block_date (b_header block)) (h_hash (b_header block)))"

text \<open>The fragment task, when there is one, was sent exactly the messages \<open>ms\<close>, and nothing else changed.\<close>

definition told ::
  "('n, 'r, 'b, 'm, 'w) tip_updater \<Rightarrow> 'm list \<Rightarrow> ('n, 'r, 'b, 'm, 'w) tip_updater \<Rightarrow> bool" where
  "told s ms s' \<longleftrightarrow>
     (case tu_fragment_mbox s of
        None \<Rightarrow> s' = s
      | Some mb \<Rightarrow> (\<exists>mb'. s' = s\<lparr>tu_fragment_mbox := Some mb'\<rparr> \<and> mb_sent mb' = mb_sent mb @ ms))"

lemma told_Nil: "told s [] s"
  by (cases "tu_fragment_mbox s") (auto simp: told_def intro: exI [of _ "the (tu_fragment_mbox s)"])

lemma told_append: "told s ms s1 \<Longrightarrow> told s1 ms' s2 \<Longrightarrow> told s (ms @ ms') s2"
  by (cases "tu_fragment_mbox s") (auto simp: told_def)

lemma tell_told:
  assumes "tell_fragment_task m s = Some (Inr (), s')"
  shows "told s [m] s'"
proof (cases "tu_fragment_mbox s")
  case None
  then show ?thesis using assms by (simp add: tell_fragment_task_def told_def)
next
  case (Some mb)
  then have "fst (mb_try_send m mb)" "s' = s\<lparr>tu_fragment_mbox := Some (snd (mb_try_send m mb))\<rparr>"
    using assms by (auto simp: tell_fragment_task_def case_prod_beta Let_def split: if_splits)
  then show ?thesis using Some by (auto simp: told_def mb_try_send_sent)
qed

lemma removal_told: "try_request_fragment_removal (fragment_ids E block) (b_header block) s = Some (Inr (), s') \<Longrightarrow>
    told s [removal E block] s'"
  unfolding try_request_fragment_removal_def removal_def by (rule tell_told)

lemma removals_told:
  "request_removals E stream s = Some (Inr (), s') \<Longrightarrow> \<exists>blocks. stream = map Inr blocks \<and> told s (map (removal E) blocks) s'"
proof (induction E stream arbitrary: s rule: request_removals.induct)
  case (1 E)
  then show ?case by (simp add: told_Nil)
next
  case (3 E block stream)
  obtain s1 blocks where "told s [removal E block] s1" "stream = map Inr blocks" "told s1 (map (removal E) blocks) s'"
    using 3(2) unfolding request_removals.simps act_bind_Inr by (auto dest!: removal_told 3(1))
  then show ?case using told_append by (intro exI [of _ "block # blocks"]) fastforce
qed simp

text \<open>The state after a move of the tip: new tag, new tip, messages sent, blocks untouched.\<close>

definition tip_moved ::
  "('s, 'hid, 'x, 'f, 'q, 'io) store_ops
    \<Rightarrow> ('c, 'mv, 's, 'hid, 'x, 'f, 'q, 'lg, 'ld, 'tf, 'rw, 'tx, 'p, 'id) tip_state
    \<Rightarrow> ('hid, 'x, 'lg, 'ld, 'tf, 'rw) noderef \<Rightarrow> ('lg, 'tx, 'p, 'id, 'hid) transaction_msg list
    \<Rightarrow> ('c, 'mv, 's, 'hid, 'x, 'f, 'q, 'lg, 'ld, 'tf, 'rw, 'tx, 'p, 'id) tip_state \<Rightarrow> bool" where
  "tip_moved S s candidate ms s' \<longleftrightarrow>
     (\<exists>s1 st. told s ms s1 \<and>
        s' = s1\<lparr>tu_blockchain := (tu_blockchain s)\<lparr>nc_storage := st\<rparr>, tu_tip := candidate\<rparr> \<and>
        storage_get_tag S st main_branch_tag = Inr (Some (ref_hash candidate)) \<and>
        storage_get S st = storage_get S (nc_storage (tu_blockchain s)))"

context block_store
begin

lemma put_tag_on_chain:
  assumes "on_chain (with_storage (storage_put_tag S tag h)) s = Some (Inr (), s')"
  shows "\<exists>st. s' = s\<lparr>tu_blockchain := (tu_blockchain s)\<lparr>nc_storage := st\<rparr>\<rparr> \<and>
    storage_get_tag S st tag = Inr (Some h) \<and> storage_get S st = storage_get S (nc_storage (tu_blockchain s))"
proof -
  obtain res st where put: "bs_put_tag S (nc_storage (tu_blockchain s)) tag (hash_bytes S h) = (res, st)" by (rule prod.exhaust)
  have "res = Inr ()" "s' = s\<lparr>tu_blockchain := (tu_blockchain s)\<lparr>nc_storage := st\<rparr>\<rparr>"
    using assms put
    by (auto simp: on_chain_def act_focus_def with_storage_def act_map_err_def storage_put_tag_def map_err_eq_Inr_conv)
  moreover have "storage_get_tag S st tag = Inr (Some h)"
    using put_tag put calculation(1) by (simp add: storage_get_tag_def de_hash)
  moreover have "storage_get S st = storage_get S (nc_storage (tu_blockchain s))"
    using put_tag_frame [OF put] by (auto simp: storage_get_def)
  ultimately show ?thesis by blast
qed

end

lemma tip_movedI:
  assumes "told s ms s1" and "storage_get_tag S st main_branch_tag = Inr (Some (ref_hash candidate))"
    and "storage_get S st = storage_get S (nc_storage (tu_blockchain s))"
  shows "tip_moved S s candidate ms (s1\<lparr>tu_blockchain := (tu_blockchain s)\<lparr>nc_storage := st\<rparr>, tu_tip := candidate\<rparr>)"
  using assms unfolding tip_moved_def by blast

lemma told_chain: "told s ms s1 \<Longrightarrow> tu_blockchain s1 = tu_blockchain s"
  by (auto simp: told_def split: option.splits)

lemma told_update_chain:
  assumes "told (s\<lparr>tu_blockchain := n\<rparr>) ms s2"
  shows "\<exists>s1. told s ms s1 \<and> s2 = s1\<lparr>tu_blockchain := n\<rparr>"
proof (cases "tu_fragment_mbox s")
  case None
  then show ?thesis using assms by (simp add: told_def)
next
  case (Some mb)
  then obtain mb' where "s2 = s\<lparr>tu_blockchain := n, tu_fragment_mbox := Some mb'\<rparr>" "mb_sent mb' = mb_sent mb @ ms"
    using assms by (auto simp: told_def)
  then show ?thesis using Some by (intro exI [of _ "s\<lparr>tu_fragment_mbox := Some mb'\<rparr>"]) (auto simp: told_def)
qed

lemma update_current_moved:
  assumes "block_store S" and "update_current_branch_tip E S candidate block s = Some (Inr (), s')"
  shows "tip_moved S s candidate [removal E block] s'"
proof -
  obtain s2 st where run: "told (s\<lparr>tu_blockchain := (tu_blockchain s)\<lparr>nc_storage := st\<rparr>\<rparr>) [removal E block] s2"
      "s' = s2\<lparr>tu_tip := candidate\<rparr>" "storage_get_tag S st main_branch_tag = Inr (Some (ref_hash candidate))"
      "storage_get S st = storage_get S (nc_storage (tu_blockchain s))"
    using assms(2) unfolding update_current_branch_tip_def act_bind_Inr update_ref_def
    by (auto dest!: removal_told block_store.put_tag_on_chain [OF assms(1)])
  from told_update_chain [OF run(1)] run(2) tip_movedI [OF _ run(3,4)] show ?thesis by auto
qed

lemma switch_moved:
  assumes "block_store S" and "switch_tip_branch E S candidate tip_hash s = Some (Inr (), s')"
  obtains common first rest where
    "find_common_ancestor S (nc_storage (tu_blockchain s)) (ref_hash candidate) tip_hash = Some (Inr common)"
    and "stream_from_to S (nc_storage (tu_blockchain s)) common (ref_hash candidate) = Inr (map Inr (first # rest))"
    and "tip_moved S s candidate (BranchSwitch (h_block_date (b_header first)) # map (removal E) rest) s'"
proof (rule switch_Inr [OF assms(2)])
  fix common first rest s1 s2 s3
  assume found: "find_common_ancestor S (nc_storage (tu_blockchain s)) (ref_hash candidate) tip_hash = Some (Inr common)"
      "stream_from_to S (nc_storage (tu_blockchain s)) common (ref_hash candidate) = Inr (Inr first # rest)"
    and tell: "tell_fragment_task (BranchSwitch (h_block_date (b_header first))) s = Some (Inr (), s1)"
    and remove: "request_removals E rest s1 = Some (Inr (), s2)"
    and put: "on_chain (with_storage (storage_put_tag S main_branch_tag (ref_hash candidate))) s2 = Some (Inr (), s3)"
    and s': "s' = s3\<lparr>tu_tip := candidate\<rparr>"
  obtain blocks where blocks: "rest = map Inr blocks" "told s1 (map (removal E) blocks) s2"
    using removals_told [OF remove] by blast
  have told: "told s (BranchSwitch (h_block_date (b_header first)) # map (removal E) blocks) s2"
    using told_append [OF tell_told [OF tell] blocks(2)] by simp
  obtain st where st: "s3 = s2\<lparr>tu_blockchain := (tu_blockchain s2)\<lparr>nc_storage := st\<rparr>\<rparr>"
      "storage_get_tag S st main_branch_tag = Inr (Some (ref_hash candidate))"
      "storage_get S st = storage_get S (nc_storage (tu_blockchain s2))"
    using block_store.put_tag_on_chain [OF assms(1) put] by blast
  have "tip_moved S s candidate (BranchSwitch (h_block_date (b_header first)) # map (removal E) blocks) s'"
    using tip_movedI [OF told st(2)] st(1,3) s' told_chain [OF told] by simp
  then show thesis using that found blocks(1) by simp
qed

lemma process_new_ref_Inr:
  fixes N :: "('hid, 'x, 'f, 'q, 'lg, 'ld, 'e, 'tf, 'rw, 'mv) node_ops" and S :: "('s, 'hid, 'x, 'f, 'q, 'io) store_ops"
  assumes "block_store S" and "process_new_ref N E S now candidate s = Some (Inr (), s')"
  shows "case compare_against N now (tu_tip s) candidate of
      None \<Rightarrow> False
    | Some PreferCurrentRef \<Rightarrow> s' = s
    | Some PreferCandidateRef \<Rightarrow>
        (\<exists>block s1 ms. storage_get S (nc_storage (tu_blockchain s)) (ref_hash candidate) = Inr (Some block) \<and>
           tip_moved S s candidate ms s1 \<and> s' = announce_tip block candidate (ref_header candidate) s1 \<and>
           (if ref_hash (tu_tip s) = ref_block_parent_hash candidate then ms = [removal E block]
            else \<exists>common first rest.
              find_common_ancestor S (nc_storage (tu_blockchain s)) (ref_hash candidate) (ref_hash (tu_tip s)) = Some (Inr common) \<and>
              stream_from_to S (nc_storage (tu_blockchain s)) common (ref_hash candidate) = Inr (map Inr (first # rest)) \<and>
              ms = BranchSwitch (h_block_date (b_header first)) # map (removal E) rest))"
proof -
  let ?tip = "tu_tip s" and ?st = "nc_storage (tu_blockchain s)"
  obtain comparison where cmp: "compare_against N now ?tip candidate = Some comparison"
    using assms(2) by (cases "compare_against N now ?tip candidate") (simp_all add: process_new_ref_def Let_def)
  show ?thesis
  proof (cases comparison)
    case PreferCurrentRef
    then show ?thesis using assms(2) cmp by (simp add: process_new_ref_def Let_def)
  next
    case PreferCandidateRef
    obtain found where get: "storage_get S ?st (ref_hash candidate) = Inr found"
      using assms(2) cmp PreferCandidateRef
      by (cases "storage_get S ?st (ref_hash candidate)") (simp_all add: process_new_ref_def Let_def)
    obtain block where block: "found = Some block"
      using assms(2) cmp PreferCandidateRef get by (cases found) (simp_all add: process_new_ref_def Let_def)
    show ?thesis
    proof (cases "ref_hash ?tip = ref_block_parent_hash candidate")
      case True
      obtain s1 where "tip_moved S s candidate [removal E block] s1" "s' = announce_tip block candidate (ref_header candidate) s1"
        using assms(2) cmp PreferCandidateRef get block True
        by (auto simp: process_new_ref_def Let_def act_bind_Inr dest: update_current_moved [OF assms(1)])
      then show ?thesis using cmp PreferCandidateRef get block True by auto
    next
      case False
      obtain s1 where run: "(switch_tip_branch E S candidate (ref_hash ?tip) :: (_, ('hid, 'e, 'io) chain_error, unit) action) s = Some (Inr (), s1)"
          "s' = announce_tip block candidate (ref_header candidate) s1"
        using assms(2) cmp PreferCandidateRef get block False by (auto simp: process_new_ref_def Let_def act_bind_Inr)
      show ?thesis
      proof (rule switch_moved [OF assms(1) run(1)])
        fix common first rest
        assume "find_common_ancestor S ?st (ref_hash candidate) (ref_hash ?tip) = Some (Inr common)"
          "stream_from_to S ?st common (ref_hash candidate) = Inr (map Inr (first # rest))"
          "tip_moved S s candidate (BranchSwitch (h_block_date (b_header first)) # map (removal E) rest) s1"
        then show ?thesis
          using cmp PreferCandidateRef get block False run(2)
          by (simp, intro exI [of _ s1] exI [of _ "BranchSwitch (h_block_date (b_header first)) # map (removal E) rest"]) auto
      qed
    qed
  qed
qed

text \<open>A block of the new branch whose fragments are reported to the fragment task.\<close>

definition reported :: "('lg, 'tx, 'p, 'id, 'hid) transaction_msg list \<Rightarrow> 'hid \<Rightarrow> bool" where
  "reported ms h \<longleftrightarrow> (\<exists>ids date. RemoveTransactions ids (InABlock date h) \<in> set ms)"

lemma reported_removals:
  "reported (BranchSwitch d # map (removal E) blocks) h \<longleftrightarrow> h \<in> (\<lambda>b. h_hash (b_header b)) ` set blocks"
  by (auto simp: reported_def removal_def)

lemma told_sent: "told s ms s1 \<Longrightarrow> tu_fragment_mbox s \<noteq> None \<Longrightarrow> sent (tu_fragment_mbox s1) = sent (tu_fragment_mbox s) @ ms"
  by (auto simp: told_def sent_def split: option.splits)

lemma moved_sent:
  "tip_moved S s c ms s1 \<Longrightarrow> tu_fragment_mbox s \<noteq> None \<Longrightarrow>
     sent (tu_fragment_mbox (announce_tip block c h s1)) = sent (tu_fragment_mbox s) @ ms"
  by (auto simp: tip_moved_def announce_tip_def dest: told_sent)

section \<open>Correctness\<close>

text \<open>
  (C13) Along every run of the tip updater, whatever the other tasks do to the blockchain and whichever sends
  fail: the tip only ever changes to a strictly longer chain; the fragment task receives only messages that it accepts
  (branch switches, and removals with the block that holds the fragments); and the tips sent to the
  watchers have strictly increasing lengths, above the length at the start and up to the length at the end.
\<close>

theorem tip_run_safe:
  assumes "(tip_step N E L S ptr_eq)\<^sup>*\<^sup>* (s, queue) (s', queue')"
  shows "tip_progress s s'"
  using tip_steps_progress [OF assms] by simp


text \<open>
  (C37) A branch switch misses a block. When the stream from the common ancestor starts with the first block after it,
  as the restart of the node from its storage relies on, then the switch reports the fragments of every
  block of the new branch but the first one: these stay in the pool although they are in a block.
\<close>

theorem branch_switch_misses_first_block:
  assumes "block_store S" and "process_new_ref N E S now candidate s = Some (Inr (), s')"
    and "compare_against N now (tu_tip s) candidate = Some PreferCandidateRef"
    and "ref_hash (tu_tip s) \<noteq> ref_block_parent_hash candidate" and "tu_fragment_mbox s \<noteq> None"
    and "find_common_ancestor S (nc_storage (tu_blockchain s)) (ref_hash candidate) (ref_hash (tu_tip s)) = Some (Inr common)"
    and "stream_from_to S (nc_storage (tu_blockchain s)) common (ref_hash candidate) = Inr (map Inr (first # rest))"
    and "h_block_parent_hash (b_header first) = common" and "distinct (map (h_hash \<circ> b_header) (first # rest))"
  shows "\<exists>ms. sent (tu_fragment_mbox s') = sent (tu_fragment_mbox s) @ ms \<and>
    \<not> reported ms (h_hash (b_header first)) \<and> (\<forall>b\<in>set rest. reported ms (h_hash (b_header b)))"
proof -
  obtain block s1 where moved: "tip_moved S s candidate (BranchSwitch (h_block_date (b_header first)) # map (removal E) rest) s1"
      "s' = announce_tip block candidate (ref_header candidate) s1"
    using process_new_ref_Inr [OF assms(1,2)] assms(3,4,6,7) by (auto simp: inj_map_eq_map)
  then have "sent (tu_fragment_mbox s') = sent (tu_fragment_mbox s) @ BranchSwitch (h_block_date (b_header first)) # map (removal E) rest"
    using assms(5) by (simp add: moved_sent)
  then show ?thesis using assms(9) by (intro exI conjI) (assumption, auto simp: reported_removals)
qed

text \<open>
  (C38) A full queue leaves the tag ahead of the tip. When a block extends the tip and the fragment task
  does not accept the removal, the operation fails after the tag \<^verbatim>\<open>HEAD\<close> was moved: the storage then names the new block as
  the head while the tip, the metrics and the watchers stay on the old one.
\<close>

theorem full_queue_leaves_tag_ahead:
  assumes "block_store S" and "compare_against N now (tu_tip s) candidate = Some PreferCandidateRef"
    and "ref_hash (tu_tip s) = ref_block_parent_hash candidate"
    and "storage_get S (nc_storage (tu_blockchain s)) (ref_hash candidate) = Inr (Some block)"
    and "bs_put_tag S (nc_storage (tu_blockchain s)) main_branch_tag (hash_bytes S (ref_hash candidate)) = (Inr (), st)"
    and "tu_fragment_mbox s = Some mb" and "\<not> mb_accepts mb (mb_attempts mb)"
  shows "\<exists>s'. process_new_ref N E S now candidate s = Some (Inl TransactionSendError, s') \<and>
    storage_get_tag S (nc_storage (tu_blockchain s')) main_branch_tag = Inr (Some (ref_hash candidate)) \<and>
    tu_tip s' = tu_tip s \<and> tu_tip_block s' = tu_tip_block s \<and> tu_watch_mbox s' = tu_watch_mbox s"
proof -
  have "storage_get_tag S st main_branch_tag = Inr (Some (ref_hash candidate))"
    using block_store.put_tag [OF assms(1,5)] block_store.de_hash [OF assms(1)] by (simp add: storage_get_tag_def)
  then show ?thesis
    using assms(2-7)
    by (simp add: process_new_ref_def Let_def act_bind_def update_current_branch_tip_def on_chain_def act_focus_def with_storage_def
        act_map_err_def storage_put_tag_def try_request_fragment_removal_def tell_fragment_task_def mb_try_send_def)
qed

section \<open>An example\<close>

definition example_ref :: "nat \<Rightarrow> nat \<Rightarrow> u32 \<Rightarrow> (nat, unit, nat, unit, unit, unit) noderef" where
  "example_ref h parent n = Ref \<lparr>lr_id = h, lr_state = unat n\<rparr> () () None (b_header (plain_block h parent n)) None"

definition example_old_tip :: "(nat, unit, nat, unit, unit, unit) noderef" where
  "example_old_tip = example_ref 2 1 1"

definition example_parent :: "(nat, unit, nat, unit, unit, unit) noderef" where
  "example_parent = example_ref 3 1 1"

definition example_candidate :: "(nat, unit, nat, unit, unit, unit) noderef" where
  "example_candidate = example_ref 4 3 2"

definition example_tip_state :: "(nat \<Rightarrow> bool) \<Rightarrow> (nat, unit, nat, unit, unit, unit) noderef \<Rightarrow>
    ((nat, (nat, unit, nat, unit, unit, unit) noderef) recency_list, (nat \<times> nat) list, mem_store, nat,
     unit, unit, unit, nat, unit, unit, unit, nat, unit, nat) tip_state" where
  "example_tip_state accepts tip = tip_updater_new tip (example_node_state example_store)
     (Some (mailbox_new accepts)) (Some (mailbox_new (\<lambda>_. True)))"

definition example_fragment_id :: "unit \<Rightarrow> nat" where
  "example_fragment_id _ = 0"

lemma example_switch:
  "map_option fst (process_new_ref example_node_ops example_fragment_id mem_store_ops 9 example_candidate
     (example_tip_state (\<lambda>_. True) example_old_tip)) = Some (Inr ())"
  by code_simp

lemma example_switch_facts:
  "compare_against example_node_ops 9 (tu_tip (example_tip_state a example_old_tip)) example_candidate = Some PreferCandidateRef"
  "ref_hash (tu_tip (example_tip_state a example_old_tip)) \<noteq> ref_block_parent_hash example_candidate"
  "tu_fragment_mbox (example_tip_state a example_old_tip) \<noteq> None"
  by code_simp+

lemma example_switch_stream:
  "find_common_ancestor mem_store_ops (nc_storage (tu_blockchain (example_tip_state a example_old_tip)))
     (ref_hash example_candidate) (ref_hash (tu_tip (example_tip_state a example_old_tip))) = Some (Inr 1)"
  "stream_from_to mem_store_ops (nc_storage (tu_blockchain (example_tip_state a example_old_tip))) 1
     (ref_hash example_candidate) = Inr (map Inr [plain_block 3 1 1, plain_block 4 3 2])"
  by code_simp+

theorem tip_run_safe_witness:
  "\<exists>s'. tu_tip s' = example_candidate \<and> tip_progress (example_tip_state (\<lambda>_. True) example_old_tip) s'"
proof -
  obtain s' where run: "process_new_ref example_node_ops example_fragment_id mem_store_ops 9 example_candidate
      (example_tip_state (\<lambda>_. True) example_old_tip) = Some (Inr (), s')"
    using example_switch by auto
  have "tu_tip s' = example_candidate"
    using process_new_ref_Inr [OF memory.block_store_axioms run]
    by (auto simp: example_switch_facts(1) tip_moved_def announce_tip_def)
  then show ?thesis
    using tip_run_safe [OF r_into_rtranclp [of "tip_step example_node_ops example_fragment_id recency_ops mem_store_ops (=)"],
        OF tip_step.tip_input [OF run]] by blast
qed


theorem branch_switch_misses_first_block_witness:
  "\<exists>s' ms. process_new_ref example_node_ops example_fragment_id mem_store_ops 9 example_candidate
      (example_tip_state (\<lambda>_. True) example_old_tip) = Some (Inr (), s') \<and>
    sent (tu_fragment_mbox s') = ms \<and> \<not> reported ms 3 \<and> reported ms 4"
proof -
  obtain s' where run: "process_new_ref example_node_ops example_fragment_id mem_store_ops 9 example_candidate
      (example_tip_state (\<lambda>_. True) example_old_tip) = Some (Inr (), s')"
    using example_switch by auto
  have "sent (tu_fragment_mbox (example_tip_state (\<lambda>_. True) example_old_tip)) = []"
    by (simp add: example_tip_state_def tip_updater_new_def mailbox_new_def sent_def)
  then show ?thesis
    using run branch_switch_misses_first_block [OF memory.block_store_axioms run example_switch_facts
        example_switch_stream(1), of "plain_block 3 1 1" "[plain_block 4 3 2]"] example_switch_stream(2)
    by (simp add: plain_block_def)
qed

theorem full_queue_leaves_tag_ahead_witness:
  "\<exists>s'. process_new_ref example_node_ops example_fragment_id mem_store_ops 9 example_candidate
      (example_tip_state (\<lambda>_. False) example_parent) = Some (Inl TransactionSendError, s') \<and>
    storage_get_tag mem_store_ops (nc_storage (tu_blockchain s')) main_branch_tag = Inr (Some 4) \<and> tu_tip s' = example_parent"
proof -
  let ?s = "example_tip_state (\<lambda>_. False) example_parent" and ?c = "example_candidate"
  have "compare_against example_node_ops 9 (tu_tip ?s) ?c = Some PreferCandidateRef" by code_simp
  moreover have "ref_hash (tu_tip ?s) = ref_block_parent_hash ?c" by code_simp
  moreover have "storage_get mem_store_ops (nc_storage (tu_blockchain ?s)) (ref_hash ?c) = Inr (Some (plain_block 4 3 2))" by code_simp
  moreover obtain st where "bs_put_tag mem_store_ops (nc_storage (tu_blockchain ?s)) main_branch_tag
      (hash_bytes mem_store_ops (ref_hash ?c)) = (Inr (), st)"
    by (simp add: example_tip_state_def tip_updater_new_def example_node_state_def mem_store_ops_def example_store_def
        stored_def ms_info_def example_candidate_def example_parent_def example_ref_def ref_hash_def)
  ultimately show ?thesis
    using full_queue_leaves_tag_ahead [OF memory.block_store_axioms, where s = ?s and candidate = ?c]
    by (fastforce simp: example_tip_state_def tip_updater_new_def mailbox_new_def example_candidate_def example_parent_def example_ref_def ref_hash_def)
qed

end
