(* ===== verification/Fire_Forget.thy ===== *)
theory Fire_Forget
  imports Actions "HOL-Library.Multiset" "HOL-Library.AList"
begin

text \<open>
  The scheduler of fire-and-forget tasks, \<^verbatim>\<open>jormungandr/src/utils/fire_forget_scheduler.rs\<close>: tasks are
  queued and launched on workers, at most so many at a time and so many with the same identifier. A launched
  task counts as running until it is declared completed or its timer fires.

  The timers are a \<^verbatim>\<open>DelayQueue\<close> of the tokio library, the record \<open>delay_ops\<close>; the locale \<open>delay_queue\<close>
  states its documented behaviour. Removing a key that is not in the queue panics (\<open>None\<close>). The launcher is
  reduced to the list of launches. \<open>ff_capacity\<close> is the capacity of the vector \<^verbatim>\<open>running\<close>, which
  is at least \<^verbatim>\<open>max_running\<close> and never changes because the vector never grows beyond it.
\<close>

section \<open>Tasks\<close>

record ('t, 'w, 'd) scheduled_task =
  sc_tid :: 't
  sc_wid :: 'w
  sc_data :: 'd

record ('t, 'w, 'k) running_task =
  rn_tid :: 't
  rn_wid :: 'w
  rn_timeout_key :: 'k

datatype ('t, 'w, 'd) sched_command = Schedule "('t, 'w, 'd) scheduled_task" | DeclareCompleted 't

datatype try_send_error = ChannelClosed | ChannelFull

datatype timer_error = TimerShutdown | TimerAtCapacity | TimerInvalid

datatype scheduler_error = CommandSend string | CommandQueueClosed | Timer timer_error

fun from_try_send_error :: "try_send_error \<Rightarrow> scheduler_error" where
  "from_try_send_error ChannelClosed = CommandSend ''channel closed''"
| "from_try_send_error ChannelFull = CommandSend ''no available capacity''"

record ('q, 'v, 'k) delay_ops =
  dq_empty :: 'q
  dq_insert :: "'q \<Rightarrow> 'v \<Rightarrow> 'k \<times> 'q"
  dq_remove :: "'q \<Rightarrow> 'k \<Rightarrow> 'q option"
  dq_lookup :: "'q \<Rightarrow> 'k \<Rightarrow> 'v option"

record ('t, 'w, 'd, 'k, 'q) scheduler =
  ff_scheduled :: "('t, 'w, 'd) scheduled_task list"
  ff_running :: "('t, 'w, 'k) running_task list"
  ff_timeouts :: 'q
  ff_capacity :: nat
  ff_max_running_same_task :: nat
  ff_launched :: "('t \<times> 'w \<times> 'd) list"

type_synonym ('q, 't, 'w, 'k) timer_ops = "('q, 't \<times> 'w, 'k) delay_ops"

definition scheduler_new :: "('q, 't, 'w, 'k) timer_ops \<Rightarrow> nat \<Rightarrow> nat \<Rightarrow> ('t, 'w, 'd, 'k, 'q) scheduler" where
  "scheduler_new Q capacity max_running_same_task =
     \<lparr>ff_scheduled = [], ff_running = [], ff_timeouts = dq_empty Q, ff_capacity = capacity,
      ff_max_running_same_task = max_running_same_task, ff_launched = []\<rparr>"

definition is_scheduled :: "('t, 'w, 'd) scheduled_task \<Rightarrow> ('t, 'w, 'd) scheduled_task \<Rightarrow> bool" where
  "is_scheduled queued task \<longleftrightarrow> sc_tid queued = sc_tid task \<and> sc_wid queued = sc_wid task"

definition to_running :: "('t, 'w, 'd) scheduled_task \<Rightarrow> 'k \<Rightarrow> ('t, 'w, 'k) running_task" where
  "to_running task key = \<lparr>rn_tid = sc_tid task, rn_wid = sc_wid task, rn_timeout_key = key\<rparr>"

definition to_timed_out :: "('t, 'w, 'd) scheduled_task \<Rightarrow> 't \<times> 'w" where
  "to_timed_out task = (sc_tid task, sc_wid task)"

definition launch :: "('t, 'w, 'd) scheduled_task \<Rightarrow> 't \<times> 'w \<times> 'd" where
  "launch task = (sc_tid task, sc_wid task, sc_data task)"

section \<open>Operations\<close>

definition task_run_count :: "('t, 'w, 'k) running_task list \<Rightarrow> ('t, 'w, 'd) scheduled_task \<Rightarrow> nat" where
  "task_run_count running task = length (filter (\<lambda>r. rn_tid r = sc_tid task) running)"

text \<open>\<^verbatim>\<open>position\<close> and \<^verbatim>\<open>remove\<close>: the first task that may run, and the others.\<close>

fun pop_next_runnable_task ::
  "nat \<Rightarrow> ('t, 'w, 'k) running_task list \<Rightarrow> ('t, 'w, 'd) scheduled_task list
    \<Rightarrow> (('t, 'w, 'd) scheduled_task \<times> ('t, 'w, 'd) scheduled_task list) option" where
  "pop_next_runnable_task max_same running [] = None"
| "pop_next_runnable_task max_same running (task # queue) =
     (if task_run_count running task < max_same then Some (task, queue)
      else map_option (\<lambda>(t, rest). (t, task # rest)) (pop_next_runnable_task max_same running queue))"

lemma pop_next_length: "pop_next_runnable_task m running queue = Some (t, rest) \<Longrightarrow> length queue = Suc (length rest)"
  by (induction queue arbitrary: rest) (auto split: if_splits)

text \<open>Each round launches a task, so there are at most as many rounds as queued tasks.\<close>

function try_run_scheduled ::
  "('q, 't, 'w, 'k) timer_ops \<Rightarrow> ('t, 'w, 'd, 'k, 'q) scheduler \<Rightarrow> ('t, 'w, 'd, 'k, 'q) scheduler" where
  "try_run_scheduled Q s =
     (if length (ff_running s) < ff_capacity s then
        (case pop_next_runnable_task (ff_max_running_same_task s) (ff_running s) (ff_scheduled s) of
           None \<Rightarrow> s
         | Some (task, queue) \<Rightarrow>
             let (key, timeouts) = dq_insert Q (ff_timeouts s) (to_timed_out task) in
             try_run_scheduled Q
               (s\<lparr>ff_scheduled := queue, ff_timeouts := timeouts, ff_running := ff_running s @ [to_running task key],
                  ff_launched := ff_launched s @ [launch task]\<rparr>))
      else s)"
  by pat_completeness auto

termination
  by (relation "measure (\<lambda>(Q, s). length (ff_scheduled s))") (auto dest: pop_next_length)

declare try_run_scheduled.simps [simp del]

fun update_scheduled :: "('t, 'w, 'd) scheduled_task \<Rightarrow> ('t, 'w, 'd) scheduled_task list \<Rightarrow> ('t, 'w, 'd) scheduled_task list option" where
  "update_scheduled task [] = None"
| "update_scheduled task (t # ts) =
     (if is_scheduled t task then Some (t\<lparr>sc_data := sc_data task\<rparr> # ts) else map_option (\<lambda>ts'. t # ts') (update_scheduled task ts))"

definition ff_schedule ::
  "('q, 't, 'w, 'k) timer_ops \<Rightarrow> ('t, 'w, 'd) scheduled_task \<Rightarrow> ('t, 'w, 'd, 'k, 'q) scheduler \<Rightarrow> ('t, 'w, 'd, 'k, 'q) scheduler" where
  "ff_schedule Q task s =
     (case update_scheduled task (ff_scheduled s) of
        Some queue \<Rightarrow> s\<lparr>ff_scheduled := queue\<rparr>
      | None \<Rightarrow> try_run_scheduled Q (s\<lparr>ff_scheduled := ff_scheduled s @ [task]\<rparr>))"

text \<open>\<^verbatim>\<open>running.retain\<close>, which also removes the timers of the completed tasks.\<close>

fun retain_running ::
  "('q, 't, 'w, 'k) timer_ops \<Rightarrow> 't \<Rightarrow> 'q \<Rightarrow> ('t, 'w, 'k) running_task list \<Rightarrow> ('q \<times> ('t, 'w, 'k) running_task list) option" where
  "retain_running Q tid timeouts [] = Some (timeouts, [])"
| "retain_running Q tid timeouts (r # rs) =
     (if rn_tid r = tid then
        (case dq_remove Q timeouts (rn_timeout_key r) of
           None \<Rightarrow> None
         | Some timeouts' \<Rightarrow> retain_running Q tid timeouts' rs)
      else map_option (\<lambda>(timeouts', rs'). (timeouts', r # rs')) (retain_running Q tid timeouts rs))"

definition ff_declare_completed ::
  "('q, 't, 'w, 'k) timer_ops \<Rightarrow> 't \<Rightarrow> ('t, 'w, 'd, 'k, 'q) scheduler \<Rightarrow> ('t, 'w, 'd, 'k, 'q) scheduler option" where
  "ff_declare_completed Q tid s = do {
     let scheduled = filter (\<lambda>t. sc_tid t \<noteq> tid) (ff_scheduled s);
     (timeouts, running) \<leftarrow> retain_running Q tid (ff_timeouts s) (ff_running s);
     Some (try_run_scheduled Q (s\<lparr>ff_scheduled := scheduled, ff_timeouts := timeouts, ff_running := running\<rparr>))
   }"

definition ff_declare_timed_out ::
  "('q, 't, 'w, 'k) timer_ops \<Rightarrow> 't \<times> 'w \<Rightarrow> ('t, 'w, 'd, 'k, 'q) scheduler \<Rightarrow> ('t, 'w, 'd, 'k, 'q) scheduler" where
  "ff_declare_timed_out Q timed_out s =
     try_run_scheduled Q
       (s\<lparr>ff_running := filter (\<lambda>r. \<not> (rn_tid r = fst timed_out \<and> rn_wid r = snd timed_out)) (ff_running s)\<rparr>)"

section \<open>Driving the scheduler\<close>

text \<open>
  One poll: the commands that are ready, whether the channel is then closed, and what the timers deliver, either the
  key of an expired entry or an error. \<open>Inr ()\<close> is \<^verbatim>\<open>Poll::Pending\<close>. A key that is not in the queue cannot expire.
\<close>

fun run_commands ::
  "('q, 't, 'w, 'k) timer_ops \<Rightarrow> ('t, 'w, 'd) sched_command list \<Rightarrow> ('t, 'w, 'd, 'k, 'q) scheduler \<Rightarrow> ('t, 'w, 'd, 'k, 'q) scheduler option" where
  "run_commands Q [] s = Some s"
| "run_commands Q (Schedule task # cs) s = run_commands Q cs (ff_schedule Q task s)"
| "run_commands Q (DeclareCompleted tid # cs) s = Option.bind (ff_declare_completed Q tid s) (run_commands Q cs)"

fun run_expired ::
  "('q, 't, 'w, 'k) timer_ops \<Rightarrow> (timer_error, 'k) result list \<Rightarrow> ('t, 'w, 'd, 'k, 'q) scheduler
    \<Rightarrow> (scheduler_error, unit) result \<times> ('t, 'w, 'd, 'k, 'q) scheduler" where
  "run_expired Q [] s = (Inr (), s)"
| "run_expired Q (Inl e # xs) s = (Inl (Timer e), s)"
| "run_expired Q (Inr key # xs) s =
     (case dq_lookup Q (ff_timeouts s) key of
        None \<Rightarrow> run_expired Q xs s
      | Some timed_out \<Rightarrow>
          run_expired Q xs
            (ff_declare_timed_out Q timed_out (s\<lparr>ff_timeouts := the (dq_remove Q (ff_timeouts s) key)\<rparr>)))"

definition poll_scheduler ::
  "('q, 't, 'w, 'k) timer_ops \<Rightarrow> ('t, 'w, 'd) sched_command list \<Rightarrow> bool \<Rightarrow> (timer_error, 'k) result list
    \<Rightarrow> ('t, 'w, 'd, 'k, 'q) scheduler
    \<Rightarrow> ((scheduler_error, unit) result \<times> ('t, 'w, 'd, 'k, 'q) scheduler) option" where
  "poll_scheduler Q commands closed expired s = do {
     s1 \<leftarrow> run_commands Q commands s;
     Some (if closed then (Inl CommandQueueClosed, s1) else run_expired Q expired s1)
   }"

section \<open>The documented behaviour of the timers\<close>

locale delay_queue =
  fixes Q :: "('q, 't \<times> 'w, 'k) delay_ops"
  assumes lookup_empty: "dq_lookup Q (dq_empty Q) k = None"
    and insert_fresh: "dq_insert Q q v = (k, q') \<Longrightarrow> dq_lookup Q q k = None"
    and insert_lookup: "dq_insert Q q v = (k, q') \<Longrightarrow> dq_lookup Q q' = (dq_lookup Q q)(k \<mapsto> v)"
    and remove_absent: "dq_lookup Q q k = None \<Longrightarrow> dq_remove Q q k = None"
    and remove_present: "dq_lookup Q q k \<noteq> None \<Longrightarrow> \<exists>q'. dq_remove Q q k = Some q' \<and> dq_lookup Q q' = (dq_lookup Q q)(k := None)"

section \<open>The invariant\<close>

definition run_count :: "'t \<Rightarrow> ('t, 'w, 'k) running_task list \<Rightarrow> nat" where
  "run_count t running = length (filter (\<lambda>r. rn_tid r = t) running)"

text \<open>Every running task has its own timer.\<close>

definition timers_ok :: "('q, 't, 'w, 'k) timer_ops \<Rightarrow> 'q \<Rightarrow> ('t, 'w, 'k) running_task list \<Rightarrow> bool" where
  "timers_ok Q timeouts running \<longleftrightarrow> distinct (map rn_timeout_key running) \<and>
     (\<forall>r\<in>set running. dq_lookup Q timeouts (rn_timeout_key r) = Some (rn_tid r, rn_wid r))"

definition sched_inv :: "('q, 't, 'w, 'k) timer_ops \<Rightarrow> ('t, 'w, 'd, 'k, 'q) scheduler \<Rightarrow> bool" where
  "sched_inv Q s \<longleftrightarrow> timers_ok Q (ff_timeouts s) (ff_running s) \<and> length (ff_running s) \<le> ff_capacity s \<and>
     (\<forall>t. run_count t (ff_running s) \<le> ff_max_running_same_task s) \<and> distinct (map to_timed_out (ff_scheduled s))"

text \<open>No queued task could be launched.\<close>

definition settled :: "('t, 'w, 'd, 'k, 'q) scheduler \<Rightarrow> bool" where
  "settled s \<longleftrightarrow> length (ff_running s) = ff_capacity s \<or>
     (\<forall>t\<in>set (ff_scheduled s). ff_max_running_same_task s \<le> run_count (sc_tid t) (ff_running s))"

lemma task_run_count_eq: "task_run_count running t = run_count (sc_tid t) running"
  by (simp add: task_run_count_def run_count_def)

lemma pop_next_Some:
  "pop_next_runnable_task m running queue = Some (t, rest) \<Longrightarrow>
     \<exists>xs ys. queue = xs @ t # ys \<and> rest = xs @ ys \<and> run_count (sc_tid t) running < m"
proof (induction queue arbitrary: rest)
  case (Cons x queue)
  show ?case
  proof (cases "task_run_count running x < m")
    case True
    then show ?thesis using Cons.prems by - (rule exI [of _ "[]"], rule exI [of _ queue], auto simp: task_run_count_eq)
  next
    case False
    then obtain rest' where rest: "rest = x # rest'" "pop_next_runnable_task m running queue = Some (t, rest')"
      using Cons.prems by (auto simp: task_run_count_eq)
    from Cons.IH [OF rest(2)] obtain xs ys where "queue = xs @ t # ys" "rest' = xs @ ys" "run_count (sc_tid t) running < m" by blast
    then show ?thesis using rest(1) by - (rule exI [of _ "x # xs"], rule exI [of _ ys], auto)
  qed
qed simp

lemma pop_next_None:
  "pop_next_runnable_task m running queue = None \<longleftrightarrow> (\<forall>t\<in>set queue. m \<le> run_count (sc_tid t) running)"
  by (induction queue) (auto simp: task_run_count_eq)

lemma run_count_append [simp]: "run_count t (xs @ ys) = run_count t xs + run_count t ys"
  by (simp add: run_count_def)

lemma run_count_to_running [simp]: "run_count t [to_running task key] = (if sc_tid task = t then 1 else 0)"
  by (simp add: run_count_def to_running_def)

lemma to_running_simps [simp]:
  "rn_tid (to_running t k) = sc_tid t" "rn_wid (to_running t k) = sc_wid t" "rn_timeout_key (to_running t k) = k"
  by (simp_all add: to_running_def)

lemma run_count_filter: "run_count t (filter P running) \<le> run_count t running"
  by (induction running) (auto simp: run_count_def)

text \<open>One round of \<^verbatim>\<open>try_run_scheduled\<close>.\<close>

definition launch_one ::
  "('q, 't, 'w, 'k) timer_ops \<Rightarrow> ('t, 'w, 'd) scheduled_task \<Rightarrow> ('t, 'w, 'd) scheduled_task list
    \<Rightarrow> ('t, 'w, 'd, 'k, 'q) scheduler \<Rightarrow> ('t, 'w, 'd, 'k, 'q) scheduler" where
  "launch_one Q task queue s =
     s\<lparr>ff_scheduled := queue, ff_timeouts := snd (dq_insert Q (ff_timeouts s) (to_timed_out task)),
       ff_running := ff_running s @ [to_running task (fst (dq_insert Q (ff_timeouts s) (to_timed_out task)))],
       ff_launched := ff_launched s @ [launch task]\<rparr>"

lemma try_run_cases:
  obtains (stop) "try_run_scheduled Q s = s" "length (ff_running s) < ff_capacity s \<Longrightarrow> settled s"
  | (go) task queue where "length (ff_running s) < ff_capacity s"
      "pop_next_runnable_task (ff_max_running_same_task s) (ff_running s) (ff_scheduled s) = Some (task, queue)"
      "try_run_scheduled Q s = try_run_scheduled Q (launch_one Q task queue s)"
proof (cases "length (ff_running s) < ff_capacity s")
  case False
  then show thesis by (intro stop) (simp_all add: try_run_scheduled.simps [of Q s])
next
  case True
  show thesis
  proof (cases "pop_next_runnable_task (ff_max_running_same_task s) (ff_running s) (ff_scheduled s)")
    case None
    then have "try_run_scheduled Q s = s" by (simp add: try_run_scheduled.simps [of Q s])
    moreover have "settled s" using None by (simp add: settled_def pop_next_None)
    ultimately show thesis by (rule stop)
  next
    case (Some p)
    then show thesis
      using True by (cases p) (auto intro!: go simp: try_run_scheduled.simps [of Q s] launch_one_def case_prod_beta Let_def)
  qed
qed

text \<open>What a run of \<^verbatim>\<open>try_run_scheduled\<close> does: some queued tasks are launched.\<close>

definition launches :: "('t, 'w, 'd, 'k, 'q) scheduler \<Rightarrow> ('t, 'w, 'd) scheduled_task list \<Rightarrow> ('t, 'w, 'd, 'k, 'q) scheduler \<Rightarrow> bool" where
  "launches s ts s' \<longleftrightarrow>
     ff_launched s' = ff_launched s @ map launch ts \<and> mset (ff_scheduled s) = mset ts + mset (ff_scheduled s') \<and>
     (\<exists>rs. ff_running s' = ff_running s @ rs \<and> map (\<lambda>r. (rn_tid r, rn_wid r)) rs = map to_timed_out ts) \<and>
     ff_capacity s' = ff_capacity s \<and> ff_max_running_same_task s' = ff_max_running_same_task s"

lemma launches_Nil: "launches s [] s"
  by (simp add: launches_def)

lemma launches_Cons:
  assumes "ff_scheduled s = xs @ t # ys" and "launches (launch_one Q t (xs @ ys) s) ts s'"
  shows "launches s (t # ts) s'"
proof -
  obtain rs where "ff_running s' = ff_running (launch_one Q t (xs @ ys) s) @ rs"
      "map (\<lambda>r. (rn_tid r, rn_wid r)) rs = map to_timed_out ts"
    using assms(2) by (auto simp: launches_def)
  then have "ff_running s' = ff_running s @ to_running t (fst (dq_insert Q (ff_timeouts s) (to_timed_out t))) # rs"
      "map (\<lambda>r. (rn_tid r, rn_wid r)) (to_running t (fst (dq_insert Q (ff_timeouts s) (to_timed_out t))) # rs) = map to_timed_out (t # ts)"
    by (simp_all add: launch_one_def to_running_def to_timed_out_def)
  then show ?thesis using assms unfolding launches_def by (auto simp: launch_one_def)
qed

context delay_queue
begin

lemma launch_one_inv:
  assumes "sched_inv Q s" and "length (ff_running s) < ff_capacity s" and "ff_scheduled s = xs @ t # ys"
    and "run_count (sc_tid t) (ff_running s) < ff_max_running_same_task s"
  shows "sched_inv Q (launch_one Q t (xs @ ys) s)"
proof -
  obtain k q where ins: "dq_insert Q (ff_timeouts s) (to_timed_out t) = (k, q)" by (rule prod.exhaust)
  have fresh: "dq_lookup Q (ff_timeouts s) k = None" and look: "dq_lookup Q q = (dq_lookup Q (ff_timeouts s))(k \<mapsto> to_timed_out t)"
    by (rule insert_fresh [OF ins], rule insert_lookup [OF ins])
  have new: "rn_timeout_key r \<noteq> k" if "r \<in> set (ff_running s)" for r
    using assms(1) that fresh by (auto simp: sched_inv_def timers_ok_def)
  have s': "launch_one Q t (xs @ ys) s = s\<lparr>ff_scheduled := xs @ ys, ff_timeouts := q,
      ff_running := ff_running s @ [to_running t k], ff_launched := ff_launched s @ [launch t]\<rparr>"
    by (simp add: launch_one_def ins)
  have "timers_ok Q q (ff_running s @ [to_running t k])"
    using assms(1) new by (auto simp: sched_inv_def timers_ok_def look to_timed_out_def)
  moreover have "run_count u (ff_running s @ [to_running t k]) \<le> ff_max_running_same_task s" for u
    using assms(1,4) by (auto simp: sched_inv_def)
  ultimately show ?thesis
    using assms(1-3) by (auto simp: sched_inv_def s')
qed

lemma try_run_inv:
  "sched_inv Q s \<Longrightarrow> sched_inv Q (try_run_scheduled Q s) \<and> settled (try_run_scheduled Q s) \<and>
     (\<exists>ts. launches s ts (try_run_scheduled Q s)) \<and>
     (\<forall>k v. dq_lookup Q (ff_timeouts s) k = Some v \<longrightarrow> dq_lookup Q (ff_timeouts (try_run_scheduled Q s)) k = Some v)"
proof (induction "length (ff_scheduled s)" arbitrary: s rule: less_induct)
  case less
  show ?case
  proof (cases rule: try_run_cases [of Q s])
    case stop
    have "settled s"
      using stop(2) less.prems by (cases "length (ff_running s) < ff_capacity s") (auto simp: settled_def sched_inv_def)
    then show ?thesis using less.prems launches_Nil [of s] by (auto simp: stop(1))
  next
    case (go task queue)
    obtain xs ys where q: "ff_scheduled s = xs @ task # ys" "queue = xs @ ys"
        "run_count (sc_tid task) (ff_running s) < ff_max_running_same_task s"
      using pop_next_Some [OF go(2)] by blast
    let ?s = "launch_one Q task queue s"
    have inv: "sched_inv Q ?s" using launch_one_inv [OF less.prems go(1) q(1,3)] q(2) by simp
    have "length (ff_scheduled ?s) < length (ff_scheduled s)" by (simp add: launch_one_def q)
    note IH = less.hyps [OF this inv]
    obtain k q' where ins: "dq_insert Q (ff_timeouts s) (to_timed_out task) = (k, q')" by (rule prod.exhaust)
    have "dq_lookup Q (ff_timeouts ?s) k' = Some v" if "dq_lookup Q (ff_timeouts s) k' = Some v" for k' v
      using that insert_fresh [OF ins] insert_lookup [OF ins] by (auto simp: launch_one_def ins)
    moreover obtain ts where "launches ?s ts (try_run_scheduled Q ?s)" using IH by blast
    then have "launches s (task # ts) (try_run_scheduled Q ?s)" by (intro launches_Cons [OF q(1)]) (simp add: q(2))
    ultimately show ?thesis unfolding go(3) using IH by blast
  qed
qed

end

section \<open>The operations keep the invariant\<close>

lemma update_scheduled_Some:
  "update_scheduled task queue = Some queue' \<Longrightarrow> map to_timed_out queue' = map to_timed_out queue \<and> to_timed_out task \<in> to_timed_out ` set queue"
  by (induction queue arbitrary: queue') (auto simp: is_scheduled_def to_timed_out_def split: if_splits)

lemma update_scheduled_None: "update_scheduled task queue = None \<longleftrightarrow> to_timed_out task \<notin> to_timed_out ` set queue"
  by (induction queue) (auto simp: is_scheduled_def to_timed_out_def)

lemma tids_eq: "map to_timed_out queue' = map to_timed_out queue \<Longrightarrow> sc_tid ` set queue' = sc_tid ` set queue"
proof -
  assume "map to_timed_out queue' = map to_timed_out queue"
  then have "fst ` set (map to_timed_out queue') = fst ` set (map to_timed_out queue)" by simp
  then show ?thesis by (simp add: image_image to_timed_out_def)
qed

lemma settled_iff:
  "settled s \<longleftrightarrow> length (ff_running s) = ff_capacity s \<or>
     sc_tid ` set (ff_scheduled s) \<subseteq> {t. ff_max_running_same_task s \<le> run_count t (ff_running s)}"
  by (auto simp: settled_def)

lemma timers_ok_filter: "timers_ok Q q rs \<Longrightarrow> timers_ok Q q (filter P rs)"
  by (auto simp: timers_ok_def distinct_map_filter)

context delay_queue
begin

lemma new_inv: "sched_inv Q (scheduler_new Q capacity max_same) \<and> settled (scheduler_new Q capacity max_same)"
  by (simp add: sched_inv_def settled_def scheduler_new_def timers_ok_def run_count_def)

lemma schedule_inv:
  assumes "sched_inv Q s" and "settled s"
  shows "sched_inv Q (ff_schedule Q task s) \<and> settled (ff_schedule Q task s)"
proof (cases "update_scheduled task (ff_scheduled s)")
  case None
  then have "sched_inv Q (s\<lparr>ff_scheduled := ff_scheduled s @ [task]\<rparr>)"
    using assms(1) by (auto simp: sched_inv_def update_scheduled_None)
  from try_run_inv [OF this] None show ?thesis by (simp add: ff_schedule_def)
next
  case (Some queue)
  note same = update_scheduled_Some [OF Some]
  have "settled (s\<lparr>ff_scheduled := queue\<rparr>) = settled s"
    unfolding settled_iff using tids_eq [OF conjunct1 [OF same]] by simp
  then show ?thesis using assms Some same by (simp add: ff_schedule_def sched_inv_def)
qed

lemma retain_running_ok:
  assumes "timers_ok Q q rs"
  shows "\<exists>q'. retain_running Q tid q rs = Some (q', filter (\<lambda>r. rn_tid r \<noteq> tid) rs) \<and>
    (\<forall>k. dq_lookup Q q' k = (if k \<in> rn_timeout_key ` {r \<in> set rs. rn_tid r = tid} then None else dq_lookup Q q k))"
  using assms
proof (induction rs arbitrary: q)
  case (Cons r rs)
  show ?case
  proof (cases "rn_tid r = tid")
    case True
    obtain q1 where q1: "dq_remove Q q (rn_timeout_key r) = Some q1" "dq_lookup Q q1 = (dq_lookup Q q)(rn_timeout_key r := None)"
      using remove_present [of q "rn_timeout_key r"] Cons.prems by (auto simp: timers_ok_def)
    have "rn_timeout_key r' \<noteq> rn_timeout_key r" if "r' \<in> set rs" for r'
      using Cons.prems imageI [OF that, of rn_timeout_key] by (auto simp: timers_ok_def)
    then have "timers_ok Q q1 rs" using Cons.prems by (simp add: timers_ok_def q1(2))
    from Cons.IH [OF this] obtain q' where "retain_running Q tid q1 rs = Some (q', filter (\<lambda>r. rn_tid r \<noteq> tid) rs)"
        "\<forall>k. dq_lookup Q q' k = (if k \<in> rn_timeout_key ` {r \<in> set rs. rn_tid r = tid} then None else dq_lookup Q q1 k)" by blast
    then show ?thesis using True q1 by (auto intro!: exI [of _ q'])
  next
    case False
    have "timers_ok Q q rs" using Cons.prems by (auto simp: timers_ok_def)
    from Cons.IH [OF this] False show ?thesis by (auto simp: image_iff)
  qed
qed simp

lemma retained_timers:
  assumes "timers_ok Q q rs"
    and "\<forall>k. dq_lookup Q q' k = (if k \<in> rn_timeout_key ` {r \<in> set rs. rn_tid r = tid} then None else dq_lookup Q q k)"
  shows "timers_ok Q q' (filter (\<lambda>r. rn_tid r \<noteq> tid) rs)"
proof -
  have "dq_lookup Q q' (rn_timeout_key r) = Some (rn_tid r, rn_wid r)" if r: "r \<in> set rs" "rn_tid r \<noteq> tid" for r
  proof -
    have "rn_timeout_key r \<notin> rn_timeout_key ` {r \<in> set rs. rn_tid r = tid}"
      using assms(1) r by (auto simp: timers_ok_def distinct_map dest: inj_onD)
    then show ?thesis using assms r by (simp add: timers_ok_def)
  qed
  then show ?thesis using assms(1) by (auto simp: timers_ok_def distinct_map_filter)
qed

lemma completed_spec:
  assumes "sched_inv Q s"
  shows "\<exists>s' ts q. ff_declare_completed Q tid s = Some s' \<and> sched_inv Q s' \<and> settled s' \<and>
    launches (s\<lparr>ff_scheduled := filter (\<lambda>t. sc_tid t \<noteq> tid) (ff_scheduled s), ff_timeouts := q,
                ff_running := filter (\<lambda>r. rn_tid r \<noteq> tid) (ff_running s)\<rparr>) ts s'"
proof -
  have ok: "timers_ok Q (ff_timeouts s) (ff_running s)" using assms by (simp add: sched_inv_def)
  obtain q where q: "retain_running Q tid (ff_timeouts s) (ff_running s) = Some (q, filter (\<lambda>r. rn_tid r \<noteq> tid) (ff_running s))"
      "\<forall>k. dq_lookup Q q k = (if k \<in> rn_timeout_key ` {r \<in> set (ff_running s). rn_tid r = tid} then None
                                else dq_lookup Q (ff_timeouts s) k)"
    using retain_running_ok [OF ok] by blast
  let ?s = "s\<lparr>ff_scheduled := filter (\<lambda>t. sc_tid t \<noteq> tid) (ff_scheduled s), ff_timeouts := q,
      ff_running := filter (\<lambda>r. rn_tid r \<noteq> tid) (ff_running s)\<rparr>"
  have "run_count t (filter (\<lambda>r. rn_tid r \<noteq> tid) (ff_running s)) \<le> ff_max_running_same_task s" for t
    using run_count_filter [of t] assms by (meson order_trans sched_inv_def)
  moreover have "length (filter (\<lambda>r. rn_tid r \<noteq> tid) (ff_running s)) \<le> ff_capacity s"
    using assms length_filter_le [of _ "ff_running s"] by (meson order_trans sched_inv_def)
  ultimately have "sched_inv Q ?s"
    using assms retained_timers [OF ok q(2)] by (simp add: sched_inv_def distinct_map_filter)
  from try_run_inv [OF this] q(1) show ?thesis by (auto simp: ff_declare_completed_def)
qed

lemma timed_out_spec:
  assumes "sched_inv Q s" and "dq_lookup Q (ff_timeouts s) k = Some (t, w)"
  shows "\<exists>q. dq_remove Q (ff_timeouts s) k = Some q \<and> dq_lookup Q q = (dq_lookup Q (ff_timeouts s))(k := None) \<and>
    sched_inv Q (s\<lparr>ff_timeouts := q, ff_running := filter (\<lambda>r. \<not> (rn_tid r = t \<and> rn_wid r = w)) (ff_running s)\<rparr>)"
proof -
  obtain q where q: "dq_remove Q (ff_timeouts s) k = Some q" "dq_lookup Q q = (dq_lookup Q (ff_timeouts s))(k := None)"
    using remove_present [of "ff_timeouts s" k] assms(2) by auto
  let ?P = "\<lambda>r. \<not> (rn_tid r = t \<and> rn_wid r = w)"
  have "run_count u (filter ?P (ff_running s)) \<le> ff_max_running_same_task s" for u
    using run_count_filter [of u] assms(1) by (meson order_trans sched_inv_def)
  moreover have "length (filter ?P (ff_running s)) \<le> ff_capacity s"
    using assms(1) length_filter_le [of _ "ff_running s"] by (meson order_trans sched_inv_def)
  moreover have "timers_ok Q q (filter ?P (ff_running s))"
    using assms by (auto simp: sched_inv_def timers_ok_def q(2) distinct_map_filter)
  ultimately show ?thesis using q assms(1) by (simp add: sched_inv_def)
qed

lemma run_commands_inv:
  "sched_inv Q s \<Longrightarrow> settled s \<Longrightarrow> \<exists>s'. run_commands Q cs s = Some s' \<and> sched_inv Q s' \<and> settled s'"
proof (induction cs arbitrary: s)
  case (Cons c cs)
  show ?case
  proof (cases c)
    case (Schedule task)
    then show ?thesis using Cons.IH schedule_inv [OF Cons.prems, of task] by simp
  next
    case (DeclareCompleted tid)
    then show ?thesis using Cons.IH completed_spec [OF Cons.prems(1), of tid] by auto
  qed
qed simp

lemma run_expired_inv:
  "sched_inv Q s \<Longrightarrow> settled s \<Longrightarrow> sched_inv Q (snd (run_expired Q xs s)) \<and> settled (snd (run_expired Q xs s))"
proof (induction xs arbitrary: s)
  case (Cons x xs)
  show ?case
  proof (cases x)
    case (Inl e)
    then show ?thesis using Cons.prems by simp
  next
    case (Inr k)
    show ?thesis
    proof (cases "dq_lookup Q (ff_timeouts s) k")
      case None
      then show ?thesis using Cons.IH [OF Cons.prems] Inr by simp
    next
      case (Some v)
      obtain t w where v: "v = (t, w)" by (rule prod.exhaust)
      obtain q where q: "dq_remove Q (ff_timeouts s) k = Some q"
          "sched_inv Q (s\<lparr>ff_timeouts := q, ff_running := filter (\<lambda>r. \<not> (rn_tid r = t \<and> rn_wid r = w)) (ff_running s)\<rparr>)"
        using timed_out_spec [OF Cons.prems(1) Some [unfolded v]] by blast
      from try_run_inv [OF q(2)]
      have "sched_inv Q (ff_declare_timed_out Q (t, w) (s\<lparr>ff_timeouts := q\<rparr>)) \<and> settled (ff_declare_timed_out Q (t, w) (s\<lparr>ff_timeouts := q\<rparr>))"
        by (simp add: ff_declare_timed_out_def)
      then show ?thesis using Cons.IH Inr Some v q(1) by simp
    qed
  qed
qed simp

lemma poll_inv:
  assumes "sched_inv Q s" and "settled s"
  shows "\<exists>res s'. poll_scheduler Q commands closed expired s = Some (res, s') \<and> sched_inv Q s' \<and> settled s'"
proof -
  obtain s1 where s1: "run_commands Q commands s = Some s1" "sched_inv Q s1" "settled s1"
    using run_commands_inv [OF assms] by blast
  then show ?thesis
    using run_expired_inv [OF s1(2,3), of expired]
    by (cases "run_expired Q expired s1") (simp add: poll_scheduler_def)
qed

end

text \<open>The states of a scheduler that is polled again and again.\<close>

inductive sched_reach :: "('q, 't, 'w, 'k) timer_ops \<Rightarrow> nat \<Rightarrow> nat \<Rightarrow> ('t, 'w, 'd, 'k, 'q) scheduler \<Rightarrow> bool"
  for Q capacity max_same where
  sched_start: "sched_reach Q capacity max_same (scheduler_new Q capacity max_same)"
| sched_poll: "sched_reach Q capacity max_same s \<Longrightarrow> poll_scheduler Q commands closed expired s = Some (res, s') \<Longrightarrow>
     sched_reach Q capacity max_same s'"

section \<open>The limits do not change\<close>

definition limits :: "('t, 'w, 'd, 'k, 'q) scheduler \<Rightarrow> nat \<times> nat" where
  "limits s = (ff_capacity s, ff_max_running_same_task s)"

lemma try_run_limits: "limits (try_run_scheduled Q s) = limits s"
proof (induction "length (ff_scheduled s)" arbitrary: s rule: less_induct)
  case less
  show ?case
  proof (cases rule: try_run_cases [of Q s])
    case (go task queue)
    have "limits (launch_one Q task queue s) = limits s" "length (ff_scheduled (launch_one Q task queue s)) < length (ff_scheduled s)"
      using pop_next_length [OF go(2)] by (simp_all add: limits_def launch_one_def)
    with less.hyps [OF this(2)] show ?thesis by (simp add: go(3))
  qed simp
qed

lemma schedule_limits: "limits (ff_schedule Q task s) = limits s"
  by (cases "update_scheduled task (ff_scheduled s)") (simp_all add: ff_schedule_def try_run_limits limits_def [of "_\<lparr>ff_scheduled := _\<rparr>"] limits_def [of s])

lemma completed_limits: "ff_declare_completed Q tid s = Some s' \<Longrightarrow> limits s' = limits s"
  by (auto simp: ff_declare_completed_def bind_eq_Some_conv try_run_limits) (simp add: limits_def)

lemma run_commands_limits: "run_commands Q cs s = Some s' \<Longrightarrow> limits s' = limits s"
  by (induction Q cs s rule: run_commands.induct) (auto simp: schedule_limits completed_limits bind_eq_Some_conv)

lemma timed_out_limits: "limits (ff_declare_timed_out Q v s) = limits s"
  unfolding ff_declare_timed_out_def try_run_limits by (simp add: limits_def)

lemma run_expired_limits: "limits (snd (run_expired Q xs s)) = limits s"
proof (induction Q xs s rule: run_expired.induct)
  case (3 Q key xs s)
  have "limits (s\<lparr>ff_timeouts := q\<rparr>) = limits s" for q by (simp add: limits_def)
  then show ?case using 3 by (auto simp: timed_out_limits split: option.splits)
qed simp_all

lemma poll_limits:
  assumes "poll_scheduler Q commands closed expired s = Some (res, s')"
  shows "limits s' = limits s"
proof -
  obtain s1 where s1: "run_commands Q commands s = Some s1"
      "(if closed then (Inl CommandQueueClosed, s1) else run_expired Q expired s1) = (res, s')"
    using assms by (auto simp: poll_scheduler_def bind_eq_Some_conv)
  then have "limits s' = limits s1"
    using run_expired_limits [of Q expired s1] by (auto split: if_splits)
  then show ?thesis using run_commands_limits [OF s1(1)] by simp
qed

lemma reach_limits: "sched_reach Q capacity max_same s \<Longrightarrow> limits s = (capacity, max_same)"
  by (induction rule: sched_reach.induct) (auto simp: poll_limits, simp add: limits_def scheduler_new_def)


context delay_queue
begin

lemma try_run_fresh:
  "r \<in> set (ff_running (try_run_scheduled Q s)) \<Longrightarrow> r \<in> set (ff_running s) \<or> dq_lookup Q (ff_timeouts s) (rn_timeout_key r) = None"
proof (induction "length (ff_scheduled s)" arbitrary: s rule: less_induct)
  case less
  show ?case
  proof (cases rule: try_run_cases [of Q s])
    case stop
    then show ?thesis using less.prems by simp
  next
    case (go task queue)
    obtain k q where ins: "dq_insert Q (ff_timeouts s) (to_timed_out task) = (k, q)" by (rule prod.exhaust)
    have "length (ff_scheduled (launch_one Q task queue s)) < length (ff_scheduled s)"
      using pop_next_length [OF go(2)] by (simp add: launch_one_def)
    from less.hyps [OF this] less.prems show ?thesis
      using insert_fresh [OF ins] insert_lookup [OF ins] by (auto simp: go(3) launch_one_def ins split: if_splits)
  qed
qed

lemma reach_inv: "sched_reach Q capacity max_same s \<Longrightarrow> sched_inv Q s \<and> settled s"
proof (induction rule: sched_reach.induct)
  case (sched_poll s commands closed expired res s')
  then show ?case using poll_inv [of s commands closed expired] by auto
qed (rule new_inv)

end

section \<open>Correctness\<close>

text \<open>
  (C5) The scheduler is safe. However it is polled, with any commands, closed channels, expired timers and timer errors, it
  never panics: every running task has its own timer, so the timers removed with a completed task exist. At most as
  many tasks run as the vector of running tasks has room for, and at most so many with the same identifier; a task for a worker
  is queued at most once; and no queued task is left waiting that could be launched.
\<close>

theorem scheduler_safe:
  assumes "delay_queue Q" and "sched_reach Q capacity max_same s"
  shows "poll_scheduler Q commands closed expired s \<noteq> None \<and>
    timers_ok Q (ff_timeouts s) (ff_running s) \<and> length (ff_running s) \<le> capacity \<and>
    (\<forall>t. run_count t (ff_running s) \<le> max_same) \<and> distinct (map to_timed_out (ff_scheduled s)) \<and>
    (length (ff_running s) = capacity \<or> (\<forall>t\<in>set (ff_scheduled s). max_same \<le> run_count (sc_tid t) (ff_running s)))"
proof -
  have inv: "sched_inv Q s" "settled s" using delay_queue.reach_inv [OF assms] by auto
  have "ff_capacity s = capacity" "ff_max_running_same_task s = max_same"
    using reach_limits [OF assms(2)] by (simp_all add: limits_def)
  with inv delay_queue.poll_inv [OF assms(1) inv, of commands closed expired] show ?thesis
    by (auto simp: sched_inv_def settled_def)
qed

text \<open>
  Declaring a task completed cancels all its instances: none of them is queued or running afterwards, every other
  running task keeps running, and what is launched in their place comes from the queue, each task once.
\<close>

theorem declare_completed_correct:
  assumes "delay_queue Q" and "sched_reach Q capacity max_same s"
  shows "\<exists>s' ts. ff_declare_completed Q tid s = Some s' \<and>
    (\<forall>t\<in>set (ff_scheduled s'). sc_tid t \<noteq> tid) \<and> (\<forall>r\<in>set (ff_running s'). rn_tid r \<noteq> tid) \<and>
    {r \<in> set (ff_running s). rn_tid r \<noteq> tid} \<subseteq> set (ff_running s') \<and>
    ff_launched s' = ff_launched s @ map launch ts \<and>
    mset ts + mset (ff_scheduled s') = mset (filter (\<lambda>t. sc_tid t \<noteq> tid) (ff_scheduled s))"
proof -
  have inv: "sched_inv Q s" using delay_queue.reach_inv [OF assms] by simp
  obtain s' ts q where s': "ff_declare_completed Q tid s = Some s'"
    and l: "launches (s\<lparr>ff_scheduled := filter (\<lambda>t. sc_tid t \<noteq> tid) (ff_scheduled s), ff_timeouts := q,
                ff_running := filter (\<lambda>r. rn_tid r \<noteq> tid) (ff_running s)\<rparr>) ts s'"
    using delay_queue.completed_spec [OF assms(1) inv, of tid] by blast
  obtain rs where rs: "ff_running s' = filter (\<lambda>r. rn_tid r \<noteq> tid) (ff_running s) @ rs"
      "map (\<lambda>r. (rn_tid r, rn_wid r)) rs = map to_timed_out ts"
    using l by (auto simp: launches_def)
  have eq: "mset (filter (\<lambda>t. sc_tid t \<noteq> tid) (ff_scheduled s)) = mset ts + mset (ff_scheduled s')"
      "ff_launched s' = ff_launched s @ map launch ts"
    using l by (auto simp: launches_def)
  have sub: "set ts \<union> set (ff_scheduled s') = set (filter (\<lambda>t. sc_tid t \<noteq> tid) (ff_scheduled s))"
    using arg_cong [OF eq(1), of set_mset] by simp
  have "rn_tid ` set rs = sc_tid ` set ts"
  proof -
    have "fst ` set (map (\<lambda>r. (rn_tid r, rn_wid r)) rs) = fst ` set (map to_timed_out ts)" by (simp add: rs(2))
    then show ?thesis by (simp add: image_image to_timed_out_def)
  qed
  moreover have "tid \<notin> sc_tid ` set ts" using sub by auto
  ultimately have "tid \<notin> rn_tid ` set rs" by simp
  then show ?thesis using s' rs(1) eq sub by (intro exI conjI) (assumption, auto)
qed

text \<open>
  A timer ends every instance of its task on its worker. When a task is launched again for a worker on which it still
  runs, the first timer that fires ends both instances, and the timer of the other one stays armed: it may end a
  later instance before its time.
\<close>

theorem timer_ends_other_instance:
  assumes "delay_queue Q" and "sched_reach Q capacity max_same s" and "r1 \<in> set (ff_running s)" and "r2 \<in> set (ff_running s)"
    and "rn_tid r1 = rn_tid r2" and "rn_wid r1 = rn_wid r2" and "rn_timeout_key r1 \<noteq> rn_timeout_key r2"
  shows "\<exists>s'. run_expired Q [Inr (rn_timeout_key r1)] s = (Inr (), s') \<and>
    rn_timeout_key r2 \<notin> rn_timeout_key ` set (ff_running s') \<and>
    dq_lookup Q (ff_timeouts s') (rn_timeout_key r2) = Some (rn_tid r2, rn_wid r2)"
proof -
  let ?t = "rn_tid r2" and ?w = "rn_wid r2"
  have inv: "sched_inv Q s" using delay_queue.reach_inv [OF assms(1,2)] by simp
  have look: "dq_lookup Q (ff_timeouts s) (rn_timeout_key r1) = Some (?t, ?w)"
      "dq_lookup Q (ff_timeouts s) (rn_timeout_key r2) = Some (?t, ?w)"
    using inv assms(3-6) by (auto simp: sched_inv_def timers_ok_def)
  obtain q where q: "dq_remove Q (ff_timeouts s) (rn_timeout_key r1) = Some q"
      "dq_lookup Q q = (dq_lookup Q (ff_timeouts s))(rn_timeout_key r1 := None)"
      "sched_inv Q (s\<lparr>ff_timeouts := q, ff_running := filter (\<lambda>r. \<not> (rn_tid r = ?t \<and> rn_wid r = ?w)) (ff_running s)\<rparr>)"
    using delay_queue.timed_out_spec [OF assms(1) inv look(1)] by blast
  let ?s = "s\<lparr>ff_timeouts := q, ff_running := filter (\<lambda>r. \<not> (rn_tid r = ?t \<and> rn_wid r = ?w)) (ff_running s)\<rparr>"
  have armed: "dq_lookup Q (ff_timeouts ?s) (rn_timeout_key r2) = Some (?t, ?w)" using look(2) assms(7) q(2) by simp
  have "rn_timeout_key r \<noteq> rn_timeout_key r2" if "r \<in> set (ff_running (try_run_scheduled Q ?s))" for r
  proof
    assume key: "rn_timeout_key r = rn_timeout_key r2"
    then have "r \<in> set (ff_running s)" "\<not> (rn_tid r = ?t \<and> rn_wid r = ?w)"
      using delay_queue.try_run_fresh [OF assms(1) that] armed by auto
    then show False using inv key look(2) by (auto simp: sched_inv_def timers_ok_def)
  qed
  then have "rn_timeout_key r2 \<notin> rn_timeout_key ` set (ff_running (try_run_scheduled Q ?s))"
    by (simp add: image_iff not_sym)
  moreover have "dq_lookup Q (ff_timeouts (try_run_scheduled Q ?s)) (rn_timeout_key r2) = Some (?t, ?w)"
    using delay_queue.try_run_inv [OF assms(1) q(3)] armed by blast
  ultimately show ?thesis using look(1) q(1) by (auto simp: ff_declare_timed_out_def)
qed

section \<open>Timers in a list\<close>

definition list_timers :: "((nat \<times> 'v) list, 'v, nat) delay_ops" where
  "list_timers = \<lparr>dq_empty = [],
     dq_insert = (\<lambda>q v. (let k = Suc (sum_list (map fst q)) in (k, (k, v) # q))),
     dq_remove = (\<lambda>q k. if map_of q k = None then None else Some (AList.delete k q)),
     dq_lookup = map_of\<rparr>"

lemma fresh_key: "map_of q (Suc (sum_list (map fst q))) = None"
proof -
  have "k \<le> sum_list (map fst q)" if "(k, v) \<in> set q" for k v
    using that by (induction q) auto
  then show ?thesis by (force simp: map_of_eq_None_iff)
qed

interpretation list_delay: delay_queue list_timers
  by unfold_locales (auto simp: list_timers_def fresh_key Let_def AList.delete_conv')

definition example_scheduler :: "(nat, nat, unit, nat, (nat \<times> nat \<times> nat) list) scheduler" where
  "example_scheduler = the (run_commands list_timers
     [Schedule \<lparr>sc_tid = 7, sc_wid = 1, sc_data = ()\<rparr>, Schedule \<lparr>sc_tid = 7, sc_wid = 1, sc_data = ()\<rparr>,
      Schedule \<lparr>sc_tid = 7, sc_wid = 2, sc_data = ()\<rparr>] (scheduler_new list_timers 3 2))"

lemma example_scheduler_eq:
  "ff_running example_scheduler = [\<lparr>rn_tid = 7, rn_wid = 1, rn_timeout_key = 1\<rparr>, \<lparr>rn_tid = 7, rn_wid = 1, rn_timeout_key = 2\<rparr>]"
  "map launch (ff_scheduled example_scheduler) = [(7, 2, ())]"
  by code_simp+

lemma example_scheduler_reach: "sched_reach list_timers 3 2 example_scheduler"
proof (rule sched_poll [OF sched_start])
  show "poll_scheduler list_timers
     [Schedule \<lparr>sc_tid = 7, sc_wid = 1, sc_data = ()\<rparr>, Schedule \<lparr>sc_tid = 7, sc_wid = 1, sc_data = ()\<rparr>,
      Schedule \<lparr>sc_tid = 7, sc_wid = 2, sc_data = ()\<rparr>] False [] (scheduler_new list_timers 3 2) = Some (Inr (), example_scheduler)"
    by code_simp
qed

theorem scheduler_safe_witness:
  "length (ff_running example_scheduler) \<le> 3 \<and>
   poll_scheduler list_timers [DeclareCompleted 7] False [Inr 1] example_scheduler \<noteq> None"
  using scheduler_safe [OF list_delay.delay_queue_axioms example_scheduler_reach, of "[DeclareCompleted 7]" False "[Inr 1]"] by blast

theorem declare_completed_correct_witness:
  "\<exists>s'. ff_declare_completed list_timers 7 example_scheduler = Some s' \<and> (\<forall>r\<in>set (ff_running s'). rn_tid r \<noteq> 7)"
  using declare_completed_correct [OF list_delay.delay_queue_axioms example_scheduler_reach, of 7] by blast

theorem timer_ends_other_instance_witness:
  "\<exists>s'. run_expired list_timers [Inr 1] example_scheduler = (Inr (), s') \<and> 2 \<notin> rn_timeout_key ` set (ff_running s') \<and>
     dq_lookup list_timers (ff_timeouts s') 2 = Some (7, 1)"
  using timer_ends_other_instance [OF list_delay.delay_queue_axioms example_scheduler_reach,
      of "\<lparr>rn_tid = 7, rn_wid = 1, rn_timeout_key = 1\<rparr>" "\<lparr>rn_tid = 7, rn_wid = 1, rn_timeout_key = 2\<rparr>"]
  by (simp add: example_scheduler_eq)

end
