(* ===== verification/Blockchain_Process.thy ===== *)
theory Blockchain_Process
  imports Header_Candidate Tip_Update Fire_Forget
begin

text \<open>
  The blockchain task, \<^verbatim>\<open>jormungandr/src/blockchain/process.rs\<close>: blocks from the leadership task, block
  announcements, streams of blocks and streams of headers from the network, and the garbage collection.

  The state \<open>block_process\<close> holds the blockchain, the tip and the mailboxes: the candidates for the tip updater, the
  requests for the network task, the blocks for the watchers, the commands of the two schedulers, and the replies given to
  the network task, where \<open>Inl\<close> carries the error code. The code spawns each handler as a
  task with a time limit; here a handler runs to its end before the next one starts.
\<close>

section \<open>Messages\<close>

datatype ('hid, 'x, 'nid) network_msg =
    PropagateBlock "('hid, 'x) header"
  | GetBlocks "'hid list"
  | GetNextBlock 'nid 'hid
  | PullHeaders 'nid "'hid list" 'hid

text \<open>The codes that \<^verbatim>\<open>intercom::Error\<close> gives its errors.\<close>

datatype net_code =
    Internal | Aborted | Canceled | FailedPrecondition | InvalidArgument | NotFound | Unimplemented | Unavailable

type_synonym reply = "(net_code, unit) result"

datatype ('hid, 'x, 'f, 'q, 'own, 'nid) block_msg_kind =
    LeadershipBlock 'own
  | AnnouncedBlock "('hid, 'x) header" 'nid
  | NetworkBlocks "('hid, 'x, 'f, 'q) block list"
  | ChainHeaders "('hid, 'x) header list"

record ('n, 'r, 'hid, 'x, 'b, 'nid) block_process =
  bp_blockchain :: 'n
  bp_blockchain_tip :: 'r
  bp_block_recv_cnt :: nat
  bp_network_msgbox :: "('hid, 'x, 'nid) network_msg mailbox"
  bp_watch_msgbox :: "(('hid, 'x) header, 'b) watch_msg mailbox"
  bp_tip_update_mbox :: "'r mailbox"
  bp_pull_headers_scheduler :: "('hid, 'nid, 'hid list) sched_command mailbox"
  bp_get_next_block_scheduler :: "('hid, 'nid, unit) sched_command mailbox"
  bp_replies :: "reply list"

type_synonym ('c, 'mv, 's, 'hid, 'x, 'f, 'q, 'lg, 'ld, 'tf, 'rw, 'nid) process_state =
  "(('c, 'mv, 's, 'hid) node_chain, ('hid, 'x, 'lg, 'ld, 'tf, 'rw) noderef, 'hid, 'x, ('hid, 'x, 'f, 'q) block, 'nid) block_process"

type_synonym ('c, 'mv, 's, 'hid, 'x, 'f, 'q, 'lg, 'ld, 'tf, 'rw, 'nid, 'e, 'io, 'a) process_action =
  "(('c, 'mv, 's, 'hid, 'x, 'f, 'q, 'lg, 'ld, 'tf, 'rw, 'nid) process_state, ('hid, 'e, 'io) chain_error, 'a) action"

definition on_blockchain :: "('n, 'e, 'a) action \<Rightarrow> (('n, 'r, 'hid, 'x, 'b, 'nid) block_process, 'e, 'a) action" where
  "on_blockchain m = act_focus bp_blockchain (\<lambda>n. bp_blockchain_update (\<lambda>_. n)) m"

definition send_reply :: "reply \<Rightarrow> (('n, 'r, 'hid, 'x, 'b, 'nid) block_process, 'e, unit) action" where
  "send_reply r = act_modify (bp_replies_update (\<lambda>rs. rs @ [r]))"

section \<open>Errors\<close>

fun network_block_error_into_reply :: "('hid, 'e, 'io) chain_error \<Rightarrow> net_code" where
  "network_block_error_into_reply (Storage _) = Internal"
| "network_block_error_into_reply (LedgerError _) = FailedPrecondition"
| "network_block_error_into_reply (Block0 _) = Internal"
| "network_block_error_into_reply (MissingParentBlock _) = FailedPrecondition"
| "network_block_error_into_reply (BlockHeaderVerificationFailed _) = InvalidArgument"
| "network_block_error_into_reply _ = Internal"

fun chain_header_error_into_reply :: "('hid, 'e, 'io) candidate_error \<Rightarrow> net_code" where
  "chain_header_error_into_reply (CandidateBlockchain _) = Internal"
| "chain_header_error_into_reply EmptyHeaderStream = InvalidArgument"
| "chain_header_error_into_reply (CandidateMissingParent _) = FailedPrecondition"
| "chain_header_error_into_reply (BrokenHeaderChain _) = InvalidArgument"
| "chain_header_error_into_reply (HeaderChainVerificationFailed _) = InvalidArgument"

section \<open>The schedulers of requests\<close>

text \<open>
  The two schedulers of the task, with the capacity of the vector of running tasks, which is
  at least \<^verbatim>\<open>max_running\<close>, and their launchers, which send a request to the network task and log a failure.
\<close>

record scheduler_config =
  cf_max_running :: nat
  cf_max_running_same_task :: nat
  cf_command_channel_size :: nat
  cf_timeout_millis :: nat

definition pull_headers_scheduler_config :: scheduler_config where
  "pull_headers_scheduler_config = \<lparr>cf_max_running = 16, cf_max_running_same_task = 2, cf_command_channel_size = 1024,
     cf_timeout_millis = 500\<rparr>"

definition get_next_block_scheduler_config :: scheduler_config where
  "get_next_block_scheduler_config = \<lparr>cf_max_running = 16, cf_max_running_same_task = 2, cf_command_channel_size = 1024,
     cf_timeout_millis = 500\<rparr>"

fun pull_headers_launcher :: "'hid \<times> 'nid \<times> 'hid list \<Rightarrow> ('hid, 'x, 'nid) network_msg mailbox \<Rightarrow> ('hid, 'x, 'nid) network_msg mailbox" where
  "pull_headers_launcher (to, node_id, from) network_mbox = snd (mb_try_send (PullHeaders node_id from to) network_mbox)"

fun get_next_block_launcher :: "'hid \<times> 'nid \<times> unit \<Rightarrow> ('hid, 'x, 'nid) network_msg mailbox \<Rightarrow> ('hid, 'x, 'nid) network_msg mailbox" where
  "get_next_block_launcher (header_id, node_id, u) network_mbox = snd (mb_try_send (GetNextBlock node_id header_id) network_mbox)"

section \<open>Handlers\<close>

definition process_and_propagate_new_ref ::
  "('hid, 'x, 'lg, 'ld, 'tf, 'rw) noderef
    \<Rightarrow> ('c, 'mv, 's, 'hid, 'x, 'f, 'q, 'lg, 'ld, 'tf, 'rw, 'nid, 'e, 'io, unit) process_action" where
  "process_and_propagate_new_ref new_block_ref =
     act_bind (act_send_or_log bp_tip_update_mbox bp_tip_update_mbox_update new_block_ref) (\<lambda>_.
     act_send bp_network_msgbox bp_network_msgbox_update SendError (PropagateBlock (ref_header new_block_ref)))"

text \<open>\<open>act_unwrap\<close> is the \<^verbatim>\<open>expect\<close> that the block is new.\<close>

definition process_leadership_block_inner ::
  "('hid, 'x, 'f, 'q, 'lg, 'ld, 'e, 'tf, 'rw, 'mv) node_ops \<Rightarrow> ('c, 'hid, 'x, 'lg, 'ld, 'tf, 'rw) ref_cache_ops
    \<Rightarrow> ('s, 'hid, 'x, 'f, 'q, 'io) store_ops \<Rightarrow> ('hid, 'x, 'f, 'q, 'lg, 'ld, 'tf, 'rw) own_block
    \<Rightarrow> (('c, 'mv, 's, 'hid) node_chain, ('hid, 'e, 'io) chain_error, ('hid, 'x, 'lg, 'ld, 'tf, 'rw) noderef) action" where
  "process_leadership_block_inner N L S lb =
     act_bind (apply_and_store_leadership_block N L S lb) (\<lambda>applied. act_unwrap (applied_new_ref applied))"

definition process_leadership_block ::
  "('hid, 'x, 'f, 'q, 'lg, 'ld, 'e, 'tf, 'rw, 'mv) node_ops \<Rightarrow> ('c, 'hid, 'x, 'lg, 'ld, 'tf, 'rw) ref_cache_ops
    \<Rightarrow> ('s, 'hid, 'x, 'f, 'q, 'io) store_ops \<Rightarrow> ('hid, 'x, 'f, 'q, 'lg, 'ld, 'tf, 'rw) own_block
    \<Rightarrow> ('c, 'mv, 's, 'hid, 'x, 'f, 'q, 'lg, 'ld, 'tf, 'rw, 'nid, 'e, 'io, unit) process_action" where
  "process_leadership_block N L S lb =
     act_bind (on_blockchain (process_leadership_block_inner N L S lb)) (\<lambda>new_block_ref.
     act_bind (act_send bp_watch_msgbox bp_watch_msgbox_update SendError (WatchNewBlock (lb_block lb))) (\<lambda>_.
     process_and_propagate_new_ref new_block_ref))"

definition process_block_announcement ::
  "('hid, 'x, 'f, 'q, 'lg, 'ld, 'e, 'tf, 'rw, 'mv) node_ops \<Rightarrow> ('c, 'hid, 'x, 'lg, 'ld, 'tf, 'rw) ref_cache_ops
    \<Rightarrow> ('s, 'hid, 'x, 'f, 'q, 'io) store_ops \<Rightarrow> ('hid, 'x) header \<Rightarrow> 'nid
    \<Rightarrow> ('c, 'mv, 's, 'hid, 'x, 'f, 'q, 'lg, 'ld, 'tf, 'rw, 'nid, 'e, 'io, unit) process_action" where
  "process_block_announcement N L S header node_id =
     act_bind (on_blockchain (pre_check_header N L S header False)) (\<lambda>pre_checked.
       case pre_checked of
         AlreadyPresent _ _ \<Rightarrow> act_return ()
       | MissingParentOf header \<Rightarrow>
           act_bind act_get (\<lambda>s.
           act_send_or_log bp_pull_headers_scheduler bp_pull_headers_scheduler_update
             (Schedule \<lparr>sc_tid = h_hash header, sc_wid = node_id, sc_data = node_checkpoints N (bp_blockchain_tip s)\<rparr>))
       | HeaderWithCache header _ \<Rightarrow>
           act_send_or_log bp_get_next_block_scheduler bp_get_next_block_scheduler_update
             (Schedule \<lparr>sc_tid = h_hash header, sc_wid = node_id, sc_data = ()\<rparr>))"

definition check_and_apply_block ::
  "('hid, 'x, 'f, 'q, 'lg, 'ld, 'e, 'tf, 'rw, 'mv) node_ops \<Rightarrow> ('c, 'hid, 'x, 'lg, 'ld, 'tf, 'rw) ref_cache_ops
    \<Rightarrow> ('s, 'hid, 'x, 'f, 'q, 'io) store_ops \<Rightarrow> ('hid, 'x, 'lg, 'ld, 'tf, 'rw) noderef \<Rightarrow> ('hid, 'x, 'f, 'q) block
    \<Rightarrow> ('c, 'mv, 's, 'hid, 'x, 'f, 'q, 'lg, 'ld, 'tf, 'rw, 'nid, 'e, 'io, ('hid, 'x, 'lg, 'ld, 'tf, 'rw) noderef option) process_action" where
  "check_and_apply_block N L S parent_ref block =
     act_bind (on_blockchain (act_bind (post_check_header N (b_header block) parent_ref Enabled) (\<lambda>pc.
                 apply_and_store_block N L S pc block))) (\<lambda>applied_block.
       case applied_block of
         NewBlock block_ref \<Rightarrow>
           act_bind (act_send_or_log bp_watch_msgbox bp_watch_msgbox_update (WatchNewBlock block)) (\<lambda>_.
           act_return (Some block_ref))
       | ExistingBlock _ \<Rightarrow> act_return None)"

definition process_network_block ::
  "('hid, 'x, 'f, 'q, 'lg, 'ld, 'e, 'tf, 'rw, 'mv) node_ops \<Rightarrow> ('c, 'hid, 'x, 'lg, 'ld, 'tf, 'rw) ref_cache_ops
    \<Rightarrow> ('s, 'hid, 'x, 'f, 'q, 'io) store_ops \<Rightarrow> ('hid, 'x, 'f, 'q) block
    \<Rightarrow> ('c, 'mv, 's, 'hid, 'x, 'f, 'q, 'lg, 'ld, 'tf, 'rw, 'nid, 'e, 'io, ('hid, 'x, 'lg, 'ld, 'tf, 'rw) noderef option) process_action" where
  "process_network_block N L S block =
     act_bind (act_send_or_log bp_get_next_block_scheduler bp_get_next_block_scheduler_update
                 (DeclareCompleted (h_hash (b_header block)))) (\<lambda>_.
     act_bind (on_blockchain (pre_check_header N L S (b_header block) False)) (\<lambda>pre_checked.
       case pre_checked of
         AlreadyPresent _ _ \<Rightarrow> act_return None
       | MissingParentOf header \<Rightarrow> act_throw (MissingParentBlock (h_block_parent_hash header))
       | HeaderWithCache _ parent_ref \<Rightarrow> check_and_apply_block N L S parent_ref block))"

text \<open>The loop of \<^verbatim>\<open>process_network_blocks\<close>: the last block that was applied, if any.\<close>

fun network_blocks_loop ::
  "('hid, 'x, 'f, 'q, 'lg, 'ld, 'e, 'tf, 'rw, 'mv) node_ops \<Rightarrow> ('c, 'hid, 'x, 'lg, 'ld, 'tf, 'rw) ref_cache_ops
    \<Rightarrow> ('s, 'hid, 'x, 'f, 'q, 'io) store_ops \<Rightarrow> ('hid, 'x, 'lg, 'ld, 'tf, 'rw) noderef option \<Rightarrow> ('hid, 'x, 'f, 'q) block list
    \<Rightarrow> ('c, 'mv, 's, 'hid, 'x, 'f, 'q, 'lg, 'ld, 'tf, 'rw, 'nid, 'e, 'io, ('hid, 'x, 'lg, 'ld, 'tf, 'rw) noderef option) process_action" where
  "network_blocks_loop N L S candidate [] = act_bind (send_reply (Inr ())) (\<lambda>_. act_return candidate)"
| "network_blocks_loop N L S candidate (block # stream) = (\<lambda>s.
     case process_network_block N L S block s of
       None \<Rightarrow> None
     | Some (Inr (Some r), s1) \<Rightarrow>
         network_blocks_loop N L S (Some r) stream (s1\<lparr>bp_block_recv_cnt := bp_block_recv_cnt s1 + 1\<rparr>)
     | Some (Inr None, s1) \<Rightarrow> act_bind (send_reply (Inr ())) (\<lambda>_. act_return candidate) s1
     | Some (Inl e, s1) \<Rightarrow> act_bind (send_reply (Inl (network_block_error_into_reply e))) (\<lambda>_. act_return candidate) s1)"

definition process_network_blocks ::
  "('hid, 'x, 'f, 'q, 'lg, 'ld, 'e, 'tf, 'rw, 'mv) node_ops \<Rightarrow> ('c, 'hid, 'x, 'lg, 'ld, 'tf, 'rw) ref_cache_ops
    \<Rightarrow> ('s, 'hid, 'x, 'f, 'q, 'io) store_ops \<Rightarrow> ('hid, 'x, 'f, 'q) block list
    \<Rightarrow> ('c, 'mv, 's, 'hid, 'x, 'f, 'q, 'lg, 'ld, 'tf, 'rw, 'nid, 'e, 'io, unit) process_action" where
  "process_network_blocks N L S stream =
     act_bind (network_blocks_loop N L S None stream) (\<lambda>maybe_updated.
       case maybe_updated of
         Some new_block_ref \<Rightarrow> process_and_propagate_new_ref new_block_ref
       | None \<Rightarrow> act_return ())"

text \<open>\<^verbatim>\<open>try_for_each\<close> over the completed headers stops at the first command that cannot be sent.\<close>

fun declare_headers_completed ::
  "'hid list \<Rightarrow> ('n, 'r, 'hid, 'x, 'b, 'nid) block_process \<Rightarrow> ('n, 'r, 'hid, 'x, 'b, 'nid) block_process" where
  "declare_headers_completed [] s = s"
| "declare_headers_completed (h # hs) s =
     (let (ok, mbox) = mb_try_send (DeclareCompleted h) (bp_pull_headers_scheduler s);
          s = s\<lparr>bp_pull_headers_scheduler := mbox\<rparr>
      in if ok then declare_headers_completed hs s else s)"

text \<open>A request that the network task does not accept is a panic (\<^verbatim>\<open>unwrap\<close>).\<close>

definition process_chain_headers ::
  "('hid, 'x, 'f, 'q, 'lg, 'ld, 'e, 'tf, 'rw, 'mv) node_ops \<Rightarrow> ('c, 'hid, 'x, 'lg, 'ld, 'tf, 'rw) ref_cache_ops
    \<Rightarrow> ('s, 'hid, 'x, 'f, 'q, 'io) store_ops \<Rightarrow> ('hid, 'x) header list
    \<Rightarrow> ('c, 'mv, 's, 'hid, 'x, 'f, 'q, 'lg, 'ld, 'tf, 'rw, 'nid, 'e, 'io, unit) process_action" where
  "process_chain_headers N L S stream s =
     (case advance_branch N L S stream (bp_blockchain s) of
        None \<Rightarrow> None
      | Some (Inl e, n) \<Rightarrow> send_reply (Inl (chain_header_error_into_reply e)) (s\<lparr>bp_blockchain := n\<rparr>)
      | Some (Inr (header_ids, _), n) \<Rightarrow>
          (let s = declare_headers_completed header_ids (s\<lparr>bp_blockchain := n\<rparr>) in
           if header_ids \<noteq> []
           then let (ok, mbox) = mb_try_send (GetBlocks header_ids) (bp_network_msgbox s);
                    s = s\<lparr>bp_network_msgbox := mbox\<rparr>
                in if ok then send_reply (Inr ()) s else None
           else Some (Inr (), s)))"

definition blockchain_gc ::
  "('hid, 'x, 'f, 'q, 'lg, 'ld, 'e, 'tf, 'rw, 'mv) node_ops \<Rightarrow> ('s, 'hid, 'x, 'f, 'q, 'io) store_ops
    \<Rightarrow> ('c, 'mv, 's, 'hid, 'x, 'f, 'q, 'lg, 'ld, 'tf, 'rw, 'nid, 'e, 'io, unit) process_action" where
  "blockchain_gc N S = act_bind act_get (\<lambda>s. on_blockchain (node_gc N S (bp_blockchain_tip s)))"

fun handle_input ::
  "('hid, 'x, 'f, 'q, 'lg, 'ld, 'e, 'tf, 'rw, 'mv) node_ops \<Rightarrow> ('c, 'hid, 'x, 'lg, 'ld, 'tf, 'rw) ref_cache_ops
    \<Rightarrow> ('s, 'hid, 'x, 'f, 'q, 'io) store_ops
    \<Rightarrow> ('hid, 'x, 'f, 'q, ('hid, 'x, 'f, 'q, 'lg, 'ld, 'tf, 'rw) own_block, 'nid) block_msg_kind
    \<Rightarrow> ('c, 'mv, 's, 'hid, 'x, 'f, 'q, 'lg, 'ld, 'tf, 'rw, 'nid, 'e, 'io, unit) process_action" where
  "handle_input N L S (LeadershipBlock lb) = process_leadership_block N L S lb"
| "handle_input N L S (AnnouncedBlock header node_id) = process_block_announcement N L S header node_id"
| "handle_input N L S (NetworkBlocks stream) = process_network_blocks N L S stream"
| "handle_input N L S (ChainHeaders stream) = process_chain_headers N L S stream"

section \<open>The invariant\<close>

text \<open>
  The cached references have valid histories, so have the candidates handed to the tip updater, and only headers of such
  references are propagated to the network.
\<close>

definition sound_request ::
  "('hid, 'x, 'f, 'q, 'lg, 'ld, 'e, 'tf, 'rw, 'mv) node_ops \<Rightarrow> ('hid, 'x, 'nid) network_msg \<Rightarrow> bool" where
  "sound_request N m \<longleftrightarrow> (case m of PropagateBlock h \<Rightarrow> (\<exists>r. valid_ref N r \<and> ref_header r = h) | _ \<Rightarrow> True)"

definition process_inv ::
  "('hid, 'x, 'f, 'q, 'lg, 'ld, 'e, 'tf, 'rw, 'mv) node_ops \<Rightarrow> ('c, 'hid, 'x, 'lg, 'ld, 'tf, 'rw) ref_cache_ops
    \<Rightarrow> ('c, 'mv, 's, 'hid, 'x, 'f, 'q, 'lg, 'ld, 'tf, 'rw, 'nid) process_state \<Rightarrow> bool" where
  "process_inv N L s \<longleftrightarrow> node_inv N L (bp_blockchain s) \<and>
     (\<forall>r\<in>set (mb_sent (bp_tip_update_mbox s)). valid_ref N r) \<and>
     (\<forall>m\<in>set (mb_sent (bp_network_msgbox s)). sound_request N m)"

lemma set_try_send: "set (mb_sent (snd (mb_try_send m mb))) \<subseteq> insert m (set (mb_sent mb))"
  by (auto simp: mb_try_send_sent split: if_splits)

lemma inv_send_tip:
  assumes "valid_ref N r"
  shows "keeps (process_inv N L) (act_send_or_log bp_tip_update_mbox bp_tip_update_mbox_update r)"
  unfolding act_send_or_log_def
  using assms set_try_send [of r] by (intro keeps_modify) (fastforce simp: process_inv_def)

lemma inv_send_network:
  assumes "sound_request N m"
  shows "keeps (process_inv N L) (act_send bp_network_msgbox bp_network_msgbox_update e m)"
  unfolding keeps_def act_send_def
  using assms set_try_send [of m] by (fastforce simp: process_inv_def case_prod_beta Let_def)

lemma inv_send_watch:
  "keeps (process_inv N L) (act_send bp_watch_msgbox bp_watch_msgbox_update e m)"
  "keeps (process_inv N L) (act_send_or_log bp_watch_msgbox bp_watch_msgbox_update m)"
  by (auto simp: keeps_def act_send_def act_send_or_log_def process_inv_def case_prod_beta Let_def)

lemma inv_send_commands:
  "keeps (process_inv N L) (act_send_or_log bp_pull_headers_scheduler bp_pull_headers_scheduler_update c)"
  "keeps (process_inv N L) (act_send_or_log bp_get_next_block_scheduler bp_get_next_block_scheduler_update c')"
  by (auto simp: keeps_def act_send_or_log_def process_inv_def)

lemma inv_reply: "keeps (process_inv N L) (send_reply r)"
  unfolding send_reply_def by (rule keeps_modify) (simp add: process_inv_def)

lemma inv_on_blockchain:
  assumes "yields (node_inv N L) Q m"
  shows "yields (process_inv N L) Q (on_blockchain m)"
proof (rule yieldsI)
  fix s r s' assume inv: "process_inv N L s" and "on_blockchain m s = Some (r, s')"
  then obtain n where run: "m (bp_blockchain s) = Some (r, n)" "s' = s\<lparr>bp_blockchain := n\<rparr>"
    by (auto simp: on_blockchain_def act_focus_def)
  show "process_inv N L s' \<and> (\<forall>x. r = Inr x \<longrightarrow> Q x)"
    using yieldsD [OF assms _ run(1)] inv by (simp add: run(2) process_inv_def)
qed

lemma propagate_keeps:
  assumes "valid_ref N r"
  shows "keeps (process_inv N L) (process_and_propagate_new_ref r)"
  unfolding process_and_propagate_new_ref_def using assms
  by (intro keeps_bind inv_send_tip inv_send_network) (auto simp: sound_request_def)

lemma propagate_yields: "valid_ref N r \<Longrightarrow> yields (process_inv N L) (\<lambda>_. True) (process_and_propagate_new_ref r)"
  by (rule keeps_yields [OF propagate_keeps])

lemma declare_headers_shape: "\<exists>mbox. declare_headers_completed hs s = s\<lparr>bp_pull_headers_scheduler := mbox\<rparr>"
proof (induction hs arbitrary: s)
  case Nil
  show ?case by (rule exI [of _ "bp_pull_headers_scheduler s"]) simp
next
  case (Cons h hs)
  obtain ok mb where send: "mb_try_send (DeclareCompleted h) (bp_pull_headers_scheduler s) = (ok, mb)" by (rule prod.exhaust)
  obtain mb' where "declare_headers_completed hs (s\<lparr>bp_pull_headers_scheduler := mb\<rparr>) = s\<lparr>bp_pull_headers_scheduler := mb'\<rparr>"
    using Cons.IH [of "s\<lparr>bp_pull_headers_scheduler := mb\<rparr>"] by auto
  then show ?case by (auto simp: send Let_def)
qed

lemma declare_headers_inv:
  assumes "process_inv N L s"
  shows "process_inv N L (declare_headers_completed hs s)"
proof -
  obtain mbox where "declare_headers_completed hs s = s\<lparr>bp_pull_headers_scheduler := mbox\<rparr>"
    using declare_headers_shape by blast
  then show ?thesis using assms by (simp add: process_inv_def)
qed

context node_refs
begin

lemma pre_check_yields:
  "yields (node_inv N L) (\<lambda>pre. case pre of
      HeaderWithCache h p \<Rightarrow> h = header \<and> pre_verify_link N header (ref_header p) = Some (Inr ()) \<and> valid_ref N p
    | _ \<Rightarrow> True) (pre_check_header N L S header force)"
proof (rule yieldsI)
  fix s r s' assume inv: "node_inv N L s" and run: "pre_check_header N L S header force s = Some (r, s')"
  have "node_inv N L s'" by (rule keepsD [OF pre_check_keeps inv run])
  moreover have "case pre of
      HeaderWithCache h p \<Rightarrow> h = header \<and> pre_verify_link N header (ref_header p) = Some (Inr ()) \<and> valid_ref N p
    | _ \<Rightarrow> True" if "r = Inr pre" for pre
    using run that by (cases pre) (auto dest: pre_check_with_cache [OF inv])
  ultimately show "node_inv N L s' \<and> (\<forall>pre. r = Inr pre \<longrightarrow> (case pre of
      HeaderWithCache h p \<Rightarrow> h = header \<and> pre_verify_link N header (ref_header p) = Some (Inr ()) \<and> valid_ref N p
    | _ \<Rightarrow> True))" by blast
qed

lemma checked_apply_yields:
  assumes "pre_verify_link N (b_header block) (ref_header p) = Some (Inr ())" and "valid_ref N p"
  shows "yields (node_inv N L) (\<lambda>a. valid_ref N (cached_ref a))
    (act_bind (post_check_header N (b_header block) p check_proof) (\<lambda>pc. apply_and_store_block N L S pc block))"
proof (rule yieldsI)
  fix s r s'
  assume inv: "node_inv N L s" and run: "act_bind (post_check_header N (b_header block) p check_proof)
      (\<lambda>pc. apply_and_store_block N L S pc block) s = Some (r, s')"
  have bind: "act_bind (apply_and_store_block N L S pc block) act_return = apply_and_store_block N L S pc block" for pc
    by (rule ext) (simp add: act_bind_def split: option.splits prod.splits sum.splits)
  have "keeps (node_inv N L) (act_bind (post_check_header N (b_header block) p check_proof) (\<lambda>pc.
     act_bind (apply_and_store_block N L S pc block) act_return))"
    by (rule checked_apply_keeps [OF assms]) (rule keeps_rules)
  from keepsD [OF this inv] run have "node_inv N L s'" unfolding bind by blast
  moreover have "valid_ref N (cached_ref a)" if ret: "r = Inr a" for a
  proof -
    obtain el where el: "new_epoch_leadership_from N (epoch (h_block_date (b_header block))) p (nc_rewards_report_all s) = Some el"
        "apply_and_store_block N L S (post_checked (b_header block) el) block s = Some (Inr a, s')"
      using run ret by (auto simp: post_check_bind split: option.splits if_splits)
    have "valid_ref N (applied_ref (b_header block) el lg)" for lg
      by (rule valid_ref_extend [OF assms(2) applied_ref_extends [OF assms(1) valid_ref_hash [OF assms(2)] el(1)]])
    with el(2) show ?thesis by (auto simp: apply_store_Inr store_finalize_Inr)
  qed
  ultimately show "node_inv N L s' \<and> (\<forall>a. r = Inr a \<longrightarrow> valid_ref N (cached_ref a))" by blast
qed

lemma own_block_yields:
  assumes "valid_ref N p" and "pre_verify_link N (b_header (lb_block lb)) (ref_header p) = Some (Inr ())"
    and "new_epoch_leadership_from N (epoch (h_block_date (b_header (lb_block lb)))) p all = Some (lb_leadership lb)"
  shows "yields (node_inv N L) (valid_ref N) (process_leadership_block_inner N L S lb)"
proof (rule yieldsI)
  fix s r s'
  assume inv: "node_inv N L s" and run: "process_leadership_block_inner N L S lb s = Some (r, s')"
  have keep: "keeps (node_inv N L) (process_leadership_block_inner N L S lb)"
    unfolding process_leadership_block_inner_def by (intro keeps_rules own_block_keeps [OF assms])
  have "node_inv N L s'" by (rule keepsD [OF keep inv run])
  moreover have "valid_ref N x" if "r = Inr x" for x
  proof -
    have "valid_ref N (applied_ref (b_header (lb_block lb)) (lb_leadership lb) lg)" for lg
      by (rule valid_ref_extend [OF assms(1) applied_ref_extends [OF assms(2) valid_ref_hash [OF assms(1)] assms(3)]])
    then show ?thesis
      using run that
      by (auto simp: process_leadership_block_inner_def apply_and_store_leadership_block_def Let_def act_bind_Inr
          store_finalize_Inr act_unwrap_def split: option.splits)
  qed
  ultimately show "node_inv N L s' \<and> (\<forall>x. r = Inr x \<longrightarrow> valid_ref N x)" by blast
qed

end

section \<open>The handlers keep the invariant\<close>

definition sound_candidate ::
  "('hid, 'x, 'f, 'q, 'lg, 'ld, 'e, 'tf, 'rw, 'mv) node_ops \<Rightarrow> ('hid, 'x, 'lg, 'ld, 'tf, 'rw) noderef option \<Rightarrow> bool" where
  "sound_candidate N c \<longleftrightarrow> (\<forall>r. c = Some r \<longrightarrow> valid_ref N r)"

lemma sound_candidate_simps [simp]: "sound_candidate N None" "sound_candidate N (Some r) \<longleftrightarrow> valid_ref N r"
  by (simp_all add: sound_candidate_def)

context node_refs
begin

lemma announcement_keeps: "keeps (process_inv N L) (process_block_announcement N L S header node_id)"
  unfolding process_block_announcement_def
  by (intro keeps_bind keeps_pre_checked keeps_rules inv_send_commands yields_keeps [OF inv_on_blockchain [OF pre_check_yields]])

lemma check_and_apply_yields:
  assumes "pre_verify_link N (b_header block) (ref_header p) = Some (Inr ())" and "valid_ref N p"
  shows "yields (process_inv N L) (sound_candidate N) (check_and_apply_block N L S p block)"
  unfolding check_and_apply_block_def
proof (rule yields_bind [OF inv_on_blockchain [OF checked_apply_yields [OF assms]]])
  fix a :: "('hid, 'x, 'lg, 'ld, 'tf, 'rw) noderef applied_block"
  assume valid: "valid_ref N (cached_ref a)"
  show "yields (process_inv N L) (sound_candidate N)
      (case a of
         NewBlock block_ref \<Rightarrow>
           act_bind (act_send_or_log bp_watch_msgbox bp_watch_msgbox_update (WatchNewBlock block)) (\<lambda>_. act_return (Some block_ref))
       | ExistingBlock _ \<Rightarrow> act_return None)"
  proof (cases a)
    case (NewBlock r)
    then show ?thesis
      using valid by (auto intro!: yields_bind [OF keeps_yields [OF inv_send_watch(2)]] yields_return)
  next
    case (ExistingBlock r)
    then show ?thesis by (auto intro: yields_return)
  qed
qed

lemma network_block_yields: "yields (process_inv N L) (sound_candidate N) (process_network_block N L S block)"
  unfolding process_network_block_def
proof (rule yields_bind [OF keeps_yields [OF inv_send_commands(2)]],
    rule yields_bind [OF inv_on_blockchain [OF pre_check_yields]])
  fix pre :: "(('hid, 'x) header, ('hid, 'x, 'lg, 'ld, 'tf, 'rw) noderef) pre_checked_header"
  assume "case pre of
      HeaderWithCache h p \<Rightarrow> h = b_header block \<and> pre_verify_link N (b_header block) (ref_header p) = Some (Inr ()) \<and> valid_ref N p
    | _ \<Rightarrow> True"
  then show "yields (process_inv N L) (sound_candidate N)
      (case pre of
         AlreadyPresent _ _ \<Rightarrow> act_return None
       | MissingParentOf header \<Rightarrow> act_throw (MissingParentBlock (h_block_parent_hash header))
       | HeaderWithCache _ parent_ref \<Rightarrow> check_and_apply_block N L S parent_ref block)"
    by (cases pre) (auto intro: yields_return yields_throw check_and_apply_yields)
qed

lemma loop_end_yields:
  "sound_candidate N c \<Longrightarrow> yields (process_inv N L) (sound_candidate N) (act_bind (send_reply r) (\<lambda>_. act_return c))"
  by (rule yields_bind [OF keeps_yields [OF inv_reply]]) (rule yields_return)

lemma loop_yields:
  fixes S :: "('s, 'hid, 'x, 'f, 'q, 'io) store_ops"
    and I :: "('c, 'mv, 's, 'hid, 'x, 'f, 'q, 'lg, 'ld, 'tf, 'rw, 'nid) process_state \<Rightarrow> bool"
  defines "I \<equiv> process_inv N L"
  shows "sound_candidate N c \<Longrightarrow> yields I (sound_candidate N) (network_blocks_loop N L S c stream)"
  unfolding I_def
proof (induction stream arbitrary: c)
  case Nil
  then show ?case unfolding network_blocks_loop.simps by (rule loop_end_yields)
next
  case (Cons block stream)
  show ?case
  proof (rule yieldsI)
    fix s s' :: "('c, 'mv, 's, 'hid, 'x, 'f, 'q, 'lg, 'ld, 'tf, 'rw, 'nid) process_state" and r
    assume inv: "process_inv N L s" and run: "network_blocks_loop N L S c (block # stream) s = Some (r, s')"
    obtain res s1 where one: "process_network_block N L S block s = Some (res, s1)"
      using run by (cases "process_network_block N L S block s") auto
    have inv1: "process_inv N L s1" and sound: "\<And>c'. res = Inr c' \<Longrightarrow> sound_candidate N c'"
      using yieldsD [OF network_block_yields inv one] by auto
    show "process_inv N L s' \<and> (\<forall>x. r = Inr x \<longrightarrow> sound_candidate N x)"
    proof (cases res)
      case (Inl e)
      have "act_bind (send_reply (Inl (network_block_error_into_reply e))) (\<lambda>_. act_return c) s1 = Some (r, s')"
        using run one Inl by simp
      then show ?thesis by (rule yieldsD [OF loop_end_yields [OF Cons.prems] inv1])
    next
      case (Inr c')
      show ?thesis
      proof (cases c')
        case None
        have "act_bind (send_reply (Inr ())) (\<lambda>_. act_return c) s1 = Some (r, s')" using run one Inr None by simp
        then show ?thesis by (rule yieldsD [OF loop_end_yields [OF Cons.prems] inv1])
      next
        case (Some r')
        have rest: "network_blocks_loop N L S (Some r') stream (s1\<lparr>bp_block_recv_cnt := bp_block_recv_cnt s1 + 1\<rparr>) = Some (r, s')"
          using run one Inr Some by simp
        have inv2: "process_inv N L (s1\<lparr>bp_block_recv_cnt := bp_block_recv_cnt s1 + 1\<rparr>)"
          using inv1 by (simp add: process_inv_def)
        have "sound_candidate N (Some r')" using sound Inr Some by simp
        from yieldsD [OF Cons.IH [OF this] inv2 rest] show ?thesis .
      qed
    qed
  qed
qed

lemma network_blocks_keeps: "keeps (process_inv N L) (process_network_blocks N L S stream)"
proof -
  have "yields (process_inv N L) (\<lambda>_. True) (process_network_blocks N L S stream)"
    unfolding process_network_blocks_def
    by (rule yields_bind [OF loop_yields [of None]])
      (auto intro: propagate_yields yields_return split: option.splits simp del: act_return_simp)
  then show ?thesis by (rule yields_keeps)
qed

lemma chain_headers_keeps: "keeps (process_inv N L) (process_chain_headers N L S stream)"
proof (rule keepsI)
  fix s r s'
  assume inv: "process_inv N L s" and run: "process_chain_headers N L S stream s = Some (r, s')"
  obtain res n where adv: "advance_branch N L S stream (bp_blockchain s) = Some (res, n)"
    using run by (cases "advance_branch N L S stream (bp_blockchain s)") (auto simp: process_chain_headers_def)
  have "node_inv N L n"
    using advance_branch_spec [where s = "bp_blockchain s" and S = S and stream = stream] inv adv by (auto simp: process_inv_def split: sum.splits)
  then have inv1: "process_inv N L (s\<lparr>bp_blockchain := n\<rparr>)" using inv by (simp add: process_inv_def)
  show "process_inv N L s'"
  proof (cases res)
    case (Inl e)
    have "send_reply (Inl (chain_header_error_into_reply e)) (s\<lparr>bp_blockchain := n\<rparr>) = Some (r, s')"
      using run adv Inl by (simp add: process_chain_headers_def)
    then show ?thesis by (rule keepsD [OF inv_reply inv1])
  next
    case (Inr p)
    obtain ids rest where p: "p = (ids, rest)" by (rule prod.exhaust)
    let ?s = "declare_headers_completed ids (s\<lparr>bp_blockchain := n\<rparr>)"
    have inv2: "process_inv N L ?s" by (rule declare_headers_inv [OF inv1])
    obtain ok mb where send: "mb_try_send (GetBlocks ids) (bp_network_msgbox ?s) = (ok, mb)" by (rule prod.exhaust)
    have "process_inv N L (?s\<lparr>bp_network_msgbox := mb\<rparr>)"
      using inv2 set_try_send [of "GetBlocks ids" "bp_network_msgbox ?s"]
      by (auto simp: process_inv_def send sound_request_def)
    then show ?thesis
      using run adv Inr p inv2 send keepsD [OF inv_reply]
      by (auto simp: process_chain_headers_def Let_def split: if_splits)
  qed
qed

lemma gc_process_keeps: "keeps (process_inv N L) (blockchain_gc N S)"
  unfolding blockchain_gc_def by (intro keeps_bind keeps_get yields_keeps [OF inv_on_blockchain [OF keeps_yields [OF gc_keeps]]])

lemma leadership_keeps:
  assumes "valid_ref N p" and "pre_verify_link N (b_header (lb_block lb)) (ref_header p) = Some (Inr ())"
    and "new_epoch_leadership_from N (epoch (h_block_date (b_header (lb_block lb)))) p all = Some (lb_leadership lb)"
  shows "keeps (process_inv N L) (process_leadership_block N L S lb)"
proof -
  have "yields (process_inv N L) (\<lambda>_. True) (process_leadership_block N L S lb)"
    unfolding process_leadership_block_def
    by (rule yields_bind [OF inv_on_blockchain [OF own_block_yields [OF assms]]])
      (auto intro!: keeps_yields keeps_bind inv_send_watch propagate_keeps)
  then show ?thesis by (rule yields_keeps)
qed

end

text \<open>
  The runs of the task. A block of the leadership task was built on a cached reference; the tip
  updater moves the tip and changes tags in the storage between two steps.
\<close>

inductive process_reach ::
  "('hid, 'x, 'f, 'q, 'lg, 'ld, 'e, 'tf, 'rw, 'mv) node_ops \<Rightarrow> ('c, 'hid, 'x, 'lg, 'ld, 'tf, 'rw) ref_cache_ops
    \<Rightarrow> ('s, 'hid, 'x, 'f, 'q, 'io) store_ops
    \<Rightarrow> ('c, 'mv, 's, 'hid, 'x, 'f, 'q, 'lg, 'ld, 'tf, 'rw, 'nid) process_state \<Rightarrow> bool"
  for N L S where
  process_start: "node_reach N L S (bp_blockchain s) \<Longrightarrow> mb_sent (bp_tip_update_mbox s) = [] \<Longrightarrow>
     mb_sent (bp_network_msgbox s) = [] \<Longrightarrow> process_reach N L S s"
| process_own: "process_reach N L S s \<Longrightarrow>
     map_of (lru_iter L (nc_ref_cache (bp_blockchain s))) (h_block_parent_hash (b_header (lb_block lb))) = Some p \<Longrightarrow>
     pre_verify_link N (b_header (lb_block lb)) (ref_header p) = Some (Inr ()) \<Longrightarrow>
     new_epoch_leadership_from N (epoch (h_block_date (b_header (lb_block lb)))) p all = Some (lb_leadership lb) \<Longrightarrow>
     handle_input N L S (LeadershipBlock lb) s = Some (r, s') \<Longrightarrow> process_reach N L S s'"
| process_input: "process_reach N L S s \<Longrightarrow> (\<forall>lb. msg \<noteq> LeadershipBlock lb) \<Longrightarrow>
     handle_input N L S msg s = Some (r, s') \<Longrightarrow> process_reach N L S s'"
| process_gc: "process_reach N L S s \<Longrightarrow> blockchain_gc N S s = Some (r, s') \<Longrightarrow> process_reach N L S s'"
| process_tip: "process_reach N L S s \<Longrightarrow>
     process_reach N L S (s\<lparr>bp_blockchain_tip := tip, bp_blockchain := (bp_blockchain s)\<lparr>nc_storage := st\<rparr>\<rparr>)"

context node_refs
begin

lemma process_reach_inv: "process_reach N L S s \<Longrightarrow> process_inv N L s"
proof (induction rule: process_reach.induct)
  case (process_start s)
  then show ?case using reach_inv by (simp add: process_inv_def)
next
  case (process_own s lb p all r s')
  have "valid_ref N p" using cached_valid process_own(2,6) by (auto simp: process_inv_def)
  from keepsD [OF leadership_keeps [OF this process_own(3,4)] process_own(6)] process_own(5) show ?case by simp
next
  case (process_input s msg r s')
  show ?case
  proof (cases msg)
    case (LeadershipBlock lb)
    then show ?thesis using process_input(2) by simp
  next
    case (AnnouncedBlock header node_id)
    from keepsD [OF announcement_keeps process_input(4)] process_input(3) AnnouncedBlock show ?thesis by simp
  next
    case (NetworkBlocks stream)
    from keepsD [OF network_blocks_keeps process_input(4)] process_input(3) NetworkBlocks show ?thesis by simp
  next
    case (ChainHeaders stream)
    from keepsD [OF chain_headers_keeps process_input(4)] process_input(3) ChainHeaders show ?thesis by simp
  qed
next
  case (process_gc s r s')
  show ?case by (rule keepsD [OF gc_process_keeps process_gc(3,2)])
next
  case (process_tip s tip st)
  then show ?case by (simp add: process_inv_def node_inv_def)
qed

end

section \<open>Streams of blocks\<close>

text \<open>How a stream was consumed: the references of the leading blocks that were applied, and the reply.\<close>

definition consumed ::
  "('hid, 'x, 'f, 'q) block list \<Rightarrow> ('hid, 'x, 'lg, 'ld, 'tf, 'rw) noderef list \<Rightarrow> reply
    \<Rightarrow> ('c, 'mv, 's, 'hid, 'x, 'f, 'q, 'lg, 'ld, 'tf, 'rw, 'nid) process_state
    \<Rightarrow> ('c, 'mv, 's, 'hid, 'x, 'f, 'q, 'lg, 'ld, 'tf, 'rw, 'nid) process_state \<Rightarrow> bool" where
  "consumed stream rs reply s s' \<longleftrightarrow>
     length rs \<le> length stream \<and> map ref_header rs = map b_header (take (length rs) stream) \<and>
     (length rs = length stream \<longrightarrow> reply = Inr ()) \<and>
     bp_replies s' = bp_replies s @ [reply] \<and> bp_block_recv_cnt s' = bp_block_recv_cnt s + length rs \<and>
     bp_tip_update_mbox s' = bp_tip_update_mbox s \<and> bp_network_msgbox s' = bp_network_msgbox s"

lemma keeps_true: "keeps (\<lambda>_. True) m"
  by (simp add: keeps_def)

lemma on_blockchain_Some:
  "on_blockchain m s = Some (r, s') \<longleftrightarrow> (\<exists>n. m (bp_blockchain s) = Some (r, n) \<and> s' = s\<lparr>bp_blockchain := n\<rparr>)"
  by (auto simp: on_blockchain_def act_focus_def)

text \<open>What the processing of one block leaves alone.\<close>

definition same_outputs ::
  "('n, 'r, 'hid, 'x, 'b, 'nid) block_process \<Rightarrow> ('n, 'r, 'hid, 'x, 'b, 'nid) block_process \<Rightarrow> bool" where
  "same_outputs s s' \<longleftrightarrow> bp_replies s' = bp_replies s \<and> bp_block_recv_cnt s' = bp_block_recv_cnt s \<and>
     bp_tip_update_mbox s' = bp_tip_update_mbox s \<and> bp_network_msgbox s' = bp_network_msgbox s"

lemma same_outputs_keeps:
  "keeps (same_outputs s0) (on_blockchain m)"
  "keeps (same_outputs s0) (act_send_or_log bp_watch_msgbox bp_watch_msgbox_update w)"
  "keeps (same_outputs s0) (act_send_or_log bp_get_next_block_scheduler bp_get_next_block_scheduler_update c)"
  by (auto simp: keeps_def on_blockchain_Some act_send_or_log_def same_outputs_def)

lemma keeps_applied [keeps_rules]:
  "(\<And>r. keeps I (f r)) \<Longrightarrow> (\<And>r. keeps I (g r)) \<Longrightarrow> keeps I (case a of NewBlock r \<Rightarrow> f r | ExistingBlock r \<Rightarrow> g r)"
  by (cases a) auto

lemma network_block_same: "keeps (same_outputs s0) (process_network_block N L S block)"
  unfolding process_network_block_def check_and_apply_block_def by (intro keeps_rules same_outputs_keeps)

context node_refs
begin

lemma applied_header:
  assumes "act_bind (post_check_header N (b_header block) p check_proof) (\<lambda>pc. apply_and_store_block N L S pc block) s = Some (Inr a, s')"
  shows "ref_header (cached_ref a) = b_header block"
proof -
  obtain el where "apply_and_store_block N L S (post_checked (b_header block) el) block s = Some (Inr a, s')"
    using assms by (auto simp: post_check_bind split: option.splits if_splits)
  then show ?thesis by (auto simp: apply_store_Inr store_finalize_Inr applied_ref_def)
qed

lemma applied_header_yields:
  "yields (\<lambda>_. True) (\<lambda>a. ref_header (cached_ref a) = b_header block)
     (on_blockchain (act_bind (post_check_header N (b_header block) p Enabled) (\<lambda>pc. apply_and_store_block N L S pc block)))"
  by (auto simp: yields_def on_blockchain_Some dest: applied_header)

lemma check_and_apply_header:
  "yields (\<lambda>_. True) (\<lambda>c. \<forall>r. c = Some r \<longrightarrow> ref_header r = b_header block) (check_and_apply_block N L S p block)"
  unfolding check_and_apply_block_def
  by (rule yields_bind [OF applied_header_yields])
    (auto simp: yields_def act_bind_Inr act_send_or_log_def split: applied_block.splits)

lemma network_block_header:
  "yields (\<lambda>_. True) (\<lambda>c. \<forall>r. c = Some r \<longrightarrow> ref_header r = b_header block) (process_network_block N L S block)"
  unfolding process_network_block_def
  by (intro yields_bind [OF keeps_yields] keeps_true)
    (auto intro: yields_return yields_throw check_and_apply_header split: pre_checked_header.splits
      simp del: act_return_simp act_throw_simp)

lemma loop_consumed:
  fixes S :: "('s, 'hid, 'x, 'f, 'q, 'io) store_ops"
    and s s' :: "('c, 'mv, 's, 'hid, 'x, 'f, 'q, 'lg, 'ld, 'tf, 'rw, 'nid) process_state"
  assumes "network_blocks_loop N L S c stream s = Some (res, s')"
  shows "\<exists>rs reply. consumed stream rs reply s s' \<and> res = Inr (if rs = [] then c else Some (last rs))"
  using assms
proof (induction stream arbitrary: c s)
  case Nil
  then show ?case by (intro exI [of _ "[]"] exI [of _ "Inr ()"]) (auto simp: consumed_def send_reply_def)
next
  case (Cons block stream)
  obtain one s1 where one: "process_network_block N L S block s = Some (one, s1)"
    using Cons.prems by (cases "process_network_block N L S block s") auto
  have "same_outputs s s" by (simp add: same_outputs_def)
  then have same: "same_outputs s s1" by (rule keepsD [OF network_block_same _ one])
  have stop: "\<exists>rs reply. consumed (block # stream) rs reply s s' \<and> res = Inr (if rs = [] then c else Some (last rs))"
    if "act_bind (send_reply answer) (\<lambda>_. act_return c) s1 = Some (res, s')" for answer
    using that same by (intro exI [of _ "[]"] exI [of _ answer]) (auto simp: consumed_def send_reply_def same_outputs_def)
  show ?case
  proof (cases one)
    case (Inl e)
    then show ?thesis using Cons.prems one by (intro stop) simp
  next
    case (Inr c')
    show ?thesis
    proof (cases c')
      case None
      then show ?thesis using Cons.prems one Inr by (intro stop) simp
    next
      case (Some r)
      let ?s1 = "s1\<lparr>bp_block_recv_cnt := bp_block_recv_cnt s1 + 1\<rparr>"
      have rest: "network_blocks_loop N L S (Some r) stream ?s1 = Some (res, s')" using Cons.prems one Inr Some by simp
      obtain rs reply where rs: "consumed stream rs reply ?s1 s'" "res = Inr (if rs = [] then Some r else Some (last rs))"
        using Cons.IH [OF rest] by blast
      have "ref_header r = b_header block" using yieldsD [OF network_block_header _ one] Inr Some by simp
      then have "consumed (block # stream) (r # rs) reply s s'" using rs(1) same by (simp add: consumed_def same_outputs_def)
      then show ?thesis using rs(2) by (intro exI [of _ "r # rs"] exI [of _ reply]) auto
    qed
  qed
qed

end


section \<open>Correctness\<close>



text \<open>
  A stream of known headers is never answered. When a peer pushes headers that the node all knows already, the handler
  ends normally but sends no reply, neither a positive one nor an error: the peer sees a cancelled request.
\<close>

theorem known_headers_unanswered:
  assumes "node_refs L N" and "node_inv N L (bp_blockchain s)" and "stream \<noteq> []"
    and "\<forall>h\<in>set stream. map_of (lru_iter L (nc_ref_cache (bp_blockchain s))) (h_hash h) \<noteq> None"
    and "\<And>h. \<exists>b. storage_block_exists S (nc_storage (bp_blockchain s)) h = Inr b"
  shows "\<exists>s'. process_chain_headers N L S stream s = Some (Inr (), s') \<and> bp_replies s' = bp_replies s"
proof -
  obtain h later where stream: "stream = h # later" using assms(3) by (cases stream) auto
  obtain n where "skip_present_blocks N L S h later (bp_blockchain s) = Some (Inr None, n)"
    using node_refs.skip_known [OF assms(1,2) _ assms(5), of h later] assms(4) stream by auto
  then have "advance_branch N L S stream (bp_blockchain s) = Some (Inr ([], None), n)"
    by (simp add: stream advance_branch_Cons)
  then show ?thesis by (simp add: process_chain_headers_def)
qed

section \<open>An example\<close>

definition example_process ::
  "mem_store \<Rightarrow> ((nat, (nat, unit, nat, unit, unit, unit) noderef) recency_list, (nat \<times> nat) list, mem_store, nat,
     unit, unit, unit, nat, unit, unit, unit, nat) process_state" where
  "example_process st = \<lparr>bp_blockchain = example_node_state st, bp_blockchain_tip = example_ref0, bp_block_recv_cnt = 0,
     bp_network_msgbox = mailbox_new (\<lambda>_. True), bp_watch_msgbox = mailbox_new (\<lambda>_. True),
     bp_tip_update_mbox = mailbox_new (\<lambda>_. True), bp_pull_headers_scheduler = mailbox_new (\<lambda>_. True),
     bp_get_next_block_scheduler = mailbox_new (\<lambda>_. True), bp_replies = []\<rparr>"

definition example_root_store :: mem_store where
  "example_root_store = \<lparr>ms_blocks = [stored 1 0 0], ms_tags = []\<rparr>"



theorem known_headers_unanswered_witness:
  "\<exists>s'. process_chain_headers example_node_ops recency_ops mem_store_ops [b_header (example_block 1 0 0)]
      (example_process example_root_store) = Some (Inr (), s') \<and> bp_replies s' = []"
proof -
  have "\<exists>s'. process_chain_headers example_node_ops recency_ops mem_store_ops [b_header (example_block 1 0 0)]
      (example_process example_root_store) = Some (Inr (), s') \<and> bp_replies s' = bp_replies (example_process example_root_store)"
    by (rule known_headers_unanswered [OF example_node.node_refs_axioms])
      (simp_all add: example_process_def example_node_inv example_cache, simp_all add: example_block_def mem_store_ops_def storage_block_exists_def)
  then show ?thesis by (simp add: example_process_def)
qed


end
