(* ===== verification/Peer_Sync.thy ===== *)
theory Peer_Sync
  imports Blockchain_Process
begin

text \<open>
  The exchange of chains between two nodes. The serving side is the client task,
  \<^verbatim>\<open>jormungandr/src/client.rs\<close>, which answers the requests of peers from the storage and the tip; the receiving side
  is \<^verbatim>\<open>jormungandr/src/blockchain/bootstrap.rs\<close>, which applies a stream of blocks and moves the tip once at the
  end.

  A reply stream is the list of its items. \<open>accepts i\<close> says whether the receiver still takes the \<open>i\<close>-th item. The
  errors of replies are reduced to their codes.
\<close>

section \<open>Serving\<close>

fun intercom_from_storage_error :: "'io storage_error \<Rightarrow> net_code" where
  "intercom_from_storage_error BlockNotFound = NotFound"
| "intercom_from_storage_error CannotIterate = Internal"
| "intercom_from_storage_error (BackendError _) = Internal"
| "intercom_from_storage_error BlockAlreadyPresent = Internal"
| "intercom_from_storage_error MissingParentOfBlock = InvalidArgument"
| "intercom_from_storage_error (DeserializeError _) = Internal"
| "intercom_from_storage_error (SerializeError _) = Internal"

definition get_block_tip :: "('hid, 'x, 'lg, 'ld, 'tf, 'rw) noderef \<Rightarrow> ('hid, 'x) header" where
  "get_block_tip tip = ref_header tip"

definition get_block_from_storage ::
  "('s, 'hid, 'x, 'f, 'q, 'io) store_ops \<Rightarrow> 's \<Rightarrow> 'hid \<Rightarrow> (net_code, ('hid, 'x, 'f, 'q) block) result" where
  "get_block_from_storage S st h =
     (case storage_get S st h of
        Inr (Some block) \<Rightarrow> Inr block
      | Inr None \<Rightarrow> Inl NotFound
      | Inl e \<Rightarrow> Inl (intercom_from_storage_error e))"

text \<open>The items sent, and whether the reply was completed.\<close>

fun fuse_send_items :: "(nat \<Rightarrow> bool) \<Rightarrow> ('e, 'v) result list \<Rightarrow> ('e, 'v) result list \<times> bool" where
  "fuse_send_items accepts [] = ([], accepts 0)"
| "fuse_send_items accepts (item # items) =
     (if \<not> accepts 0 then ([], False)
      else case item of
        Inl _ \<Rightarrow> ([item], accepts 1)
      | Inr _ \<Rightarrow> (let (sent, ok) = fuse_send_items (\<lambda>i. accepts (Suc i)) items in (item # sent, ok)))"

text \<open>A reply is an error or a stream.\<close>

definition send_range_from_storage ::
  "('s, 'hid, 'x, 'f, 'q, 'io) store_ops \<Rightarrow> 's \<Rightarrow> 'hid list \<Rightarrow> 'hid \<Rightarrow> (('hid, 'x, 'f, 'q) block \<Rightarrow> 't)
    \<Rightarrow> (net_code, ('io storage_error, 't) result list) result" where
  "send_range_from_storage S st from to f =
     (let closest_ancestor = rbind (map_err intercom_from_storage_error (find_closest_ancestor S st from to)) (\<lambda>maybe_ancestor.
            case maybe_ancestor of
              Some ancestor \<Rightarrow> Inr (to, an_distance ancestor)
            | None \<Rightarrow> Inl NotFound)
      in rbind closest_ancestor (\<lambda>(to, depth).
           map_err intercom_from_storage_error (send_branch_with S st to (Some depth) f)))"

definition handle_get_blocks ::
  "('s, 'hid, 'x, 'f, 'q, 'io) store_ops \<Rightarrow> 's \<Rightarrow> (nat \<Rightarrow> bool) \<Rightarrow> 'hid list
    \<Rightarrow> (net_code, ('hid, 'x, 'f, 'q) block) result list \<times> bool" where
  "handle_get_blocks S st accepts ids = fuse_send_items accepts (map (get_block_from_storage S st) ids)"

definition handle_get_headers ::
  "('s, 'hid, 'x, 'f, 'q, 'io) store_ops \<Rightarrow> 's \<Rightarrow> (nat \<Rightarrow> bool) \<Rightarrow> 'hid list
    \<Rightarrow> (net_code, ('hid, 'x) header) result list \<times> bool" where
  "handle_get_headers S st accepts ids =
     fuse_send_items accepts (map (\<lambda>i. map_sum id b_header (get_block_from_storage S st i)) ids)"

definition handle_get_headers_range ::
  "('s, 'hid, 'x, 'f, 'q, 'io) store_ops \<Rightarrow> 's \<Rightarrow> 'hid list \<Rightarrow> 'hid
    \<Rightarrow> (net_code, ('io storage_error, ('hid, 'x) header) result list) result" where
  "handle_get_headers_range S st from to = send_range_from_storage S st from to b_header"

definition handle_pull_blocks ::
  "('s, 'hid, 'x, 'f, 'q, 'io) store_ops \<Rightarrow> 's \<Rightarrow> 'hid list \<Rightarrow> 'hid
    \<Rightarrow> (net_code, ('io storage_error, ('hid, 'x, 'f, 'q) block) result list) result" where
  "handle_pull_blocks S st from to = send_range_from_storage S st from to (\<lambda>b. b)"

definition handle_pull_blocks_to_tip ::
  "('s, 'hid, 'x, 'f, 'q, 'io) store_ops \<Rightarrow> 's \<Rightarrow> ('hid, 'x, 'lg, 'ld, 'tf, 'rw) noderef \<Rightarrow> 'hid list
    \<Rightarrow> (net_code, ('io storage_error, ('hid, 'x, 'f, 'q) block) result list) result" where
  "handle_pull_blocks_to_tip S st tip from = send_range_from_storage S st from (h_hash (get_block_tip tip)) (\<lambda>b. b)"

datatype 'hid client_msg =
    ClientGetBlockTip
  | ClientGetHeaders "'hid list"
  | ClientPullHeaders "'hid list" 'hid
  | ClientGetBlocks "'hid list"
  | ClientPullBlocks "'hid list" 'hid
  | ClientPullBlocksToTip "'hid list"

datatype ('hid, 'x, 'f, 'q, 'io) client_reply =
    TipReply "('hid, 'x) header"
  | HeadersReply "(net_code, ('hid, 'x) header) result list \<times> bool"
  | HeaderRangeReply "(net_code, ('io storage_error, ('hid, 'x) header) result list) result"
  | BlocksReply "(net_code, ('hid, 'x, 'f, 'q) block) result list \<times> bool"
  | BlockRangeReply "(net_code, ('io storage_error, ('hid, 'x, 'f, 'q) block) result list) result"

fun handle_client_msg ::
  "('s, 'hid, 'x, 'f, 'q, 'io) store_ops \<Rightarrow> 's \<Rightarrow> ('hid, 'x, 'lg, 'ld, 'tf, 'rw) noderef \<Rightarrow> (nat \<Rightarrow> bool) \<Rightarrow> 'hid client_msg
    \<Rightarrow> ('hid, 'x, 'f, 'q, 'io) client_reply" where
  "handle_client_msg S st tip accepts ClientGetBlockTip = TipReply (get_block_tip tip)"
| "handle_client_msg S st tip accepts (ClientGetHeaders ids) = HeadersReply (handle_get_headers S st accepts ids)"
| "handle_client_msg S st tip accepts (ClientPullHeaders from to) = HeaderRangeReply (handle_get_headers_range S st from to)"
| "handle_client_msg S st tip accepts (ClientGetBlocks ids) = BlocksReply (handle_get_blocks S st accepts ids)"
| "handle_client_msg S st tip accepts (ClientPullBlocks from to) = BlockRangeReply (handle_pull_blocks S st from to)"
| "handle_client_msg S st tip accepts (ClientPullBlocksToTip from) = BlockRangeReply (handle_pull_blocks_to_tip S st tip from)"

section \<open>Receiving\<close>

datatype ('hid, 'e, 'io, 'ne) bootstrap_error =
    BlockchainError "('hid, 'e, 'io) chain_error"
  | BlockMissingParent 'hid
  | PullStreamFailed 'ne
  | BlockDeserialize 'io
  | Interrupted

text \<open>An item of the stream: the bytes of a block, or an error of the network.\<close>

definition received_block ::
  "('s, 'hid, 'x, 'f, 'q, 'io) store_ops \<Rightarrow> ('ne, bytes) result
    \<Rightarrow> (('hid, 'e, 'io, 'ne) bootstrap_error, ('hid, 'x, 'f, 'q) block) result" where
  "received_block S item = rbind (map_err PullStreamFailed item) (\<lambda>raw. map_err BlockDeserialize (block_deserialize S raw))"

text \<open>The report of \<^verbatim>\<open>bootstrap.rs\<close> copes with a clock that goes backwards and never panics.\<close>

definition bootstrap_report :: "nat \<Rightarrow> ('hid, 'x) stream_info \<Rightarrow> bool" where
  "bootstrap_report now info \<longleftrightarrow> si_last_block_description info \<noteq> None"

definition update_bootstrap_tip ::
  "('hid, 'x, 'f, 'q, 'lg, 'ld, 'e, 'tf, 'rw, 'mv) node_ops \<Rightarrow> ('f \<Rightarrow> 'id) \<Rightarrow> ('s, 'hid, 'x, 'f, 'q, 'io) store_ops
    \<Rightarrow> nat \<Rightarrow> ('hid, 'x, 'lg, 'ld, 'tf, 'rw) noderef option
    \<Rightarrow> (('c, 'mv, 's, 'hid, 'x, 'f, 'q, 'lg, 'ld, 'tf, 'rw, 'tx, 'p, 'id) tip_state, ('hid, 'e, 'io, 'ne) bootstrap_error, unit) action" where
  "update_bootstrap_tip N E S now maybe_parent_tip =
     (case maybe_parent_tip of
        Some bootstrap_tip \<Rightarrow> act_map_err BlockchainError (process_new_ref N E S now bootstrap_tip)
      | None \<Rightarrow> act_return ())"

fun bootstrap_loop ::
  "('hid, 'x, 'f, 'q, 'lg, 'ld, 'e, 'tf, 'rw, 'mv) node_ops \<Rightarrow> ('c, 'hid, 'x, 'lg, 'ld, 'tf, 'rw) ref_cache_ops
    \<Rightarrow> ('f \<Rightarrow> 'id) \<Rightarrow> ('s, 'hid, 'x, 'f, 'q, 'io) store_ops \<Rightarrow> nat \<Rightarrow> 'hid \<Rightarrow> (nat \<Rightarrow> nat) \<Rightarrow> ('hid, 'x) stream_info
    \<Rightarrow> ('hid, 'x, 'lg, 'ld, 'tf, 'rw) noderef option \<Rightarrow> ('ne, bytes) result list
    \<Rightarrow> (('c, 'mv, 's, 'hid, 'x, 'f, 'q, 'lg, 'ld, 'tf, 'rw, 'tx, 'p, 'id) tip_state, ('hid, 'e, 'io, 'ne) bootstrap_error,
        ('hid, 'x, 'lg, 'ld, 'tf, 'rw) noderef option) action" where
  "bootstrap_loop N L E S now block0 clk info maybe_parent_tip [] = act_return maybe_parent_tip"
| "bootstrap_loop N L E S now block0 clk info maybe_parent_tip (item # stream) =
     (case received_block S item of
        Inl err \<Rightarrow> act_bind (update_bootstrap_tip N E S now maybe_parent_tip) (\<lambda>_. act_throw err)
      | Inr block \<Rightarrow>
          if h_hash (b_header block) = block0
          then bootstrap_loop N L E S now block0 clk info maybe_parent_tip stream
          else (\<lambda>s.
            case append_block S bootstrap_report clk info block of
              None \<Rightarrow> None
            | Some (info', clk') \<Rightarrow>
                (case on_chain (handle_bootstrap_block N L S block Enabled) s of
                   None \<Rightarrow> None
                 | Some (Inl e, s1) \<Rightarrow>
                     act_bind (update_bootstrap_tip N E S now maybe_parent_tip) (\<lambda>_. act_throw (BlockchainError e)) s1
                 | Some (Inr parent_tip, s1) \<Rightarrow>
                     bootstrap_loop N L E S now block0 clk' info' (Some parent_tip) stream s1)))"

text \<open>
  The stream holds the items delivered before its end or before the cancellation, which \<open>cancelled\<close> tells apart. The state is
  that of the tip updater, which has no mailboxes here.
\<close>

definition bootstrap_from_stream ::
  "('hid, 'x, 'f, 'q, 'lg, 'ld, 'e, 'tf, 'rw, 'mv) node_ops \<Rightarrow> ('c, 'hid, 'x, 'lg, 'ld, 'tf, 'rw) ref_cache_ops
    \<Rightarrow> ('f \<Rightarrow> 'id) \<Rightarrow> ('s, 'hid, 'x, 'f, 'q, 'io) store_ops \<Rightarrow> nat \<Rightarrow> (nat \<Rightarrow> nat) \<Rightarrow> ('ne, bytes) result list \<Rightarrow> bool
    \<Rightarrow> (('c, 'mv, 's, 'hid, 'x, 'f, 'q, 'lg, 'ld, 'tf, 'rw, 'tx, 'p, 'id) tip_state, ('hid, 'e, 'io, 'ne) bootstrap_error,
        ('hid, 'x, 'lg, 'ld, 'tf, 'rw) noderef option) action" where
  "bootstrap_from_stream N L E S now clk stream cancelled =
     act_bind act_get (\<lambda>s.
     act_bind (bootstrap_loop N L E S now (nc_block0 (tu_blockchain s)) (\<lambda>i. clk (Suc i)) (stream_reporter_new (clk 0)) None stream)
     (\<lambda>maybe_parent_tip.
     act_bind (update_bootstrap_tip N E S now maybe_parent_tip) (\<lambda>_.
     if cancelled then act_throw Interrupted else act_return maybe_parent_tip)))"

section \<open>Serving items\<close>

text \<open>A receiver that stays gets the items up to and including the first error.\<close>

lemma fuse_send_items_all:
  "fuse_send_items (\<lambda>_. True) items = (takeWhile (\<lambda>i. \<not> isl i) items @ take 1 (dropWhile (\<lambda>i. \<not> isl i) items), True)"
  by (induction items) (auto split: sum.splits)

section \<open>Following a chain\<close>

text \<open>The leader of a block is confirmed by the leadership of its epoch.\<close>

definition confirmed ::
  "('hid, 'x, 'f, 'q, 'lg, 'ld, 'e, 'tf, 'rw, 'mv) node_ops \<Rightarrow> bool \<Rightarrow> ('hid, 'x, 'lg, 'ld, 'tf, 'rw) noderef
    \<Rightarrow> ('hid, 'x, 'f, 'q) block \<Rightarrow> bool" where
  "confirmed N all p b \<longleftrightarrow>
     (case new_epoch_leadership_from N (epoch (h_block_date (b_header b))) p all of
        None \<Rightarrow> False
      | Some el \<Rightarrow> leadership_verify (n_chain N) (el_leadership el) (b_header b) = None)"

fun confirmed_replay ::
  "('hid, 'x, 'f, 'q, 'lg, 'ld, 'e, 'tf, 'rw, 'mv) node_ops \<Rightarrow> bool \<Rightarrow> ('hid, 'x, 'lg, 'ld, 'tf, 'rw) noderef
    \<Rightarrow> ('hid, 'x, 'f, 'q) block list \<Rightarrow> ('hid, 'x, 'lg, 'ld, 'tf, 'rw) noderef option" where
  "confirmed_replay N all p [] = Some p"
| "confirmed_replay N all p (b # bs) =
     (if confirmed N all p b then Option.bind (step_ref N all p b) (\<lambda>r. confirmed_replay N all r bs) else None)"

text \<open>The storage takes the blocks one after the other.\<close>

fun stores_blocks :: "('s, 'hid, 'x, 'f, 'q, 'io) store_ops \<Rightarrow> 's \<Rightarrow> ('hid, 'x, 'f, 'q) block list \<Rightarrow> bool" where
  "stores_blocks S st [] \<longleftrightarrow> True"
| "stores_blocks S st (b # bs) \<longleftrightarrow>
     (\<exists>ex. storage_block_exists S st (h_block_parent_hash (b_header b)) = Inr ex) \<and> (\<exists>raw. block_serialize S b = Inr raw) \<and>
     (\<exists>res st'. storage_put_block S b st = Some (res, st') \<and> (res = Inr () \<or> res = Inl BlockAlreadyPresent) \<and> stores_blocks S st' bs)"

definition delivers :: "('s, 'hid, 'x, 'f, 'q, 'io) store_ops \<Rightarrow> ('ne, bytes) result list \<Rightarrow> ('hid, 'x, 'f, 'q) block list \<Rightarrow> bool" where
  "delivers S stream bs \<longleftrightarrow> list_all2 (\<lambda>item b. \<exists>raw. item = Inr raw \<and> block_deserialize S raw = Inr b) stream bs"

lemma append_block_bootstrap:
  "block_serialize S b = Inr raw \<Longrightarrow> \<exists>info' clk'. append_block S bootstrap_report clk info b = Some (info', clk')"
  by (simp add: append_block_def bootstrap_report_def Let_def)

context node_refs
begin

lemma bootstrap_new_step:
  assumes "node_inv N L s" and "map_of (lru_iter L (nc_ref_cache s)) (ref_hash p) = Some p"
    and "stores_blocks S (nc_storage s) (b # bs)" and "confirmed N (nc_rewards_report_all s) p b"
    and "step_ref N (nc_rewards_report_all s) p b = Some r"
  shows "\<exists>s'. handle_bootstrap_block N L S b Enabled s = Some (Inr r, s') \<and> stores_blocks S (nc_storage s') bs \<and>
     nc_rewards_report_all s' = nc_rewards_report_all s \<and> nc_block0 s' = nc_block0 s \<and>
     map_of (lru_iter L (nc_ref_cache s')) (ref_hash r) = Some r"
proof -
  let ?h = "b_header b"
  obtain el lg where el: "h_block_parent_hash ?h = ref_hash p" "ref_block_date p < h_block_date ?h"
      "h_chain_length ?h = chain_length_next N (ref_chain_length p)"
      "new_epoch_leadership_from N (epoch (h_block_date ?h)) p (nc_rewards_report_all s) = Some el"
      "ledger_apply_block (n_chain N) (el_state el) (b_contents b) ?h = Inr lg"
      "rewards_distributable N (nc_rewards_report_all s) (el_leadership el) lg" "r = applied_ref ?h el lg"
    using assms(5) by (auto simp: step_ref_Some)
  obtain ex where ex: "storage_block_exists S (nc_storage s) (h_block_parent_hash ?h) = Inr ex" using assms(3) by auto
  obtain res st where put: "storage_put_block S b (nc_storage s) = Some (res, st)" "res = Inr () \<or> res = Inl BlockAlreadyPresent"
      "stores_blocks S st bs"
    using assms(3) by auto
  have leader: "leadership_verify (n_chain N) (el_leadership el) ?h = None" using assms(4) el(4) by (simp add: confirmed_def)
  let ?s' = "s\<lparr>nc_storage := st,
      nc_ledgers := snd (multiverse_insert N (nc_ledgers s) (h_chain_length ?h) (h_hash ?h) lg),
      nc_ref_cache := lru_put L (snd (lru_get L (nc_ref_cache s) (h_block_parent_hash ?h))) (h_hash ?h) r\<rparr>"
  have "handle_bootstrap_block N L S b Enabled s = Some (Inr r, ?s')"
    unfolding bootstrap_Inr_iff [OF node_refs_axioms assms(1) ex]
    by (intro exI [of _ p] exI [of _ el] exI [of _ lg] exI [of _ st]) (use put in \<open>auto simp: el assms(2) leader\<close>)
  moreover have "0 < lru_cap L (snd (lru_get L (nc_ref_cache s) (h_block_parent_hash ?h)))"
    using assms(1) by (simp add: node_inv_def cap_get)
  then have "map_of (lru_iter L (nc_ref_cache ?s')) (ref_hash r) = Some r"
    using put_front [of "snd (lru_get L (nc_ref_cache s) (h_block_parent_hash ?h))" "h_hash ?h" r] el(7)
    by (auto simp: applied_ref_def ref_hash_def)
  ultimately show ?thesis using put(3) by (intro exI [of _ ?s']) simp
qed

text \<open>The loop on a stream that starts with good blocks goes on with the rest of it.\<close>

lemma bootstrap_loop_follows:
  assumes "node_inv N L (tu_blockchain s)" and "map_of (lru_iter L (nc_ref_cache (tu_blockchain s))) (ref_hash p) = Some p"
    and "delivers S stream bs" and "\<forall>b\<in>set bs. h_hash (b_header b) \<noteq> block0"
    and "stores_blocks S (nc_storage (tu_blockchain s)) bs"
    and "confirmed_replay N (nc_rewards_report_all (tu_blockchain s)) p bs = Some r"
  shows "\<exists>s1 info' clk'. node_inv N L (tu_blockchain s1) \<and> tu_tip s1 = tu_tip s \<and>
    map_of (lru_iter L (nc_ref_cache (tu_blockchain s1))) (ref_hash r) = Some r \<and>
    (\<forall>tail. bootstrap_loop N L E S now block0 clk info tip (stream @ tail) s =
       bootstrap_loop N L E S now block0 clk' info' (if bs = [] then tip else Some r) tail s1)"
  using assms
proof (induction bs arbitrary: s p clk info tip stream)
  case Nil
  then show ?case by (auto simp: delivers_def)
next
  case (Cons b bs)
  obtain raw stream' where stream: "stream = Inr raw # stream'" "block_deserialize S raw = Inr b" "delivers S stream' bs"
    using Cons.prems(3) by (auto simp: delivers_def list_all2_Cons2)
  have b0: "h_hash (b_header b) \<noteq> block0" using Cons.prems(4) by simp
  obtain r1 where r1: "confirmed N (nc_rewards_report_all (tu_blockchain s)) p b"
      "step_ref N (nc_rewards_report_all (tu_blockchain s)) p b = Some r1"
      "confirmed_replay N (nc_rewards_report_all (tu_blockchain s)) r1 bs = Some r"
    using Cons.prems(6) by (auto simp: bind_eq_Some_conv split: if_splits)
  obtain n where n: "handle_bootstrap_block N L S b Enabled (tu_blockchain s) = Some (Inr r1, n)" "stores_blocks S (nc_storage n) bs"
      "nc_rewards_report_all n = nc_rewards_report_all (tu_blockchain s)" "map_of (lru_iter L (nc_ref_cache n)) (ref_hash r1) = Some r1"
    using bootstrap_new_step [OF Cons.prems(1,2,5) r1(1,2)] by blast
  have inv: "node_inv N L n" by (rule keepsD [OF bootstrap_keeps Cons.prems(1) n(1)])
  obtain info1 clk1 where rep: "append_block S bootstrap_report clk info b = Some (info1, clk1)"
    using Cons.prems(5) append_block_bootstrap by fastforce
  let ?s1 = "s\<lparr>tu_blockchain := n\<rparr>"
  have step: "bootstrap_loop N L E S now block0 clk info tip (stream @ tail) s =
      bootstrap_loop N L E S now block0 clk1 info1 (Some r1) (stream' @ tail) ?s1" for tail
    using b0 n(1) rep by (simp add: stream(1,2) received_block_def on_chain_def act_focus_def)
  have "\<exists>s1 info' clk'. node_inv N L (tu_blockchain s1) \<and> tu_tip s1 = tu_tip ?s1 \<and>
      map_of (lru_iter L (nc_ref_cache (tu_blockchain s1))) (ref_hash r) = Some r \<and>
      (\<forall>tail. bootstrap_loop N L E S now block0 clk1 info1 (Some r1) (stream' @ tail) ?s1 =
         bootstrap_loop N L E S now block0 clk' info' (if bs = [] then Some r1 else Some r) tail s1)"
    by (rule Cons.IH) (use inv n r1 stream Cons.prems(4) in simp_all)
  moreover have "bs = [] \<Longrightarrow> r1 = r" using r1(3) by simp
  ultimately show ?case unfolding step by (fastforce split: if_splits)
qed

end

section \<open>Correctness\<close>

text \<open>
  (C15) Following a peer. When a stream delivers blocks that extend a known block and that the node accepts one after the other,
  every one of them is applied, and the reference of the last one is cached. The tip is then offered that last
  block, once: at the end of the stream, also when the bootstrap is cancelled, and just as well when the network fails
  after these blocks, in which case the error is reported only after the tip was updated.
\<close>

theorem bootstrap_follows_peer:
  assumes "node_refs L N" and "node_inv N L (tu_blockchain s)"
    and "map_of (lru_iter L (nc_ref_cache (tu_blockchain s))) (ref_hash p) = Some p"
    and "delivers S stream bs" and "bs \<noteq> []" and "\<forall>b\<in>set bs. h_hash (b_header b) \<noteq> nc_block0 (tu_blockchain s)"
    and "stores_blocks S (nc_storage (tu_blockchain s)) bs"
    and "confirmed_replay N (nc_rewards_report_all (tu_blockchain s)) p bs = Some r"
  shows "\<exists>s1. node_inv N L (tu_blockchain s1) \<and> tu_tip s1 = tu_tip s \<and>
    map_of (lru_iter L (nc_ref_cache (tu_blockchain s1))) (ref_hash r) = Some r \<and>
    bootstrap_from_stream N L E S now clk stream cancelled s =
      act_bind (act_map_err BlockchainError (process_new_ref N E S now r))
        (\<lambda>_. if cancelled then act_throw Interrupted else act_return (Some r)) s1 \<and>
    (\<forall>err rest. bootstrap_from_stream N L E S now clk (stream @ Inl err # rest) cancelled s =
      act_bind (act_map_err BlockchainError (process_new_ref N E S now r)) (\<lambda>_. act_throw (PullStreamFailed err)) s1)"
proof -
  obtain s1 info' clk' where s1: "node_inv N L (tu_blockchain s1)" "tu_tip s1 = tu_tip s"
      "map_of (lru_iter L (nc_ref_cache (tu_blockchain s1))) (ref_hash r) = Some r"
    and loop: "\<And>tail. bootstrap_loop N L E S now (nc_block0 (tu_blockchain s)) (\<lambda>i. clk (Suc i)) (stream_reporter_new (clk 0)) None
        (stream @ tail) s = bootstrap_loop N L E S now (nc_block0 (tu_blockchain s)) clk' info' (Some r) tail s1"
    using node_refs.bootstrap_loop_follows [OF assms(1-4,6-8), where tip = None and clk = "\<lambda>i. clk (Suc i)"
        and info = "stream_reporter_new (clk 0)" and E = E and now = now] assms(5) by auto
  have "bootstrap_from_stream N L E S now clk stream cancelled s =
      act_bind (act_map_err BlockchainError (process_new_ref N E S now r))
        (\<lambda>_. if cancelled then act_throw Interrupted else act_return (Some r)) s1"
    using loop [of "[]"] by (simp add: bootstrap_from_stream_def update_bootstrap_tip_def act_bind_def)
  moreover have "bootstrap_from_stream N L E S now clk (stream @ Inl err # rest) cancelled s =
      act_bind (act_map_err BlockchainError (process_new_ref N E S now r)) (\<lambda>_. act_throw (PullStreamFailed err)) s1" for err rest
    using loop [of "Inl err # rest"]
    by (auto simp: bootstrap_from_stream_def update_bootstrap_tip_def act_bind_def received_block_def split: option.splits sum.splits)
  ultimately show ?thesis using s1 by blast
qed

definition example_wire :: "(unit, bytes) result list" where
  "example_wire = [Inr (unary_enc [2, 1, 0, 1, 1]), Inr (unary_enc [3, 2, 0, 2, 2])]"

definition example_follower :: "((nat, (nat, unit, nat, unit, unit, unit) noderef) recency_list, (nat \<times> nat) list, mem_store, nat,
     unit, unit, unit, nat, unit, unit, unit, nat, unit, nat) tip_state" where
  "example_follower = tip_updater_new example_ref0 (example_node_state example_root_store) None None"

lemma example_stores: "stores_blocks mem_store_ops example_root_store [plain_block 2 1 1, plain_block 3 2 2]"
proof -
  have put1: "storage_put_block mem_store_ops (plain_block 2 1 1) example_root_store =
      Some (Inr (), \<lparr>ms_blocks = [stored 2 1 1, stored 1 0 0], ms_tags = []\<rparr>)"
    by code_simp
  have put2: "storage_put_block mem_store_ops (plain_block 3 2 2) \<lparr>ms_blocks = [stored 2 1 1, stored 1 0 0], ms_tags = []\<rparr> =
      Some (Inr (), \<lparr>ms_blocks = [stored 3 2 2, stored 2 1 1, stored 1 0 0], ms_tags = []\<rparr>)"
    by code_simp
  have ex: "\<exists>ex. storage_block_exists mem_store_ops st h = Inr ex" for st h
    by (simp add: storage_block_exists_def mem_store_ops_def)
  have ser: "\<exists>raw. block_serialize mem_store_ops (plain_block h p n) = Inr raw" for h p n
    by (simp add: mem_store_ops_def ms_block_serialize_def plain_block_def)
  show ?thesis by (simp add: ex ser put1 put2 del: One_nat_def)
qed

theorem bootstrap_follows_peer_witness:
  "\<exists>s1. node_inv example_node_ops recency_ops (tu_blockchain s1) \<and>
     bootstrap_from_stream example_node_ops recency_ops example_fragment_id mem_store_ops 9 (\<lambda>i. i) example_wire False example_follower =
       act_bind (act_map_err BlockchainError (process_new_ref example_node_ops example_fragment_id mem_store_ops 9
         (Ref \<lparr>lr_id = 3, lr_state = 2\<rparr> () () None (b_header (plain_block 3 2 2)) None)))
         (\<lambda>_. act_return (Some (Ref \<lparr>lr_id = 3, lr_state = 2\<rparr> () () None (b_header (plain_block 3 2 2)) None))) s1"
proof -
  let ?bs = "[plain_block 2 1 1, plain_block 3 2 2]"
  let ?r = "Ref \<lparr>lr_id = 3, lr_state = 2\<rparr> () () None (b_header (plain_block 3 2 2)) None"
  have st: "tu_blockchain example_follower = example_node_state example_root_store"
    by (simp add: example_follower_def tip_updater_new_def)
  have 1: "node_inv example_node_ops recency_ops (tu_blockchain example_follower)" by (simp add: st example_node_inv)
  have 2: "map_of (lru_iter recency_ops (nc_ref_cache (tu_blockchain example_follower))) (ref_hash example_ref0) = Some example_ref0"
    by (simp add: st example_cache) (simp add: example_node_defs)
  have 3: "delivers mem_store_ops example_wire ?bs"
    by (simp add: delivers_def example_wire_def mem_store_ops_def ms_block_deserialize_def plain_block_def del: unary_enc.simps)
  have 4: "\<forall>b\<in>set ?bs. h_hash (b_header b) \<noteq> nc_block0 (tu_blockchain example_follower)"
    by (simp add: st example_node_state_def plain_block_def)
  have 5: "stores_blocks mem_store_ops (nc_storage (tu_blockchain example_follower)) ?bs"
    using example_stores by (simp add: st example_node_state_def)
  have 6: "confirmed_replay example_node_ops (nc_rewards_report_all (tu_blockchain example_follower)) example_ref0 ?bs = Some ?r"
    by code_simp
  show ?thesis
    using bootstrap_follows_peer [OF example_node.node_refs_axioms 1 2 3 _ 4 5 6, where cancelled = False
        and E = example_fragment_id and now = 9 and clk = "\<lambda>i. i"] by auto
qed

end
