(* ===== verification/Peer_Comms.thy ===== *)
theory Peer_Comms
  imports Prelude
begin

text \<open>
  The communication state of one peer, \<^verbatim>\<open>jormungandr/src/network/p2p/comm.rs\<close>: the handle of an
  outbound subscription, the five handles of a peer, and its activity statistics.

  A channel of the \<^verbatim>\<open>futures\<close> crate is seen from its sending end: \<open>tx_sent\<close> are the items that
  went into it, in order, and \<open>tx_failure i\<close> tells how the \<open>i\<close>-th attempt to send fails, which depends on the
  receiver. A subscription takes the behaviour of the channel it creates as an argument. A connection attempt is seen
  through its handle: \<open>cn_answer i\<close> is what the \<open>i\<close>-th poll finds.
\<close>

section \<open>Outbound channels\<close>

datatype send_failure = Disconnected | Full | OtherFailure

record 't sender =
  tx_sent :: "'t list"
  tx_attempts :: nat
  tx_failure :: "nat \<Rightarrow> send_failure option"

definition sender_new :: "(nat \<Rightarrow> send_failure option) \<Rightarrow> 't sender" where
  "sender_new failure = \<lparr>tx_sent = [], tx_attempts = 0, tx_failure = failure\<rparr>"

definition sender_try_send :: "'t \<Rightarrow> 't sender \<Rightarrow> send_failure option \<times> 't sender" where
  "sender_try_send item tx =
     (let failure = tx_failure tx (tx_attempts tx); tx = tx\<lparr>tx_attempts := tx_attempts tx + 1\<rparr>
      in (failure, if failure = None then tx\<lparr>tx_sent := tx_sent tx @ [item]\<rparr> else tx))"

text \<open>The number of items a subscription buffers. A new channel of this size takes at least one item.\<close>

definition BUFFER_LEN :: nat where
  "BUFFER_LEN = 8"

definition fresh_channel :: "(nat \<Rightarrow> send_failure option) \<Rightarrow> bool" where
  "fresh_channel failure \<longleftrightarrow> failure 0 = None"

section \<open>Subscription handles\<close>

datatype error_kind = NotSubscribedError | SubscriptionClosed | StreamOverflow | Unexpected

record 't propagate_error =
  pe_kind :: error_kind
  pe_item :: 't

datatype 't subscription_state = NotSubscribed | Pending 't | Subscribed "'t sender"

datatype subscription_direction = Client | Server

record 't comm_handle =
  ch_state :: "'t subscription_state"
  ch_direction :: subscription_direction

definition comm_handle_default :: "'t comm_handle" where
  "comm_handle_default = \<lparr>ch_state = NotSubscribed, ch_direction = Server\<rparr>"

definition client_pending :: "'t \<Rightarrow> 't comm_handle" where
  "client_pending item = \<lparr>ch_state = Pending item, ch_direction = Client\<rparr>"

definition is_client :: "'t comm_handle \<Rightarrow> bool" where
  "is_client h \<longleftrightarrow> (case ch_direction h of Client \<Rightarrow> True | Server \<Rightarrow> False)"

definition clear_pending :: "'t comm_handle \<Rightarrow> 't comm_handle" where
  "clear_pending h = (case ch_state h of Pending _ \<Rightarrow> h\<lparr>ch_state := NotSubscribed\<rparr> | _ \<Rightarrow> h)"

definition is_subscribed :: "'t comm_handle \<Rightarrow> bool" where
  "is_subscribed h \<longleftrightarrow> (case ch_state h of Subscribed _ \<Rightarrow> True | _ \<Rightarrow> False)"

fun failure_kind :: "send_failure \<Rightarrow> error_kind" where
  "failure_kind Disconnected = SubscriptionClosed"
| "failure_kind Full = StreamOverflow"
| "failure_kind OtherFailure = Unexpected"

definition comm_try_send :: "'t \<Rightarrow> 't comm_handle \<Rightarrow> ('t propagate_error, unit) result \<times> 't comm_handle" where
  "comm_try_send item h =
     (case ch_state h of
        NotSubscribed \<Rightarrow> (Inl \<lparr>pe_kind = NotSubscribedError, pe_item = item\<rparr>, h)
      | Pending _ \<Rightarrow> (Inr (), h\<lparr>ch_state := Pending item\<rparr>)
      | Subscribed tx \<Rightarrow>
          (let (failure, tx) = sender_try_send item tx; h = h\<lparr>ch_state := Subscribed tx\<rparr>
           in case failure of
                None \<Rightarrow> (Inr (), h)
              | Some e \<Rightarrow> (Inl \<lparr>pe_kind = failure_kind e, pe_item = item\<rparr>, h)))"

definition comm_update :: "'t comm_handle \<Rightarrow> 't comm_handle \<Rightarrow> 't comm_handle" where
  "comm_update newer h =
     (let h' = h\<lparr>ch_direction := ch_direction newer, ch_state := ch_state newer\<rparr>
      in case ch_state h of
           Pending item \<Rightarrow> snd (comm_try_send item h')
         | _ \<Rightarrow> h')"

text \<open>The unwrapped send of the pending item panics when the new channel refuses it.\<close>

definition subscribe :: "(nat \<Rightarrow> send_failure option) \<Rightarrow> 't comm_handle \<Rightarrow> 't comm_handle option" where
  "subscribe failure h =
     (let tx = sender_new failure
      in case ch_state h of
           Pending item \<Rightarrow>
             (let (e, tx) = sender_try_send item tx
              in if e = None then Some (h\<lparr>ch_state := Subscribed tx\<rparr>) else None)
         | _ \<Rightarrow> Some (h\<lparr>ch_state := Subscribed tx\<rparr>))"

section \<open>The handles of a peer\<close>

record 'bid chain_pull_request =
  pull_from :: "'bid list"
  pull_to :: 'bid

record ('addr, 'bid, 'hd, 'fr, 'go) peer_comms =
  remote_addr :: 'addr
  block_announcements :: "'hd comm_handle"
  block_solicitations :: "'bid list comm_handle"
  chain_pulls :: "'bid chain_pull_request comm_handle"
  fragments_handle :: "'fr comm_handle"
  gossip_handle :: "'go comm_handle"

definition peer_comms_new :: "'addr \<Rightarrow> ('addr, 'bid, 'hd, 'fr, 'go) peer_comms" where
  "peer_comms_new addr =
     \<lparr>remote_addr = addr, block_announcements = comm_handle_default, block_solicitations = comm_handle_default,
      chain_pulls = comm_handle_default, fragments_handle = comm_handle_default, gossip_handle = comm_handle_default\<rparr>"

definition has_client_subscriptions :: "('addr, 'bid, 'hd, 'fr, 'go) peer_comms \<Rightarrow> bool" where
  "has_client_subscriptions c \<longleftrightarrow> is_client (block_announcements c) \<or> is_client (fragments_handle c) \<or> is_client (gossip_handle c)"

definition peer_comms_update ::
  "('addr, 'bid, 'hd, 'fr, 'go) peer_comms \<Rightarrow> ('addr, 'bid, 'hd, 'fr, 'go) peer_comms \<Rightarrow> ('addr, 'bid, 'hd, 'fr, 'go) peer_comms" where
  "peer_comms_update newer c =
     c\<lparr>block_announcements := comm_update (block_announcements newer) (block_announcements c),
       fragments_handle := comm_update (fragments_handle newer) (fragments_handle c),
       gossip_handle := comm_update (gossip_handle newer) (gossip_handle c),
       block_solicitations := comm_update (block_solicitations newer) (block_solicitations c),
       chain_pulls := comm_update (chain_pulls newer) (chain_pulls c)\<rparr>"

definition peer_comms_clear_pending :: "('addr, 'bid, 'hd, 'fr, 'go) peer_comms \<Rightarrow> ('addr, 'bid, 'hd, 'fr, 'go) peer_comms" where
  "peer_comms_clear_pending c =
     c\<lparr>block_announcements := clear_pending (block_announcements c),
       fragments_handle := clear_pending (fragments_handle c),
       gossip_handle := clear_pending (gossip_handle c),
       block_solicitations := clear_pending (block_solicitations c),
       chain_pulls := clear_pending (chain_pulls c)\<rparr>"

definition set_pending_block_announcement ::
  "'hd \<Rightarrow> ('addr, 'bid, 'hd, 'fr, 'go) peer_comms \<Rightarrow> ('addr, 'bid, 'hd, 'fr, 'go) peer_comms" where
  "set_pending_block_announcement header c = c\<lparr>block_announcements := client_pending header\<rparr>"

definition set_pending_fragment ::
  "'fr \<Rightarrow> ('addr, 'bid, 'hd, 'fr, 'go) peer_comms \<Rightarrow> ('addr, 'bid, 'hd, 'fr, 'go) peer_comms" where
  "set_pending_fragment fragment c = c\<lparr>fragments_handle := client_pending fragment\<rparr>"

definition set_pending_gossip ::
  "'go \<Rightarrow> ('addr, 'bid, 'hd, 'fr, 'go) peer_comms \<Rightarrow> ('addr, 'bid, 'hd, 'fr, 'go) peer_comms" where
  "set_pending_gossip g c = c\<lparr>gossip_handle := client_pending g\<rparr>"

definition try_send_block_announcement ::
  "'hd \<Rightarrow> ('addr, 'bid, 'hd, 'fr, 'go) peer_comms
    \<Rightarrow> ('hd propagate_error, unit) result \<times> ('addr, 'bid, 'hd, 'fr, 'go) peer_comms" where
  "try_send_block_announcement header c =
     (let (r, h) = comm_try_send header (block_announcements c) in (r, c\<lparr>block_announcements := h\<rparr>))"

definition try_send_fragment ::
  "'fr \<Rightarrow> ('addr, 'bid, 'hd, 'fr, 'go) peer_comms
    \<Rightarrow> ('fr propagate_error, unit) result \<times> ('addr, 'bid, 'hd, 'fr, 'go) peer_comms" where
  "try_send_fragment fragment c = (let (r, h) = comm_try_send fragment (fragments_handle c) in (r, c\<lparr>fragments_handle := h\<rparr>))"

definition try_send_gossip ::
  "'go \<Rightarrow> ('addr, 'bid, 'hd, 'fr, 'go) peer_comms
    \<Rightarrow> ('go propagate_error, unit) result \<times> ('addr, 'bid, 'hd, 'fr, 'go) peer_comms" where
  "try_send_gossip g c = (let (r, h) = comm_try_send g (gossip_handle c) in (r, c\<lparr>gossip_handle := h\<rparr>))"

text \<open>The stream of block events merges three subscriptions, each on its own channel.\<close>

definition subscribe_comms_to_block_events ::
  "(nat \<Rightarrow> send_failure option) \<Rightarrow> (nat \<Rightarrow> send_failure option) \<Rightarrow> (nat \<Rightarrow> send_failure option)
    \<Rightarrow> ('addr, 'bid, 'hd, 'fr, 'go) peer_comms \<Rightarrow> ('addr, 'bid, 'hd, 'fr, 'go) peer_comms option" where
  "subscribe_comms_to_block_events f1 f2 f3 c =
     (case subscribe f1 (block_announcements c) of
        None \<Rightarrow> None
      | Some announce \<Rightarrow>
          (case subscribe f2 (block_solicitations c) of
             None \<Rightarrow> None
           | Some solicit \<Rightarrow>
               (case subscribe f3 (chain_pulls c) of
                  None \<Rightarrow> None
                | Some missing \<Rightarrow>
                    Some (c\<lparr>block_announcements := announce, block_solicitations := solicit, chain_pulls := missing\<rparr>))))"

definition subscribe_comms_to_fragments ::
  "(nat \<Rightarrow> send_failure option) \<Rightarrow> ('addr, 'bid, 'hd, 'fr, 'go) peer_comms \<Rightarrow> ('addr, 'bid, 'hd, 'fr, 'go) peer_comms option" where
  "subscribe_comms_to_fragments f c = map_option (\<lambda>h. c\<lparr>fragments_handle := h\<rparr>) (subscribe f (fragments_handle c))"

definition subscribe_comms_to_gossip ::
  "(nat \<Rightarrow> send_failure option) \<Rightarrow> ('addr, 'bid, 'hd, 'fr, 'go) peer_comms \<Rightarrow> ('addr, 'bid, 'hd, 'fr, 'go) peer_comms option" where
  "subscribe_comms_to_gossip f c = map_option (\<lambda>h. c\<lparr>gossip_handle := h\<rparr>) (subscribe f (gossip_handle c))"

section \<open>Connection attempts\<close>

datatype 'c poll = StillConnecting | Connected 'c | ConnectCanceled

record 'c connect_handle =
  cn_polls :: nat
  cn_answer :: "nat \<Rightarrow> 'c poll"

definition try_complete :: "'c connect_handle \<Rightarrow> 'c poll \<times> 'c connect_handle" where
  "try_complete handle = (cn_answer handle (cn_polls handle), handle\<lparr>cn_polls := cn_polls handle + 1\<rparr>)"

section \<open>Activity\<close>

record peer_stats =
  st_created :: nat
  last_block_received :: "nat option"
  last_fragment_received :: "nat option"
  last_gossip_received :: "nat option"

definition peer_stats_default :: "nat \<Rightarrow> peer_stats" where
  "peer_stats_default now =
     \<lparr>st_created = now, last_block_received = None, last_fragment_received = None, last_gossip_received = None\<rparr>"

fun update_last_timestamp :: "nat \<Rightarrow> nat option \<Rightarrow> nat option" where
  "update_last_timestamp timestamp None = Some timestamp"
| "update_last_timestamp timestamp (Some prev) = (if prev < timestamp then Some timestamp else Some prev)"

definition update_last_block_received :: "nat \<Rightarrow> peer_stats \<Rightarrow> peer_stats" where
  "update_last_block_received timestamp st = st\<lparr>last_block_received := update_last_timestamp timestamp (last_block_received st)\<rparr>"

definition update_last_fragment_received :: "nat \<Rightarrow> peer_stats \<Rightarrow> peer_stats" where
  "update_last_fragment_received timestamp st =
     st\<lparr>last_fragment_received := update_last_timestamp timestamp (last_fragment_received st)\<rparr>"

definition update_last_gossip_received :: "nat \<Rightarrow> peer_stats \<Rightarrow> peer_stats" where
  "update_last_gossip_received timestamp st = st\<lparr>last_gossip_received := update_last_timestamp timestamp (last_gossip_received st)\<rparr>"

definition unwrap_or :: "'a option \<Rightarrow> 'a \<Rightarrow> 'a" where
  "unwrap_or x d = (case x of None \<Rightarrow> d | Some v \<Rightarrow> v)"

definition last_activity :: "peer_stats \<Rightarrow> nat" where
  "last_activity st =
     max (unwrap_or (last_block_received st) (st_created st))
         (max (unwrap_or (last_fragment_received st) (st_created st)) (unwrap_or (last_gossip_received st) (st_created st)))"

section \<open>Lemmas\<close>

named_theorems comm_defs \<open>the operations on handles\<close>

lemmas handle_defs [comm_defs] = comm_try_send_def sender_try_send_def sender_new_def comm_handle_default_def client_pending_def

lemma comm_try_send_Ok:
  assumes "comm_try_send item h = (Inr (), h')"
  shows "(\<exists>tx. ch_state h = Subscribed tx \<and> ch_state h' = Subscribed (tx\<lparr>tx_attempts := tx_attempts tx + 1, tx_sent := tx_sent tx @ [item]\<rparr>))
       \<or> (\<exists>old. ch_state h = Pending old \<and> ch_state h' = Pending item)"
  using assms by (cases "ch_state h") (auto simp: comm_defs Let_def split: option.splits if_splits)

lemma comm_try_send_error:
  "comm_try_send item h = (Inl e, h') \<Longrightarrow> pe_item e = item"
  by (cases "ch_state h") (auto simp: comm_defs Let_def split: option.splits if_splits)

text \<open>A pending item is the first one a new subscription delivers, and a fresh channel never refuses it.\<close>

lemma subscribe_delivers_pending:
  assumes "fresh_channel failure"
  shows "\<exists>tx. subscribe failure h = Some (h\<lparr>ch_state := Subscribed tx\<rparr>)
            \<and> tx_sent tx = (case ch_state h of Pending item \<Rightarrow> [item] | _ \<Rightarrow> [])"
  using assms by (cases "ch_state h") (auto simp: subscribe_def fresh_channel_def comm_defs Let_def)

text \<open>When a newer connection takes over, a pending item is sent over it if it was subscribed and takes it.\<close>

lemma comm_update_delivers_pending:
  assumes "ch_state h = Pending item" and "ch_state newer = Subscribed tx" and "tx_failure tx (tx_attempts tx) = None"
  shows "ch_state (comm_update newer h) = Subscribed (tx\<lparr>tx_attempts := tx_attempts tx + 1, tx_sent := tx_sent tx @ [item]\<rparr>)"
  using assms by (simp add: comm_update_def comm_defs Let_def)

lemma comm_update_direction [simp]: "ch_direction (comm_update newer h) = ch_direction newer"
  by (auto simp: comm_update_def comm_defs Let_def split: subscription_state.splits option.splits prod.splits)

text \<open>Recorded activity never goes back, unless the system clock goes back behind the creation of the record.\<close>

lemma update_last_timestamp_mono: "c \<le> now \<Longrightarrow> unwrap_or x c \<le> unwrap_or (update_last_timestamp now x) c"
  by (cases x) (simp_all add: unwrap_or_def)

lemma last_activity_mono:
  assumes "st_created st \<le> now"
  shows "last_activity st \<le> last_activity (update_last_block_received now st)"
    and "last_activity st \<le> last_activity (update_last_fragment_received now st)"
    and "last_activity st \<le> last_activity (update_last_gossip_received now st)"
  using update_last_timestamp_mono [OF assms, of "last_block_received st"]
    update_last_timestamp_mono [OF assms, of "last_fragment_received st"]
    update_last_timestamp_mono [OF assms, of "last_gossip_received st"]
  by (simp_all only: last_activity_def update_last_block_received_def update_last_fragment_received_def
      update_last_gossip_received_def) (simp_all, arith+)

lemma remote_addr_simps [simp]:
  "remote_addr (peer_comms_new addr) = addr"
  "remote_addr (peer_comms_update newer c) = remote_addr c"
  "remote_addr (peer_comms_clear_pending c) = remote_addr c"
  "remote_addr (set_pending_block_announcement header c) = remote_addr c"
  "remote_addr (set_pending_fragment fr c) = remote_addr c"
  "remote_addr (set_pending_gossip go c) = remote_addr c"
  "remote_addr (snd (try_send_block_announcement header c)) = remote_addr c"
  "remote_addr (snd (try_send_fragment fr c)) = remote_addr c"
  "remote_addr (snd (try_send_gossip go c)) = remote_addr c"
  by (simp_all add: peer_comms_new_def peer_comms_update_def peer_comms_clear_pending_def set_pending_block_announcement_def
      set_pending_fragment_def set_pending_gossip_def try_send_block_announcement_def try_send_fragment_def
      try_send_gossip_def split: prod.splits)

lemma subscribe_comms:
  "fresh_channel f1 \<Longrightarrow> fresh_channel f2 \<Longrightarrow> fresh_channel f3 \<Longrightarrow>
     \<exists>c'. subscribe_comms_to_block_events f1 f2 f3 c = Some c' \<and> remote_addr c' = remote_addr c"
  "fresh_channel f \<Longrightarrow> \<exists>c'. subscribe_comms_to_fragments f c = Some c' \<and> remote_addr c' = remote_addr c"
  "fresh_channel f \<Longrightarrow> \<exists>c'. subscribe_comms_to_gossip f c = Some c' \<and> remote_addr c' = remote_addr c"
    apply (use subscribe_delivers_pending [of f1 "block_announcements c"] subscribe_delivers_pending [of f2 "block_solicitations c"]
      subscribe_delivers_pending [of f3 "chain_pulls c"] in \<open>auto simp: subscribe_comms_to_block_events_def\<close>) [1]
   apply (use subscribe_delivers_pending [of f "fragments_handle c"] in \<open>auto simp: subscribe_comms_to_fragments_def\<close>) [1]
  apply (use subscribe_delivers_pending [of f "gossip_handle c"] in \<open>auto simp: subscribe_comms_to_gossip_def\<close>) [1]
  done

end
