(* ===== verification/Linked_Map.thy ===== *)
theory Linked_Map
  imports Prelude
begin

text \<open>
  The interface of the \<^verbatim>\<open>linked_hash_map\<close> crate's \<^verbatim>\<open>LinkedHashMap\<close>, a map that remembers
  the order in which its keys were inserted. The crate is not part of the repository: its operations are a parameter
  of the model, the record \<open>linked_ops\<close>, and the locale \<open>linked_map\<close> states the documented behaviour the
  code relies on, in terms of the entries from the front to the back (the order of
  \<^verbatim>\<open>LinkedHashMap::iter\<close>).

  \<open>lm_update\<close> is the write through the reference that \<^verbatim>\<open>get_mut\<close>,
  \<^verbatim>\<open>iter_mut\<close> or an occupied entry gives, and keeps the order; \<open>lm_get_refresh\<close> moves the entry to
  the back; \<open>lm_insert\<close> moves or adds the entry to the back. The interpretation at the end, on association lists
  with distinct keys, shows that the laws can hold together.
\<close>

record ('m, 'k, 'v) linked_ops =
  lm_new :: 'm
  lm_iter :: "'m \<Rightarrow> ('k \<times> 'v) list"
  lm_get :: "'m \<Rightarrow> 'k \<Rightarrow> 'v option"
  lm_insert :: "'m \<Rightarrow> 'k \<Rightarrow> 'v \<Rightarrow> 'm"
  lm_update :: "'m \<Rightarrow> 'k \<Rightarrow> ('v \<Rightarrow> 'v) \<Rightarrow> 'm"
  lm_get_refresh :: "'m \<Rightarrow> 'k \<Rightarrow> ('v \<Rightarrow> 'v) \<Rightarrow> 'v option \<times> 'm"
  lm_remove :: "'m \<Rightarrow> 'k \<Rightarrow> 'v option \<times> 'm"
  lm_pop_front :: "'m \<Rightarrow> ('k \<times> 'v) option \<times> 'm"

abbreviation lm_contains :: "('m, 'k, 'v) linked_ops \<Rightarrow> 'm \<Rightarrow> 'k \<Rightarrow> bool" where
  "lm_contains M m k \<equiv> lm_get M m k \<noteq> None"

text \<open>Writing to the value of a key, and moving a key to the back.\<close>

definition map_at :: "'k \<Rightarrow> ('v \<Rightarrow> 'v) \<Rightarrow> ('k \<times> 'v) list \<Rightarrow> ('k \<times> 'v) list" where
  "map_at k f = map (\<lambda>(k', v). (k', if k' = k then f v else v))"

definition to_back :: "'k \<Rightarrow> ('v \<Rightarrow> 'v) \<Rightarrow> ('k \<times> 'v) list \<Rightarrow> ('k \<times> 'v) list" where
  "to_back k f xs = (case map_of xs k of None \<Rightarrow> xs | Some v \<Rightarrow> AList.delete k xs @ [(k, f v)])"

lemma keys_map_at [simp]: "keys_of (map_at k f xs) = keys_of xs"
  by (auto simp: map_at_def)

lemma length_map_at [simp]: "length (map_at k f xs) = length xs"
  by (simp add: map_at_def)

lemma map_of_map_at: "map_of (map_at k f xs) k' = (if k' = k then map_option f (map_of xs k) else map_of xs k')"
  by (induction xs) (auto simp: map_at_def)

lemma map_of_to_back: "map_of (to_back k f xs) k' = (if k' = k then map_option f (map_of xs k) else map_of xs k')"
  by (cases "map_of xs k") (auto simp: to_back_def map_add_def split: option.splits)

lemma wf_alist_to_back: "wf_alist xs \<Longrightarrow> wf_alist (to_back k f xs)"
  by (cases "map_of xs k") (auto simp: to_back_def)

lemma length_to_back:
  assumes "wf_alist xs"
  shows "length (to_back k f xs) = length xs"
proof (cases "map_of xs k")
  case (Some v)
  then have "k \<in> set (keys_of xs)" by (force dest: map_of_SomeD)
  with Some assms show ?thesis using length_adelete_mem by (simp add: to_back_def)
qed (simp add: to_back_def)

lemma map_of_snoc_delete: "map_of (AList.delete k xs @ [(k, v)]) = (map_of xs)(k \<mapsto> v)"
  by (rule ext) (auto simp: map_add_def split: option.splits)

locale linked_map =
  fixes M :: "('m, 'k, 'v) linked_ops"
  assumes iter_new: "lm_iter M (lm_new M) = []"
    and keys_distinct: "distinct (map fst (lm_iter M m))"
    and get_result: "lm_get M m k = map_of (lm_iter M m) k"
    and iter_insert: "lm_iter M (lm_insert M m k v) = AList.delete k (lm_iter M m) @ [(k, v)]"
    and iter_update: "lm_iter M (lm_update M m k f) = map_at k f (lm_iter M m)"
    and get_refresh_result: "fst (lm_get_refresh M m k f) = map_of (lm_iter M m) k"
    and iter_get_refresh: "lm_iter M (snd (lm_get_refresh M m k f)) = to_back k f (lm_iter M m)"
    and remove_result: "fst (lm_remove M m k) = map_of (lm_iter M m) k"
    and iter_remove: "lm_iter M (snd (lm_remove M m k)) = AList.delete k (lm_iter M m)"
    and pop_front_result: "fst (lm_pop_front M m) = (case lm_iter M m of [] \<Rightarrow> None | p # _ \<Rightarrow> Some p)"
    and iter_pop_front: "lm_iter M (snd (lm_pop_front M m)) = tl (lm_iter M m)"
begin

lemmas iters = iter_new iter_insert iter_update iter_get_refresh iter_remove iter_pop_front
lemmas results = get_result get_refresh_result remove_result pop_front_result

text \<open>Lookup after each operation.\<close>

lemma get_new: "lm_get M (lm_new M) k = None"
  by (simp add: get_result iter_new)

lemma get_insert: "lm_get M (lm_insert M m k v) = (lm_get M m)(k \<mapsto> v)"
  by (rule ext) (auto simp: get_result iter_insert map_add_def split: option.splits)

lemma get_update: "lm_get M (lm_update M m k f) k' = (if k' = k then map_option f (lm_get M m k) else lm_get M m k')"
  by (simp add: get_result iter_update map_of_map_at)

lemma get_get_refresh:
  "lm_get M (snd (lm_get_refresh M m k f)) k' = (if k' = k then map_option f (lm_get M m k) else lm_get M m k')"
  by (simp add: get_result iter_get_refresh map_of_to_back)

lemma get_remove: "lm_get M (snd (lm_remove M m k)) = (lm_get M m)(k := None)"
  by (rule ext) (simp add: get_result iter_remove)

lemma get_pop_front:
  "lm_iter M m = (k, v) # rest \<Longrightarrow> lm_get M (snd (lm_pop_front M m)) = (lm_get M m)(k := None)"
  using keys_distinct [of m] by (intro ext) (auto simp: get_result iter_pop_front map_of_eq_None_iff)

lemmas gets = get_new get_insert get_update get_get_refresh get_remove

text \<open>The number of entries after each operation.\<close>

lemma length_remove:
  "length (lm_iter M (snd (lm_remove M m k))) = length (lm_iter M m) - (if lm_get M m k = None then 0 else 1)"
proof (cases "lm_get M m k")
  case None
  then have "k \<notin> set (keys_of (lm_iter M m))" by (simp add: get_result key_mem_iff)
  with None show ?thesis by (simp only: iter_remove adelete_notin) simp
next
  case (Some v)
  then have "k \<in> set (keys_of (lm_iter M m))" by (simp add: get_result key_mem_iff)
  from length_adelete_mem [OF keys_distinct this] Some show ?thesis by (simp add: iter_remove)
qed

lemma length_update [simp]: "length (lm_iter M (lm_update M m k f)) = length (lm_iter M m)"
  by (simp add: iter_update)

lemma length_get_refresh [simp]: "length (lm_iter M (snd (lm_get_refresh M m k f))) = length (lm_iter M m)"
  by (simp add: iter_get_refresh length_to_back [OF keys_distinct])

lemma length_insert_new:
  "lm_get M m k = None \<Longrightarrow> length (lm_iter M (lm_insert M m k v)) = Suc (length (lm_iter M m))"
  using adelete_notin [of k "lm_iter M m"] by (simp add: iter_insert get_result map_of_eq_None_iff)

lemma present_nonempty: "lm_get M m k = Some v \<Longrightarrow> 0 < length (lm_iter M m)"
  by (cases "lm_iter M m") (auto simp: get_result)

end

section \<open>Association lists with distinct keys satisfy the laws\<close>

typedef ('k, 'v) linked_list = "{xs :: ('k \<times> 'v) list. wf_alist xs}"
  by (rule exI [of _ "[]"]) simp

setup_lifting type_definition_linked_list

lift_definition ll_new :: "('k, 'v) linked_list" is "[]"
  by simp

lift_definition ll_iter :: "('k, 'v) linked_list \<Rightarrow> ('k \<times> 'v) list" is "\<lambda>xs. xs" .

lift_definition ll_insert :: "('k, 'v) linked_list \<Rightarrow> 'k \<Rightarrow> 'v \<Rightarrow> ('k, 'v) linked_list" is
  "\<lambda>xs k v. AList.delete k xs @ [(k, v)]"
  by auto

lift_definition ll_update :: "('k, 'v) linked_list \<Rightarrow> 'k \<Rightarrow> ('v \<Rightarrow> 'v) \<Rightarrow> ('k, 'v) linked_list" is
  "\<lambda>xs k f. map_at k f xs"
  by simp

lift_definition ll_refresh :: "('k, 'v) linked_list \<Rightarrow> 'k \<Rightarrow> ('v \<Rightarrow> 'v) \<Rightarrow> ('k, 'v) linked_list" is
  "\<lambda>xs k f. to_back k f xs"
  by (rule wf_alist_to_back)

lift_definition ll_delete :: "('k, 'v) linked_list \<Rightarrow> 'k \<Rightarrow> ('k, 'v) linked_list" is
  "\<lambda>xs k. AList.delete k xs"
  by (rule wf_alist_adelete)

lift_definition ll_tl :: "('k, 'v) linked_list \<Rightarrow> ('k, 'v) linked_list" is tl
  by (simp add: map_tl distinct_tl)

definition linked_list_ops :: "(('k, 'v) linked_list, 'k, 'v) linked_ops" where
  "linked_list_ops =
     \<lparr>lm_new = ll_new, lm_iter = ll_iter, lm_get = (\<lambda>m. map_of (ll_iter m)), lm_insert = ll_insert, lm_update = ll_update,
      lm_get_refresh = (\<lambda>m k f. (map_of (ll_iter m) k, ll_refresh m k f)),
      lm_remove = (\<lambda>m k. (map_of (ll_iter m) k, ll_delete m k)),
      lm_pop_front = (\<lambda>m. (case ll_iter m of [] \<Rightarrow> None | p # _ \<Rightarrow> Some p, ll_tl m))\<rparr>"

interpretation linked: linked_map linked_list_ops
  by unfold_locales (simp_all add: linked_list_ops_def; transfer; simp)+

end
