(* ===== verification/Peer_Map.thy ===== *)
theory Peer_Map
  imports Peer_Comms Linked_Map Lru_Cache
begin

text \<open>
  The peers a node is connected to: \<^verbatim>\<open>jormungandr/src/network/p2p/comm/peer_map.rs\<close> (the map of
  peers and the handshakes of clients) and the operations of \<^verbatim>\<open>Peers\<close> in
  \<^verbatim>\<open>jormungandr/src/network/p2p/comm.rs\<close>, each of which runs under the lock of the map.

  Random nonces, the verdict of a handshake verification, the clock and the behaviour of new channels are arguments
  of the operations. The gauge of connected peers of the metrics is a 64-bit counter of the map. A call of an
  operation is a value of \<open>peers_call\<close>; a run is a list of calls in the order in which they take the lock.
\<close>

section \<open>The maps of the libraries\<close>

record ('addr, 'bid, 'hd, 'fr, 'go) peer_data =
  pd_comms :: "('addr, 'bid, 'hd, 'fr, 'go) peer_comms"
  pd_stats :: peer_stats
  pd_connecting :: "('addr, 'bid, 'hd, 'fr, 'go) peer_comms connect_handle option"

record ('pm, 'am, 'lc, 'nid, 'no, 'addr, 'bid, 'hd, 'fr, 'go) peer_libs =
  pl_peers :: "('pm, 'nid, ('addr, 'bid, 'hd, 'fr, 'go) peer_data) linked_ops"
  pl_established :: "('am, 'addr, 'nid) linked_ops"
  pl_handshakes :: "('lc, 'addr, 'no) lru_ops"

locale peer_libraries =
  peers: linked_map "pl_peers Q" + established: linked_map "pl_established Q" + handshakes: lru_cache "pl_handshakes Q"
  for Q :: "('pm, 'am, 'lc, 'nid, 'no, 'addr, 'bid, 'hd, 'fr, 'go) peer_libs"

section \<open>Handshakes of clients\<close>

record ('lc, 'am) client_auth =
  in_progress :: 'lc
  established_clients :: 'am

definition DEFAULT_OPEN_HANDSHAKED_LIMIT :: nat where
  "DEFAULT_OPEN_HANDSHAKED_LIMIT = 128"

definition client_auth_default ::
  "('pm, 'am, 'lc, 'nid, 'no, 'addr, 'bid, 'hd, 'fr, 'go) peer_libs \<Rightarrow> ('lc, 'am) client_auth" where
  "client_auth_default Q =
     \<lparr>in_progress = lru_new (pl_handshakes Q) DEFAULT_OPEN_HANDSHAKED_LIMIT, established_clients = lm_new (pl_established Q)\<rparr>"

datatype 'ne handshake_error = FailedPrecondition | VerifyError 'ne

definition ca_generate_auth_nonce ::
  "('pm, 'am, 'lc, 'nid, 'no, 'addr, 'bid, 'hd, 'fr, 'go) peer_libs \<Rightarrow> 'no \<Rightarrow> 'addr \<Rightarrow> ('lc, 'am) client_auth
    \<Rightarrow> 'no \<times> ('lc, 'am) client_auth" where
  "ca_generate_auth_nonce Q nonce addr a =
     (nonce, a\<lparr>established_clients := snd (lm_remove (pl_established Q) (established_clients a) addr),
               in_progress := lru_put (pl_handshakes Q) (in_progress a) addr nonce\<rparr>)"

definition ca_complete_handshake ::
  "('pm, 'am, 'lc, 'nid, 'no, 'addr, 'bid, 'hd, 'fr, 'go) peer_libs \<Rightarrow> 'addr \<Rightarrow> 'nid \<Rightarrow> ('no \<Rightarrow> ('ne, unit) result)
    \<Rightarrow> ('lc, 'am) client_auth \<Rightarrow> ('ne handshake_error, unit) result \<times> ('lc, 'am) client_auth" where
  "ca_complete_handshake Q addr i verify a =
     (let (found, rest) = lru_pop (pl_handshakes Q) (in_progress a) addr; a = a\<lparr>in_progress := rest\<rparr>
      in case found of
           Some nonce \<Rightarrow>
             (case verify nonce of
                Inl e \<Rightarrow> (Inl (VerifyError e), a)
              | Inr _ \<Rightarrow> (Inr (), a\<lparr>established_clients := lm_insert (pl_established Q) (established_clients a) addr i\<rparr>))
         | None \<Rightarrow> (Inl FailedPrecondition, a))"

definition ca_remove ::
  "('pm, 'am, 'lc, 'nid, 'no, 'addr, 'bid, 'hd, 'fr, 'go) peer_libs \<Rightarrow> 'addr \<Rightarrow> ('lc, 'am) client_auth
    \<Rightarrow> 'nid option \<times> ('lc, 'am) client_auth" where
  "ca_remove Q addr a =
     (let (i, rest) = lm_remove (pl_established Q) (established_clients a) addr in (i, a\<lparr>established_clients := rest\<rparr>))"

definition ca_client_id ::
  "('pm, 'am, 'lc, 'nid, 'no, 'addr, 'bid, 'hd, 'fr, 'go) peer_libs \<Rightarrow> ('lc, 'am) client_auth \<Rightarrow> 'addr \<Rightarrow> 'nid option" where
  "ca_client_id Q a addr = lm_get (pl_established Q) (established_clients a) addr"

section \<open>The data of a peer\<close>

datatype comm_status = Connecting | Established

definition peer_data_new :: "nat \<Rightarrow> 'addr \<Rightarrow> ('addr, 'bid, 'hd, 'fr, 'go) peer_data" where
  "peer_data_new now addr =
     \<lparr>pd_comms = peer_comms_new addr, pd_stats = peer_stats_default now, pd_connecting = None\<rparr>"

definition update_comm_status :: "('addr, 'bid, 'hd, 'fr, 'go) peer_data \<Rightarrow> comm_status \<times> ('addr, 'bid, 'hd, 'fr, 'go) peer_data" where
  "update_comm_status d =
     (case pd_connecting d of
        None \<Rightarrow> (Established, d)
      | Some handle \<Rightarrow>
          (let (answer, handle) = try_complete handle
           in case answer of
                StillConnecting \<Rightarrow> (Connecting, d\<lparr>pd_connecting := Some handle\<rparr>)
              | Connected comms \<Rightarrow> (Established, d\<lparr>pd_connecting := None, pd_comms := peer_comms_update comms (pd_comms d)\<rparr>)
              | ConnectCanceled \<Rightarrow> (Established, d\<lparr>pd_connecting := None\<rparr>)))"

definition pd_server_comms :: "('addr, 'bid, 'hd, 'fr, 'go) peer_data \<Rightarrow> ('addr, 'bid, 'hd, 'fr, 'go) peer_data" where
  "pd_server_comms d = d\<lparr>pd_connecting := None, pd_comms := peer_comms_clear_pending (pd_comms d)\<rparr>"

section \<open>The map of peers\<close>

record ('pm, 'am, 'lc) peer_map =
  pm_map :: 'pm
  pm_client_auth :: "('lc, 'am) client_auth"
  pm_capacity :: nat
  pm_connected :: u64

definition peer_map_new ::
  "('pm, 'am, 'lc, 'nid, 'no, 'addr, 'bid, 'hd, 'fr, 'go) peer_libs \<Rightarrow> nat \<Rightarrow> ('pm, 'am, 'lc) peer_map" where
  "peer_map_new Q capacity =
     \<lparr>pm_map = lm_new (pl_peers Q), pm_client_auth = client_auth_default Q, pm_capacity = capacity, pm_connected = 0\<rparr>"

abbreviation pm_get ::
  "('pm, 'am, 'lc, 'nid, 'no, 'addr, 'bid, 'hd, 'fr, 'go) peer_libs \<Rightarrow> ('pm, 'am, 'lc) peer_map
    \<Rightarrow> 'nid \<Rightarrow> ('addr, 'bid, 'hd, 'fr, 'go) peer_data option" where
  "pm_get Q pm i \<equiv> lm_get (pl_peers Q) (pm_map pm) i"

abbreviation pm_len ::
  "('pm, 'am, 'lc, 'nid, 'no, 'addr, 'bid, 'hd, 'fr, 'go) peer_libs \<Rightarrow> ('pm, 'am, 'lc) peer_map \<Rightarrow> nat" where
  "pm_len Q pm \<equiv> length (lm_iter (pl_peers Q) (pm_map pm))"

text \<open>The write of peer data back to the entry it was read from.\<close>

definition pm_write ::
  "('pm, 'am, 'lc, 'nid, 'no, 'addr, 'bid, 'hd, 'fr, 'go) peer_libs \<Rightarrow> 'nid \<Rightarrow> ('addr, 'bid, 'hd, 'fr, 'go) peer_data
    \<Rightarrow> ('pm, 'am, 'lc) peer_map \<Rightarrow> ('pm, 'am, 'lc) peer_map" where
  "pm_write Q i d pm = pm\<lparr>pm_map := lm_update (pl_peers Q) (pm_map pm) i (\<lambda>_. d)\<rparr>"

definition peer_map_clear ::
  "('pm, 'am, 'lc, 'nid, 'no, 'addr, 'bid, 'hd, 'fr, 'go) peer_libs \<Rightarrow> ('pm, 'am, 'lc) peer_map \<Rightarrow> ('pm, 'am, 'lc) peer_map" where
  "peer_map_clear Q pm = pm\<lparr>pm_connected := pm_connected pm - of_nat (pm_len Q pm), pm_map := lm_new (pl_peers Q)\<rparr>"

definition refresh_peer ::
  "('pm, 'am, 'lc, 'nid, 'no, 'addr, 'bid, 'hd, 'fr, 'go) peer_libs \<Rightarrow> 'nid \<Rightarrow> (peer_stats \<Rightarrow> peer_stats)
    \<Rightarrow> ('pm, 'am, 'lc) peer_map \<Rightarrow> bool \<times> ('pm, 'am, 'lc) peer_map" where
  "refresh_peer Q i f pm =
     (let (found, m) = lm_get_refresh (pl_peers Q) (pm_map pm) i (\<lambda>d. d\<lparr>pd_stats := f (pd_stats d)\<rparr>)
      in (found \<noteq> None, pm\<lparr>pm_map := m\<rparr>))"

text \<open>\<open>pm_comms\<close> is \<^verbatim>\<open>PeerMap::peer_comms\<close>: it brings the entry up to date.\<close>

definition pm_comms ::
  "('pm, 'am, 'lc, 'nid, 'no, 'addr, 'bid, 'hd, 'fr, 'go) peer_libs \<Rightarrow> 'nid \<Rightarrow> ('pm, 'am, 'lc) peer_map
    \<Rightarrow> ('addr, 'bid, 'hd, 'fr, 'go) peer_comms option \<times> ('pm, 'am, 'lc) peer_map" where
  "pm_comms Q i pm =
     (case pm_get Q pm i of
        None \<Rightarrow> (None, pm)
      | Some d \<Rightarrow> (let (_, d) = update_comm_status d in (Some (pd_comms d), pm_write Q i d pm)))"

definition pm_auth_remove ::
  "('pm, 'am, 'lc, 'nid, 'no, 'addr, 'bid, 'hd, 'fr, 'go) peer_libs \<Rightarrow> 'addr \<Rightarrow> ('pm, 'am, 'lc) peer_map \<Rightarrow> ('pm, 'am, 'lc) peer_map" where
  "pm_auth_remove Q addr pm = pm\<lparr>pm_client_auth := snd (ca_remove Q addr (pm_client_auth pm))\<rparr>"

definition evict_if_full ::
  "('pm, 'am, 'lc, 'nid, 'no, 'addr, 'bid, 'hd, 'fr, 'go) peer_libs \<Rightarrow> ('pm, 'am, 'lc) peer_map \<Rightarrow> ('pm, 'am, 'lc) peer_map" where
  "evict_if_full Q pm =
     (if pm_len Q pm \<ge> pm_capacity pm then
        (let (popped, m) = lm_pop_front (pl_peers Q) (pm_map pm); pm = pm\<lparr>pm_map := m\<rparr>
         in case popped of
              None \<Rightarrow> pm
            | Some (_, v) \<Rightarrow> pm_auth_remove Q (remote_addr (pd_comms v)) (pm\<lparr>pm_connected := pm_connected pm - 1\<rparr>))
      else pm)"

text \<open>The entry is \<^verbatim>\<open>entry(id).or_insert_with(...)\<close>: a new peer goes to the back.\<close>

definition ensure_peer ::
  "('pm, 'am, 'lc, 'nid, 'no, 'addr, 'bid, 'hd, 'fr, 'go) peer_libs \<Rightarrow> nat \<Rightarrow> 'nid \<Rightarrow> 'addr
    \<Rightarrow> ('pm, 'am, 'lc) peer_map \<Rightarrow> ('addr, 'bid, 'hd, 'fr, 'go) peer_data \<times> ('pm, 'am, 'lc) peer_map" where
  "ensure_peer Q now i addr pm =
     (let pm = (if pm_get Q pm i = None
                then (let pm = evict_if_full Q pm in pm\<lparr>pm_connected := pm_connected pm + 1\<rparr>)
                else pm)
      in case pm_get Q pm i of
           Some d \<Rightarrow> (d, pm)
         | None \<Rightarrow> (peer_data_new now addr, pm\<lparr>pm_map := lm_insert (pl_peers Q) (pm_map pm) i (peer_data_new now addr)\<rparr>))"

definition pm_server_comms ::
  "('pm, 'am, 'lc, 'nid, 'no, 'addr, 'bid, 'hd, 'fr, 'go) peer_libs \<Rightarrow> 'nid \<Rightarrow> ('pm, 'am, 'lc) peer_map
    \<Rightarrow> ('addr, 'bid, 'hd, 'fr, 'go) peer_data option \<times> ('pm, 'am, 'lc) peer_map" where
  "pm_server_comms Q i pm =
     (case pm_get Q pm i of
        None \<Rightarrow> (None, pm)
      | Some d \<Rightarrow> (let d = pd_server_comms d in (Some d, pm_write Q i d pm)))"

definition pm_generate_auth_nonce ::
  "('pm, 'am, 'lc, 'nid, 'no, 'addr, 'bid, 'hd, 'fr, 'go) peer_libs \<Rightarrow> 'no \<Rightarrow> 'addr \<Rightarrow> ('pm, 'am, 'lc) peer_map
    \<Rightarrow> 'no \<times> ('pm, 'am, 'lc) peer_map" where
  "pm_generate_auth_nonce Q nonce addr pm =
     (let (n, a) = ca_generate_auth_nonce Q nonce addr (pm_client_auth pm) in (n, pm\<lparr>pm_client_auth := a\<rparr>))"

definition pm_client_id ::
  "('pm, 'am, 'lc, 'nid, 'no, 'addr, 'bid, 'hd, 'fr, 'go) peer_libs \<Rightarrow> ('pm, 'am, 'lc) peer_map \<Rightarrow> 'addr \<Rightarrow> 'nid option" where
  "pm_client_id Q pm addr = ca_client_id Q (pm_client_auth pm) addr"

definition add_client ::
  "('pm, 'am, 'lc, 'nid, 'no, 'addr, 'bid, 'hd, 'fr, 'go) peer_libs \<Rightarrow> nat \<Rightarrow> 'nid \<Rightarrow> 'addr
    \<Rightarrow> ('pm, 'am, 'lc) peer_map \<Rightarrow> ('pm, 'am, 'lc) peer_map" where
  "add_client Q now i addr pm =
     (let (d, pm) = ensure_peer Q now i addr pm; (_, d) = update_comm_status d in pm_write Q i d pm)"

definition add_connecting ::
  "('pm, 'am, 'lc, 'nid, 'no, 'addr, 'bid, 'hd, 'fr, 'go) peer_libs \<Rightarrow> nat \<Rightarrow> 'nid \<Rightarrow> 'addr
    \<Rightarrow> ('addr, 'bid, 'hd, 'fr, 'go) peer_comms connect_handle \<Rightarrow> ('pm, 'am, 'lc) peer_map
    \<Rightarrow> ('addr, 'bid, 'hd, 'fr, 'go) peer_data \<times> ('pm, 'am, 'lc) peer_map" where
  "add_connecting Q now i addr handle pm =
     (let (d, pm) = ensure_peer Q now i addr pm; (_, d) = update_comm_status (d\<lparr>pd_connecting := Some handle\<rparr>)
      in (d, pm_write Q i d pm))"

definition pm_complete_handshake ::
  "('pm, 'am, 'lc, 'nid, 'no, 'addr, 'bid, 'hd, 'fr, 'go) peer_libs \<Rightarrow> nat \<Rightarrow> 'addr \<Rightarrow> 'nid \<Rightarrow> ('no \<Rightarrow> ('ne, unit) result)
    \<Rightarrow> ('pm, 'am, 'lc) peer_map \<Rightarrow> ('ne handshake_error, unit) result \<times> ('pm, 'am, 'lc) peer_map" where
  "pm_complete_handshake Q now addr i verify pm =
     (let (r, a) = ca_complete_handshake Q addr i verify (pm_client_auth pm); pm = pm\<lparr>pm_client_auth := a\<rparr>
      in case r of
           Inl e \<Rightarrow> (Inl e, pm)
         | Inr _ \<Rightarrow> (Inr (), add_client Q now i addr pm))"

definition pm_remove_peer ::
  "('pm, 'am, 'lc, 'nid, 'no, 'addr, 'bid, 'hd, 'fr, 'go) peer_libs \<Rightarrow> 'nid \<Rightarrow> ('pm, 'am, 'lc) peer_map
    \<Rightarrow> ('addr, 'bid, 'hd, 'fr, 'go) peer_comms option \<times> ('pm, 'am, 'lc) peer_map" where
  "pm_remove_peer Q i pm =
     (let (removed, m) = lm_remove (pl_peers Q) (pm_map pm) i; pm = pm\<lparr>pm_map := m\<rparr>
      in case removed of
           None \<Rightarrow> (None, pm)
         | Some d \<Rightarrow>
             (let (_, d) = update_comm_status d
              in (Some (pd_comms d),
                  pm_auth_remove Q (remote_addr (pd_comms d)) (pm\<lparr>pm_connected := pm_connected pm - 1\<rparr>))))"

text \<open>The peers are polled from the back, the most recently refreshed one first.\<close>

fun next_peer_scan ::
  "('pm, 'am, 'lc, 'nid, 'no, 'addr, 'bid, 'hd, 'fr, 'go) peer_libs \<Rightarrow> ('nid \<times> ('addr, 'bid, 'hd, 'fr, 'go) peer_data) list
    \<Rightarrow> ('pm, 'am, 'lc) peer_map \<Rightarrow> 'nid option \<times> ('pm, 'am, 'lc) peer_map" where
  "next_peer_scan Q [] pm = (None, pm)"
| "next_peer_scan Q ((i, d) # ps) pm =
     (case update_comm_status d of
        (Established, d) \<Rightarrow> (Some i, pm_write Q i d pm)
      | (Connecting, d) \<Rightarrow> next_peer_scan Q ps (pm_write Q i d pm))"

definition next_peer_for_block_fetch ::
  "('pm, 'am, 'lc, 'nid, 'no, 'addr, 'bid, 'hd, 'fr, 'go) peer_libs \<Rightarrow> ('pm, 'am, 'lc) peer_map
    \<Rightarrow> 'nid option \<times> ('pm, 'am, 'lc) peer_map" where
  "next_peer_for_block_fetch Q pm = next_peer_scan Q (rev (lm_iter (pl_peers Q) (pm_map pm))) pm"

definition pm_infos ::
  "('pm, 'am, 'lc, 'nid, 'no, 'addr, 'bid, 'hd, 'fr, 'go) peer_libs \<Rightarrow> ('pm, 'am, 'lc) peer_map \<Rightarrow> ('nid \<times> peer_stats) list" where
  "pm_infos Q pm = map (\<lambda>(i, d). (i, pd_stats d)) (lm_iter (pl_peers Q) (pm_map pm))"

text \<open>The entries removed are removed from the map only: neither the gauge nor the handshakes are touched.\<close>

definition evict_clients ::
  "('pm, 'am, 'lc, 'nid, 'no, 'addr, 'bid, 'hd, 'fr, 'go) peer_libs \<Rightarrow> nat \<Rightarrow> ('pm, 'am, 'lc) peer_map \<Rightarrow> ('pm, 'am, 'lc) peer_map" where
  "evict_clients Q num pm =
     (let evicted = take num (filter (\<lambda>(_, d). has_client_subscriptions (pd_comms d)) (lm_iter (pl_peers Q) (pm_map pm)))
      in pm\<lparr>pm_map := fold (\<lambda>(i, _) m. snd (lm_remove (pl_peers Q) m i)) evicted (pm_map pm)\<rparr>)"

text \<open>Removal through an entry of the map, which holds the address the peer had when the entry was made.\<close>

definition entry_remove ::
  "('pm, 'am, 'lc, 'nid, 'no, 'addr, 'bid, 'hd, 'fr, 'go) peer_libs \<Rightarrow> 'nid \<Rightarrow> 'addr \<Rightarrow> ('pm, 'am, 'lc) peer_map
    \<Rightarrow> ('pm, 'am, 'lc) peer_map" where
  "entry_remove Q i addr pm =
     pm_auth_remove Q addr
       (pm\<lparr>pm_map := snd (lm_remove (pl_peers Q) (pm_map pm) i), pm_connected := pm_connected pm - 1\<rparr>)"

end
