(* ===== verification/Peers.thy ===== *)
theory Peers
  imports Peer_Map
begin

text \<open>
  The operations of \<^verbatim>\<open>Peers\<close> in \<^verbatim>\<open>jormungandr/src/network/p2p/comm.rs\<close>, the
  collection of connected peers that the network tasks share, and what holds after every sequence of calls: the
  number of peers stays within the capacity, a client is known under an identity only after it has answered the
  nonce it was sent, and the gauge of connected peers is exact as long as no client is evicted.
\<close>

section \<open>Operations\<close>

record ('hd, 'fr, 'go) connect_options =
  pending_block_announcement :: "'hd option"
  pending_fragment :: "'fr option"
  pending_gossip :: "'go option"
  opt_evict_clients :: nat

definition when_some :: "('a \<Rightarrow> 'b \<Rightarrow> 'b) \<Rightarrow> 'a option \<Rightarrow> 'b \<Rightarrow> 'b" where
  "when_some f x b = (case x of None \<Rightarrow> b | Some a \<Rightarrow> f a b)"

definition peers_add_connecting ::
  "('pm, 'am, 'lc, 'nid, 'no, 'addr, 'bid, 'hd, 'fr, 'go) peer_libs \<Rightarrow> nat \<Rightarrow> 'nid \<Rightarrow> 'addr
    \<Rightarrow> ('addr, 'bid, 'hd, 'fr, 'go) peer_comms connect_handle \<Rightarrow> ('hd, 'fr, 'go) connect_options
    \<Rightarrow> ('pm, 'am, 'lc) peer_map \<Rightarrow> ('pm, 'am, 'lc) peer_map" where
  "peers_add_connecting Q now peer addr handle options pm =
     (let pm = evict_clients Q (opt_evict_clients options) pm;
          (d, pm) = add_connecting Q now peer addr handle pm;
          comms = pd_comms d;
          comms = when_some set_pending_block_announcement (pending_block_announcement options) comms;
          comms = when_some set_pending_fragment (pending_fragment options) comms;
          comms = when_some set_pending_gossip (pending_gossip options) comms
      in pm_write Q peer (d\<lparr>pd_comms := comms\<rparr>) pm)"

definition update_entry ::
  "('pm, 'am, 'lc, 'nid, 'no, 'addr, 'bid, 'hd, 'fr, 'go) peer_libs \<Rightarrow> 'nid \<Rightarrow> ('pm, 'am, 'lc) peer_map \<Rightarrow> ('pm, 'am, 'lc) peer_map" where
  "update_entry Q peer pm =
     (case pm_get Q pm peer of
        None \<Rightarrow> pm
      | Some d \<Rightarrow> pm_write Q peer (snd (update_comm_status d)) pm)"

text \<open>The three subscriptions of the server side; the result says whether the peer was found.\<close>

definition server_subscribe ::
  "('pm, 'am, 'lc, 'nid, 'no, 'addr, 'bid, 'hd, 'fr, 'go) peer_libs
    \<Rightarrow> (('addr, 'bid, 'hd, 'fr, 'go) peer_comms \<Rightarrow> ('addr, 'bid, 'hd, 'fr, 'go) peer_comms option) \<Rightarrow> 'nid
    \<Rightarrow> ('pm, 'am, 'lc) peer_map \<Rightarrow> (bool \<times> ('pm, 'am, 'lc) peer_map) option" where
  "server_subscribe Q f peer pm =
     (case pm_server_comms Q peer pm of
        (None, pm) \<Rightarrow> Some (False, pm)
      | (Some d, pm) \<Rightarrow> map_option (\<lambda>comms. (True, pm_write Q peer (d\<lparr>pd_comms := comms\<rparr>) pm)) (f (pd_comms d)))"

definition subscribe_to_block_events ::
  "('pm, 'am, 'lc, 'nid, 'no, 'addr, 'bid, 'hd, 'fr, 'go) peer_libs \<Rightarrow> (nat \<Rightarrow> send_failure option) \<Rightarrow> (nat \<Rightarrow> send_failure option)
    \<Rightarrow> (nat \<Rightarrow> send_failure option) \<Rightarrow> 'nid \<Rightarrow> ('pm, 'am, 'lc) peer_map \<Rightarrow> (bool \<times> ('pm, 'am, 'lc) peer_map) option" where
  "subscribe_to_block_events Q f1 f2 f3 = server_subscribe Q (subscribe_comms_to_block_events f1 f2 f3)"

definition subscribe_to_fragments ::
  "('pm, 'am, 'lc, 'nid, 'no, 'addr, 'bid, 'hd, 'fr, 'go) peer_libs \<Rightarrow> (nat \<Rightarrow> send_failure option) \<Rightarrow> 'nid
    \<Rightarrow> ('pm, 'am, 'lc) peer_map \<Rightarrow> (bool \<times> ('pm, 'am, 'lc) peer_map) option" where
  "subscribe_to_fragments Q f = server_subscribe Q (subscribe_comms_to_fragments f)"

definition subscribe_to_gossip ::
  "('pm, 'am, 'lc, 'nid, 'no, 'addr, 'bid, 'hd, 'fr, 'go) peer_libs \<Rightarrow> (nat \<Rightarrow> send_failure option) \<Rightarrow> 'nid
    \<Rightarrow> ('pm, 'am, 'lc) peer_map \<Rightarrow> (bool \<times> ('pm, 'am, 'lc) peer_map) option" where
  "subscribe_to_gossip Q f = server_subscribe Q (subscribe_comms_to_gossip f)"

text \<open>The entry keeps the address the peer had before its status was updated.\<close>

definition propagate_with ::
  "('pm, 'am, 'lc, 'nid, 'no, 'addr, 'bid, 'hd, 'fr, 'go) peer_libs \<Rightarrow> 'nid
    \<Rightarrow> (comm_status \<Rightarrow> ('addr, 'bid, 'hd, 'fr, 'go) peer_comms \<Rightarrow> ('t propagate_error, unit) result \<times> ('addr, 'bid, 'hd, 'fr, 'go) peer_comms)
    \<Rightarrow> ('pm, 'am, 'lc) peer_map \<Rightarrow> ('nid, unit) result \<times> ('pm, 'am, 'lc) peer_map" where
  "propagate_with Q peer f pm =
     (case pm_get Q pm peer of
        None \<Rightarrow> (Inl peer, pm)
      | Some entry \<Rightarrow>
          (let (comm_status, d) = update_comm_status entry;
               (r, comms) = f comm_status (pd_comms d);
               pm = pm_write Q peer (d\<lparr>pd_comms := comms\<rparr>) pm
           in case r of
                Inr _ \<Rightarrow> (Inr (), pm)
              | Inl e \<Rightarrow> (Inl peer, entry_remove Q peer (remote_addr (pd_comms entry)) pm)))"

fun send_block :: "'hd \<Rightarrow> comm_status \<Rightarrow> ('addr, 'bid, 'hd, 'fr, 'go) peer_comms
    \<Rightarrow> ('hd propagate_error, unit) result \<times> ('addr, 'bid, 'hd, 'fr, 'go) peer_comms" where
  "send_block header Established comms = try_send_block_announcement header comms"
| "send_block header Connecting comms = (Inr (), set_pending_block_announcement header comms)"

fun send_fragment :: "'fr \<Rightarrow> comm_status \<Rightarrow> ('addr, 'bid, 'hd, 'fr, 'go) peer_comms
    \<Rightarrow> ('fr propagate_error, unit) result \<times> ('addr, 'bid, 'hd, 'fr, 'go) peer_comms" where
  "send_fragment fragment Established comms = try_send_fragment fragment comms"
| "send_fragment fragment Connecting comms = (Inr (), set_pending_fragment fragment comms)"

fun send_gossip :: "'go \<Rightarrow> comm_status \<Rightarrow> ('addr, 'bid, 'hd, 'fr, 'go) peer_comms
    \<Rightarrow> ('go propagate_error, unit) result \<times> ('addr, 'bid, 'hd, 'fr, 'go) peer_comms" where
  "send_gossip g Established comms = try_send_gossip g comms"
| "send_gossip g Connecting comms = (Inr (), set_pending_gossip g comms)"

definition propagate_block ::
  "('pm, 'am, 'lc, 'nid, 'no, 'addr, 'bid, 'hd, 'fr, 'go) peer_libs \<Rightarrow> 'nid \<Rightarrow> 'hd \<Rightarrow> ('pm, 'am, 'lc) peer_map
    \<Rightarrow> ('nid, unit) result \<times> ('pm, 'am, 'lc) peer_map" where
  "propagate_block Q peer header = propagate_with Q peer (send_block header)"

definition propagate_fragment ::
  "('pm, 'am, 'lc, 'nid, 'no, 'addr, 'bid, 'hd, 'fr, 'go) peer_libs \<Rightarrow> 'nid \<Rightarrow> 'fr \<Rightarrow> ('pm, 'am, 'lc) peer_map
    \<Rightarrow> ('nid, unit) result \<times> ('pm, 'am, 'lc) peer_map" where
  "propagate_fragment Q peer fragment = propagate_with Q peer (send_fragment fragment)"

definition propagate_gossip_to ::
  "('pm, 'am, 'lc, 'nid, 'no, 'addr, 'bid, 'hd, 'fr, 'go) peer_libs \<Rightarrow> 'nid \<Rightarrow> 'go \<Rightarrow> ('pm, 'am, 'lc) peer_map
    \<Rightarrow> ('go, unit) result \<times> ('pm, 'am, 'lc) peer_map" where
  "propagate_gossip_to Q peer g pm =
     (case pm_get Q pm peer of
        None \<Rightarrow> (Inl g, pm)
      | Some entry \<Rightarrow>
          (let (comm_status, d) = update_comm_status entry;
               (res, comms) = send_gossip g comm_status (pd_comms d);
               pm = pm_write Q peer (d\<lparr>pd_comms := comms\<rparr>) pm
           in case res of
                Inr _ \<Rightarrow> (Inr (), pm)
              | Inl e \<Rightarrow> (Inl (pe_item e), entry_remove Q peer (remote_addr (pd_comms entry)) pm)))"

definition refresh_peer_on_block ::
  "('pm, 'am, 'lc, 'nid, 'no, 'addr, 'bid, 'hd, 'fr, 'go) peer_libs \<Rightarrow> nat \<Rightarrow> 'nid \<Rightarrow> ('pm, 'am, 'lc) peer_map
    \<Rightarrow> bool \<times> ('pm, 'am, 'lc) peer_map" where
  "refresh_peer_on_block Q timestamp peer = refresh_peer Q peer (update_last_block_received timestamp)"

definition refresh_peer_on_fragment ::
  "('pm, 'am, 'lc, 'nid, 'no, 'addr, 'bid, 'hd, 'fr, 'go) peer_libs \<Rightarrow> nat \<Rightarrow> 'nid \<Rightarrow> ('pm, 'am, 'lc) peer_map
    \<Rightarrow> bool \<times> ('pm, 'am, 'lc) peer_map" where
  "refresh_peer_on_fragment Q timestamp peer = refresh_peer Q peer (update_last_fragment_received timestamp)"

definition refresh_peer_on_gossip ::
  "('pm, 'am, 'lc, 'nid, 'no, 'addr, 'bid, 'hd, 'fr, 'go) peer_libs \<Rightarrow> nat \<Rightarrow> 'nid \<Rightarrow> ('pm, 'am, 'lc) peer_map
    \<Rightarrow> bool \<times> ('pm, 'am, 'lc) peer_map" where
  "refresh_peer_on_gossip Q timestamp peer = refresh_peer Q peer (update_last_gossip_received timestamp)"

text \<open>A request over a handle of the peer; a peer that cannot be reached is removed.\<close>

definition solicit_blocks_peer ::
  "('pm, 'am, 'lc, 'nid, 'no, 'addr, 'bid, 'hd, 'fr, 'go) peer_libs \<Rightarrow> 'nid \<Rightarrow> 'bid list \<Rightarrow> ('pm, 'am, 'lc) peer_map
    \<Rightarrow> ('pm, 'am, 'lc) peer_map" where
  "solicit_blocks_peer Q peer hashes pm =
     (case pm_comms Q peer pm of
        (None, pm) \<Rightarrow> pm
      | (Some comms, pm) \<Rightarrow>
          (let (r, h) = comm_try_send hashes (block_solicitations comms);
               pm = pm\<lparr>pm_map := lm_update (pl_peers Q) (pm_map pm) peer (\<lambda>d. d\<lparr>pd_comms := comms\<lparr>block_solicitations := h\<rparr>\<rparr>)\<rparr>
           in case r of
                Inr _ \<Rightarrow> pm
              | Inl _ \<Rightarrow> snd (pm_remove_peer Q peer pm)))"

definition pull_headers ::
  "('pm, 'am, 'lc, 'nid, 'no, 'addr, 'bid, 'hd, 'fr, 'go) peer_libs \<Rightarrow> 'nid \<Rightarrow> 'bid list \<Rightarrow> 'bid \<Rightarrow> ('pm, 'am, 'lc) peer_map
    \<Rightarrow> ('pm, 'am, 'lc) peer_map" where
  "pull_headers Q peer from to pm =
     (case pm_comms Q peer pm of
        (None, pm) \<Rightarrow> pm
      | (Some comms, pm) \<Rightarrow>
          (let (r, h) = comm_try_send \<lparr>pull_from = from, pull_to = to\<rparr> (chain_pulls comms);
               pm = pm\<lparr>pm_map := lm_update (pl_peers Q) (pm_map pm) peer (\<lambda>d. d\<lparr>pd_comms := comms\<lparr>chain_pulls := h\<rparr>\<rparr>)\<rparr>
           in case r of
                Inr _ \<Rightarrow> pm
              | Inl _ \<Rightarrow> snd (pm_remove_peer Q peer pm)))"

text \<open>
  The lock is released between choosing the peer and soliciting it: other calls may come in between, which a run
  expresses by the two calls \<open>NextPeer\<close> and \<open>SolicitBlocksPeer\<close>. Without interference:
\<close>

definition solicit_blocks_any ::
  "('pm, 'am, 'lc, 'nid, 'no, 'addr, 'bid, 'hd, 'fr, 'go) peer_libs \<Rightarrow> 'bid list \<Rightarrow> ('pm, 'am, 'lc) peer_map
    \<Rightarrow> ('pm, 'am, 'lc) peer_map" where
  "solicit_blocks_any Q hashes pm =
     (case next_peer_for_block_fetch Q pm of
        (Some peer, pm) \<Rightarrow> solicit_blocks_peer Q peer hashes pm
      | (None, pm) \<Rightarrow> pm)"

section \<open>Runs\<close>

datatype ('nid, 'no, 'ne, 'addr, 'bid, 'hd, 'fr, 'go) peers_call =
    Clear
  | AddConnecting nat 'nid 'addr "('addr, 'bid, 'hd, 'fr, 'go) peer_comms connect_handle" "('hd, 'fr, 'go) connect_options"
  | UpdateEntry 'nid
  | RemovePeer 'nid
  | GenerateNonce 'no 'addr
  | CompleteHandshake nat 'addr 'nid "'no \<Rightarrow> ('ne, unit) result"
  | SubscribeBlocks "nat \<Rightarrow> send_failure option" "nat \<Rightarrow> send_failure option" "nat \<Rightarrow> send_failure option" 'nid
  | SubscribeFragments "nat \<Rightarrow> send_failure option" 'nid
  | SubscribeGossip "nat \<Rightarrow> send_failure option" 'nid
  | PropagateBlock 'nid 'hd
  | PropagateFragment 'nid 'fr
  | PropagateGossip 'nid 'go
  | RefreshOnBlock nat 'nid
  | RefreshOnFragment nat 'nid
  | RefreshOnGossip nat 'nid
  | NextPeer
  | SolicitBlocksPeer 'nid "'bid list"
  | PullHeadersFrom 'nid "'bid list" 'bid

fun peers_exec ::
  "('pm, 'am, 'lc, 'nid, 'no, 'addr, 'bid, 'hd, 'fr, 'go) peer_libs \<Rightarrow> ('nid, 'no, 'ne, 'addr, 'bid, 'hd, 'fr, 'go) peers_call
    \<Rightarrow> ('pm, 'am, 'lc) peer_map \<Rightarrow> ('pm, 'am, 'lc) peer_map option" where
  "peers_exec Q Clear pm = Some (peer_map_clear Q pm)"
| "peers_exec Q (AddConnecting now peer addr handle options) pm = Some (peers_add_connecting Q now peer addr handle options pm)"
| "peers_exec Q (UpdateEntry peer) pm = Some (update_entry Q peer pm)"
| "peers_exec Q (RemovePeer peer) pm = Some (snd (pm_remove_peer Q peer pm))"
| "peers_exec Q (GenerateNonce nonce addr) pm = Some (snd (pm_generate_auth_nonce Q nonce addr pm))"
| "peers_exec Q (CompleteHandshake now addr peer verify) pm = Some (snd (pm_complete_handshake Q now addr peer verify pm))"
| "peers_exec Q (SubscribeBlocks f1 f2 f3 peer) pm = map_option snd (subscribe_to_block_events Q f1 f2 f3 peer pm)"
| "peers_exec Q (SubscribeFragments f peer) pm = map_option snd (subscribe_to_fragments Q f peer pm)"
| "peers_exec Q (SubscribeGossip f peer) pm = map_option snd (subscribe_to_gossip Q f peer pm)"
| "peers_exec Q (PropagateBlock peer header) pm = Some (snd (propagate_block Q peer header pm))"
| "peers_exec Q (PropagateFragment peer fragment) pm = Some (snd (propagate_fragment Q peer fragment pm))"
| "peers_exec Q (PropagateGossip peer g) pm = Some (snd (propagate_gossip_to Q peer g pm))"
| "peers_exec Q (RefreshOnBlock now peer) pm = Some (snd (refresh_peer_on_block Q now peer pm))"
| "peers_exec Q (RefreshOnFragment now peer) pm = Some (snd (refresh_peer_on_fragment Q now peer pm))"
| "peers_exec Q (RefreshOnGossip now peer) pm = Some (snd (refresh_peer_on_gossip Q now peer pm))"
| "peers_exec Q NextPeer pm = Some (snd (next_peer_for_block_fetch Q pm))"
| "peers_exec Q (SolicitBlocksPeer peer hashes) pm = Some (solicit_blocks_peer Q peer hashes pm)"
| "peers_exec Q (PullHeadersFrom peer from to) pm = Some (pull_headers Q peer from to pm)"

fun peers_run ::
  "('pm, 'am, 'lc, 'nid, 'no, 'addr, 'bid, 'hd, 'fr, 'go) peer_libs \<Rightarrow> ('nid, 'no, 'ne, 'addr, 'bid, 'hd, 'fr, 'go) peers_call list
    \<Rightarrow> ('pm, 'am, 'lc) peer_map \<Rightarrow> ('pm, 'am, 'lc) peer_map option" where
  "peers_run Q [] pm = Some pm"
| "peers_run Q (c # cs) pm = (case peers_exec Q c pm of None \<Rightarrow> None | Some pm \<Rightarrow> peers_run Q cs pm)"

text \<open>The channels a call creates are fresh; the clients a call evicts at most.\<close>

fun fresh_call :: "('nid, 'no, 'ne, 'addr, 'bid, 'hd, 'fr, 'go) peers_call \<Rightarrow> bool" where
  "fresh_call (SubscribeBlocks f1 f2 f3 _) \<longleftrightarrow> fresh_channel f1 \<and> fresh_channel f2 \<and> fresh_channel f3"
| "fresh_call (SubscribeFragments f _) \<longleftrightarrow> fresh_channel f"
| "fresh_call (SubscribeGossip f _) \<longleftrightarrow> fresh_channel f"
| "fresh_call _ \<longleftrightarrow> True"

fun evictions :: "('nid, 'no, 'ne, 'addr, 'bid, 'hd, 'fr, 'go) peers_call \<Rightarrow> nat" where
  "evictions (AddConnecting _ _ _ _ options) = opt_evict_clients options"
| "evictions _ = 0"

text \<open>
  \<open>authenticated addr i calls\<close>: in the calls so far, a nonce was generated for the address, the next handshake call for
  the address named the identity and its verification accepted that nonce, and no nonce was generated for the address
  since.
\<close>

fun restarts :: "'addr \<Rightarrow> ('nid, 'no, 'ne, 'addr, 'bid, 'hd, 'fr, 'go) peers_call \<Rightarrow> bool" where
  "restarts addr (GenerateNonce _ a) \<longleftrightarrow> a = addr"
| "restarts addr _ \<longleftrightarrow> False"

fun concerns :: "'addr \<Rightarrow> ('nid, 'no, 'ne, 'addr, 'bid, 'hd, 'fr, 'go) peers_call \<Rightarrow> bool" where
  "concerns addr (GenerateNonce _ a) \<longleftrightarrow> a = addr"
| "concerns addr (CompleteHandshake _ a _ _) \<longleftrightarrow> a = addr"
| "concerns addr _ \<longleftrightarrow> False"

definition open_handshake :: "'addr \<Rightarrow> 'no \<Rightarrow> ('nid, 'no, 'ne, 'addr, 'bid, 'hd, 'fr, 'go) peers_call list \<Rightarrow> bool" where
  "open_handshake addr nonce calls \<longleftrightarrow>
     (\<exists>as bs. calls = as @ GenerateNonce nonce addr # bs \<and> (\<forall>c\<in>set bs. \<not> concerns addr c))"

definition authenticated :: "'addr \<Rightarrow> 'nid \<Rightarrow> ('nid, 'no, 'ne, 'addr, 'bid, 'hd, 'fr, 'go) peers_call list \<Rightarrow> bool" where
  "authenticated addr i calls \<longleftrightarrow>
     (\<exists>as nonce bs now verify cs.
        calls = as @ GenerateNonce nonce addr # bs @ CompleteHandshake now addr i verify # cs
      \<and> verify nonce = Inr () \<and> (\<forall>c\<in>set bs. \<not> concerns addr c) \<and> (\<forall>c\<in>set cs. \<not> restarts addr c))"

section \<open>What a call leaves alone\<close>

text \<open>
  A calm change keeps the capacity, the handshakes in progress and the difference between the gauge and the number of
  peers; it forgets established clients at most, and stays within the capacity.
\<close>

definition gauge_drift ::
  "('pm, 'am, 'lc, 'nid, 'no, 'addr, 'bid, 'hd, 'fr, 'go) peer_libs \<Rightarrow> ('pm, 'am, 'lc) peer_map \<Rightarrow> u64" where
  "gauge_drift Q pm = pm_connected pm - of_nat (pm_len Q pm)"

definition calm ::
  "('pm, 'am, 'lc, 'nid, 'no, 'addr, 'bid, 'hd, 'fr, 'go) peer_libs \<Rightarrow> ('pm, 'am, 'lc) peer_map \<Rightarrow> ('pm, 'am, 'lc) peer_map \<Rightarrow> bool" where
  "calm Q pm pm' \<longleftrightarrow>
     pm_capacity pm' = pm_capacity pm \<and> in_progress (pm_client_auth pm') = in_progress (pm_client_auth pm)
   \<and> pm_client_id Q pm' \<subseteq>\<^sub>m pm_client_id Q pm \<and> gauge_drift Q pm' = gauge_drift Q pm
   \<and> (0 < pm_capacity pm \<longrightarrow> pm_len Q pm \<le> pm_capacity pm \<longrightarrow> pm_len Q pm' \<le> pm_capacity pm)"

lemma calm_refl [simp, intro]: "calm Q pm pm"
  by (simp add: calm_def)

lemma calm_trans [trans]: "calm Q a b \<Longrightarrow> calm Q b c \<Longrightarrow> calm Q a c"
  by (auto simp: calm_def intro: map_le_trans)

lemma update_comm_status_addr [simp]: "remote_addr (pd_comms (snd (update_comm_status d))) = remote_addr (pd_comms d)"
  by (auto simp: update_comm_status_def Let_def split: option.splits prod.splits poll.splits)

lemma pm_auth_remove_simps [simp]:
  "pm_map (pm_auth_remove Q addr pm) = pm_map pm"
  "pm_capacity (pm_auth_remove Q addr pm) = pm_capacity pm"
  "pm_connected (pm_auth_remove Q addr pm) = pm_connected pm"
  "in_progress (pm_client_auth (pm_auth_remove Q addr pm)) = in_progress (pm_client_auth pm)"
  by (simp_all add: pm_auth_remove_def ca_remove_def split: prod.splits)

lemma pm_write_simps [simp]:
  "pm_client_auth (pm_write Q i d pm) = pm_client_auth pm"
  "pm_capacity (pm_write Q i d pm) = pm_capacity pm"
  "pm_connected (pm_write Q i d pm) = pm_connected pm"
  by (simp_all add: pm_write_def)

lemma pm_client_id_cong: "pm_client_auth pm' = pm_client_auth pm \<Longrightarrow> pm_client_id Q pm' = pm_client_id Q pm"
  by (rule ext) (simp add: pm_client_id_def)

lemma length_tl_nonempty: "xs \<noteq> [] \<Longrightarrow> length xs = Suc (length (tl xs))"
  by (cases xs) simp_all

context peer_libraries
begin

lemma client_id_auth_remove: "pm_client_id Q (pm_auth_remove Q addr pm) = (pm_client_id Q pm)(addr := None)"
  by (rule ext) (simp add: pm_client_id_def pm_auth_remove_def ca_client_id_def ca_remove_def established.get_remove
      split: prod.splits, metis established.get_remove fun_upd_apply snd_conv)

lemma length_pm_write [simp]: "pm_len Q (pm_write Q i d pm) = pm_len Q pm"
  by (simp add: pm_write_def)

lemma calm_update: "calm Q pm (pm\<lparr>pm_map := lm_update (pl_peers Q) (pm_map pm) i f\<rparr>)"
  by (simp add: calm_def gauge_drift_def map_le_def pm_client_id_def)

lemma calm_write: "calm Q pm (pm_write Q i d pm)"
  unfolding pm_write_def by (rule calm_update)

lemma calm_auth_remove: "calm Q pm (pm_auth_remove Q addr pm)"
  by (auto simp: calm_def gauge_drift_def client_id_auth_remove map_le_def)

lemma calm_refresh: "calm Q pm (snd (refresh_peer Q i f pm))"
proof -
  let ?g = "\<lambda>d. d\<lparr>pd_stats := f (pd_stats d)\<rparr>"
  have "snd (refresh_peer Q i f pm) = pm\<lparr>pm_map := snd (lm_get_refresh (pl_peers Q) (pm_map pm) i ?g)\<rparr>"
    by (simp add: refresh_peer_def split_beta)
  then show ?thesis by (simp add: calm_def gauge_drift_def map_le_def pm_client_id_def)
qed

lemma calm_clear: "calm Q pm (peer_map_clear Q pm)"
  by (simp add: calm_def gauge_drift_def peer_map_clear_def peers.iter_new map_le_def pm_client_id_def)

text \<open>Taking one peer out and the gauge down.\<close>

lemma calm_take_out:
  assumes "pm_get Q pm i = Some d"
  shows "calm Q pm (pm\<lparr>pm_map := snd (lm_remove (pl_peers Q) (pm_map pm) i), pm_connected := pm_connected pm - 1\<rparr>)"
proof -
  have pos: "0 < pm_len Q pm" by (rule peers.present_nonempty [OF assms])
  with assms show ?thesis
    by (cases "pm_len Q pm") (auto simp: calm_def gauge_drift_def map_le_def pm_client_id_def peers.length_remove)
qed

lemma calm_entry_remove: "pm_get Q pm i = Some d \<Longrightarrow> calm Q pm (entry_remove Q i addr pm)"
  unfolding entry_remove_def by (rule calm_trans [OF calm_take_out calm_auth_remove])

lemma calm_remove_peer: "calm Q pm (snd (pm_remove_peer Q i pm))"
proof (cases "pm_get Q pm i")
  case None
  then have "lm_iter (pl_peers Q) (snd (lm_remove (pl_peers Q) (pm_map pm) i)) = lm_iter (pl_peers Q) (pm_map pm)"
    using adelete_notin [of i "lm_iter (pl_peers Q) (pm_map pm)"]
    by (simp add: peers.iter_remove peers.get_result map_of_eq_None_iff)
  moreover have "fst (lm_remove (pl_peers Q) (pm_map pm) i) = None"
    using None by (simp add: peers.results)
  ultimately show ?thesis
    by (auto simp: pm_remove_peer_def calm_def gauge_drift_def map_le_def pm_client_id_def split: prod.splits)
next
  case (Some d)
  then have "fst (lm_remove (pl_peers Q) (pm_map pm) i) = Some d" by (simp add: peers.results)
  then have "snd (pm_remove_peer Q i pm) = entry_remove Q i (remote_addr (pd_comms (snd (update_comm_status d)))) pm"
    by (simp add: pm_remove_peer_def entry_remove_def split_beta)
  then show ?thesis using calm_entry_remove [OF Some] by simp
qed

text \<open>Making room: the front peer leaves, so one more fits.\<close>

lemma evict_if_full_cases:
  obtains (room) "pm_len Q pm < pm_capacity pm" and "evict_if_full Q pm = pm"
  | (empty) m where "pm_capacity pm = 0" and "lm_iter (pl_peers Q) (pm_map pm) = []" and "lm_iter (pl_peers Q) m = []"
      and "evict_if_full Q pm = pm\<lparr>pm_map := m\<rparr>"
  | (full) m addr i v rest where "pm_capacity pm \<le> pm_len Q pm" and "lm_iter (pl_peers Q) (pm_map pm) = (i, v) # rest"
      and "lm_iter (pl_peers Q) m = rest"
      and "evict_if_full Q pm = pm_auth_remove Q addr (pm\<lparr>pm_map := m, pm_connected := pm_connected pm - 1\<rparr>)"
proof (cases "pm_len Q pm < pm_capacity pm")
  case True
  then show ?thesis by (intro room) (simp_all add: evict_if_full_def)
next
  case no_room: False
  define m where "m = snd (lm_pop_front (pl_peers Q) (pm_map pm))"
  show ?thesis
  proof (cases "lm_iter (pl_peers Q) (pm_map pm)")
    case Nil
    with no_room show ?thesis
      by (intro empty [of m]) (simp_all add: evict_if_full_def m_def split_beta Let_def peers.results peers.iters)
  next
    case (Cons p rest)
    moreover obtain i v where "p = (i, v)" by fastforce
    ultimately show ?thesis using no_room
      by (intro full [of i v rest m "remote_addr (pd_comms v)"])
        (simp_all add: evict_if_full_def m_def split_beta Let_def peers.results peers.iters)
  qed
qed

lemma evict_if_full_simps:
  "pm_capacity (evict_if_full Q pm) = pm_capacity pm"
  "in_progress (pm_client_auth (evict_if_full Q pm)) = in_progress (pm_client_auth pm)"
  by (cases rule: evict_if_full_cases [of pm]; simp)+

lemma client_id_map_irrelevant [simp]:
  "pm_client_id Q (pm\<lparr>pm_map := m\<rparr>) = pm_client_id Q pm" "pm_client_id Q (pm\<lparr>pm_connected := n\<rparr>) = pm_client_id Q pm"
  by (rule pm_client_id_cong, simp)+

lemma evict_if_full_client_id: "pm_client_id Q (evict_if_full Q pm) \<subseteq>\<^sub>m pm_client_id Q pm"
  by (cases rule: evict_if_full_cases [of pm]) (simp_all add: client_id_auth_remove map_le_def)

lemma evict_if_full_len:
  "pm_len Q (evict_if_full Q pm) = (if pm_capacity pm \<le> pm_len Q pm then pm_len Q pm - 1 else pm_len Q pm)"
  by (cases rule: evict_if_full_cases [of pm]) simp_all

lemma evict_if_full_drift: "gauge_drift Q (evict_if_full Q pm) = gauge_drift Q pm"
  by (cases rule: evict_if_full_cases [of pm]) (simp_all add: gauge_drift_def)

lemma evict_if_full_get: "pm_get Q pm i = None \<Longrightarrow> pm_get Q (evict_if_full Q pm) i = None"
  by (cases rule: evict_if_full_cases [of pm]) (auto simp: peers.get_result split: if_splits)

lemma calm_ensure_peer: "calm Q pm (snd (ensure_peer Q now i addr pm))"
proof (cases "pm_get Q pm i")
  case (Some d)
  then show ?thesis by (simp add: ensure_peer_def Let_def)
next
  case None
  define pm1 where "pm1 = evict_if_full Q pm"
  have g: "pm_get Q pm1 i = None" unfolding pm1_def by (rule evict_if_full_get [OF None])
  have eq: "snd (ensure_peer Q now i addr pm) =
      pm1\<lparr>pm_connected := pm_connected pm1 + 1, pm_map := lm_insert (pl_peers Q) (pm_map pm1) i (peer_data_new now addr)\<rparr>"
    using None g by (simp add: ensure_peer_def Let_def pm1_def)
  have "pm_client_id Q (snd (ensure_peer Q now i addr pm)) = pm_client_id Q pm1"
    by (simp add: eq)
  moreover have "gauge_drift Q (snd (ensure_peer Q now i addr pm)) = gauge_drift Q pm1"
    by (simp add: eq gauge_drift_def peers.length_insert_new [OF g])
  ultimately show ?thesis
    using evict_if_full_len [of pm] evict_if_full_simps [of pm] evict_if_full_client_id [of pm] evict_if_full_drift [of pm]
    by (auto simp: calm_def eq peers.length_insert_new [OF g] pm1_def [symmetric])
qed

lemma calm_add_client: "calm Q pm (add_client Q now i addr pm)"
proof -
  obtain d pm1 where e: "ensure_peer Q now i addr pm = (d, pm1)" by fastforce
  then have "calm Q pm pm1" using calm_ensure_peer [of pm now i addr] by simp
  also have "calm Q pm1 (add_client Q now i addr pm)"
    by (simp add: add_client_def e split_beta calm_write)
  finally show ?thesis .
qed

lemma calm_add_connecting: "calm Q pm (snd (add_connecting Q now i addr handle pm))"
proof -
  obtain d pm1 where e: "ensure_peer Q now i addr pm = (d, pm1)" by fastforce
  then have "calm Q pm pm1" using calm_ensure_peer [of pm now i addr] by simp
  also have "calm Q pm1 (snd (add_connecting Q now i addr handle pm))"
    by (simp add: add_connecting_def e split_beta calm_write)
  finally show ?thesis .
qed

text \<open>Evicting clients removes the first ones in the order of the map.\<close>

lemma iter_fold_remove:
  "lm_iter (pl_peers Q) (fold (\<lambda>(i, _) m. snd (lm_remove (pl_peers Q) m i)) ps m) =
     filter (\<lambda>p. fst p \<notin> fst ` set ps) (lm_iter (pl_peers Q) m)"
  by (induction ps arbitrary: m) (simp_all add: split_beta peers.iter_remove adelete_filter)

lemma evict_clients_simps [simp]:
  "pm_capacity (evict_clients Q n pm) = pm_capacity pm"
  "pm_client_auth (evict_clients Q n pm) = pm_client_auth pm"
  "pm_connected (evict_clients Q n pm) = pm_connected pm"
  "evict_clients Q 0 pm = pm"
  by (simp_all add: evict_clients_def)

lemma evict_clients_len:
  "pm_len Q (evict_clients Q n pm) =
     pm_len Q pm - min n (length (filter (\<lambda>(_, d). has_client_subscriptions (pd_comms d)) (lm_iter (pl_peers Q) (pm_map pm))))"
proof -
  let ?xs = "lm_iter (pl_peers Q) (pm_map pm)"
  let ?ps = "take n (filter (\<lambda>(_, d). has_client_subscriptions (pd_comms d)) ?xs)"
  have dx: "distinct ?xs" using peers.keys_distinct [of "pm_map pm"] by (simp add: distinct_map)
  have sub: "set ?ps \<subseteq> set ?xs" using set_take_subset [of n "filter (\<lambda>(_, d). has_client_subscriptions (pd_comms d)) ?xs"] by auto
  have "set (filter (\<lambda>p. fst p \<in> fst ` set ?ps) ?xs) = set ?ps"
    using sub peers.keys_distinct [of "pm_map pm"] by (auto simp: distinct_map dest!: inj_onD)
  then have "length (filter (\<lambda>p. fst p \<in> fst ` set ?ps) ?xs) = length ?ps"
    using dx distinct_card [of "filter (\<lambda>p. fst p \<in> fst ` set ?ps) ?xs"] distinct_card [of ?ps] by simp
  moreover have "pm_len Q (evict_clients Q n pm) = length (filter (\<lambda>p. fst p \<notin> fst ` set ?ps) ?xs)"
    by (simp add: evict_clients_def iter_fold_remove)
  ultimately show ?thesis
    using sum_length_filter_compl [of "\<lambda>p. fst p \<in> fst ` set ?ps" ?xs] by (simp add: min.commute)
qed

lemma calm_peers_add_connecting:
  "calm Q (evict_clients Q (opt_evict_clients options) pm) (peers_add_connecting Q now i addr handle options pm)"
proof -
  let ?pm = "evict_clients Q (opt_evict_clients options) pm"
  obtain d pm1 where e: "add_connecting Q now i addr handle ?pm = (d, pm1)" by fastforce
  then have "calm Q ?pm pm1" using calm_add_connecting [of ?pm now i addr handle] by simp
  also have "calm Q pm1 (peers_add_connecting Q now i addr handle options pm)"
    by (simp add: peers_add_connecting_def e Let_def calm_write)
  finally show ?thesis .
qed

lemma calm_update_entry: "calm Q pm (update_entry Q i pm)"
  by (auto simp: update_entry_def calm_write split: option.splits)

lemma calm_server_subscribe:
  assumes "\<And>c. \<exists>c'. f c = Some c'"
  shows "\<exists>pm'. map_option snd (server_subscribe Q f i pm) = Some pm' \<and> calm Q pm pm'"
proof (cases "pm_get Q pm i")
  case None
  then show ?thesis by (auto simp: server_subscribe_def pm_server_comms_def)
next
  case (Some d)
  obtain c' where "f (pd_comms (pd_server_comms d)) = Some c'" using assms by blast
  with Some show ?thesis
    by (auto simp: server_subscribe_def pm_server_comms_def Let_def intro: calm_trans [OF calm_write calm_write])
qed

lemma get_pm_write: "pm_get Q pm i = Some d \<Longrightarrow> pm_get Q (pm_write Q i d' pm) i = Some d'"
  by (simp add: pm_write_def peers.get_update)

lemma calm_propagate_with: "calm Q pm (snd (propagate_with Q i f pm))"
  by (auto simp: propagate_with_def Let_def split: option.splits prod.splits sum.splits
      intro: calm_write calm_trans [OF calm_write calm_entry_remove] get_pm_write)

lemma calm_propagate_gossip: "calm Q pm (snd (propagate_gossip_to Q i g pm))"
  by (auto simp: propagate_gossip_to_def Let_def split: option.splits prod.splits sum.splits
      intro: calm_write calm_trans [OF calm_write calm_entry_remove] get_pm_write)

lemma calm_next_peer_scan: "calm Q pm (snd (next_peer_scan Q ps pm))"
proof (induction ps arbitrary: pm)
  case (Cons p ps)
  then show ?case by (cases p) (auto split: comm_status.splits prod.splits intro: calm_write calm_trans [OF calm_write])
qed simp

lemma calm_pm_comms: "calm Q pm (snd (pm_comms Q i pm))"
  by (auto simp: pm_comms_def calm_write split: option.splits prod.splits)

lemma calm_request:
  assumes "pm_comms Q i pm = (c, pm1)"
  shows "calm Q pm (pm1\<lparr>pm_map := lm_update (pl_peers Q) (pm_map pm1) i f\<rparr>)"
    and "calm Q pm (snd (pm_remove_peer Q i (pm1\<lparr>pm_map := lm_update (pl_peers Q) (pm_map pm1) i f\<rparr>)))"
  using calm_pm_comms [of pm i] calm_trans [OF _ calm_update, of pm pm1] calm_trans [OF _ calm_remove_peer] assms by auto

lemma calm_solicit: "calm Q pm (solicit_blocks_peer Q i hashes pm)" "calm Q pm (pull_headers Q i from to pm)"
  using calm_pm_comms [of pm i]
  by (auto simp: solicit_blocks_peer_def pull_headers_def Let_def calm_request split: option.splits prod.splits sum.splits)

text \<open>Every call but those of the handshake is calm, apart from the evictions.\<close>

lemma exec_calm:
  assumes "fresh_call c" and "\<And>addr. \<not> concerns addr c"
  shows "\<exists>pm'. peers_exec Q c pm = Some pm' \<and> calm Q (evict_clients Q (evictions c) pm) pm'"
  using assms
proof (cases c)
  case (SubscribeBlocks f1 f2 f3 i)
  with assms(1) have "\<exists>c'. subscribe_comms_to_block_events f1 f2 f3 x = Some c'" for x using subscribe_comms(1) [of f1 f2 f3] by (simp, blast)
  from calm_server_subscribe [OF this] SubscribeBlocks show ?thesis by (simp add: subscribe_to_block_events_def)
next
  case (SubscribeFragments f i)
  with assms(1) have "\<exists>c'. subscribe_comms_to_fragments f x = Some c'" for x using subscribe_comms(2) [of f] by (simp, blast)
  from calm_server_subscribe [OF this] SubscribeFragments show ?thesis by (simp add: subscribe_to_fragments_def)
next
  case (SubscribeGossip f i)
  with assms(1) have "\<exists>c'. subscribe_comms_to_gossip f x = Some c'" for x using subscribe_comms(3) [of f] by (simp, blast)
  from calm_server_subscribe [OF this] SubscribeGossip show ?thesis by (simp add: subscribe_to_gossip_def)
qed (auto simp: calm_clear calm_peers_add_connecting calm_update_entry calm_remove_peer calm_propagate_gossip
    propagate_block_def propagate_fragment_def calm_propagate_with refresh_peer_on_block_def refresh_peer_on_fragment_def
    refresh_peer_on_gossip_def calm_refresh next_peer_for_block_fetch_def calm_next_peer_scan calm_solicit)

end

section \<open>Safety of every run\<close>

lemma open_handshake_snoc: "open_handshake addr nonce calls \<Longrightarrow> \<not> concerns addr c \<Longrightarrow> open_handshake addr nonce (calls @ [c])"
  by (force simp: open_handshake_def)

lemma open_handshake_new: "open_handshake addr nonce (calls @ [GenerateNonce nonce addr])"
  by (force simp: open_handshake_def)

lemma authenticated_snoc:
  assumes "authenticated addr i calls" and "\<not> restarts addr c"
  shows "authenticated addr i (calls @ [c])"
proof -
  from assms(1) obtain as nonce bs now verify cs where
    "calls = as @ GenerateNonce nonce addr # bs @ CompleteHandshake now addr i verify # cs"
    "verify nonce = Inr ()" "\<forall>c\<in>set bs. \<not> concerns addr c" "\<forall>c\<in>set cs. \<not> restarts addr c"
    unfolding authenticated_def by blast
  with assms(2) show ?thesis
    unfolding authenticated_def by (intro exI [of _ as] exI [of _ nonce] exI [of _ bs] exI [of _ now] exI [of _ verify] exI [of _ "cs @ [c]"]) simp
qed

lemma authenticated_new:
  assumes "open_handshake addr nonce calls" and "verify nonce = Inr ()"
  shows "authenticated addr i (calls @ [CompleteHandshake now addr i verify])"
proof -
  from assms(1) obtain as bs where "calls = as @ GenerateNonce nonce addr # bs" "\<forall>c\<in>set bs. \<not> concerns addr c"
    unfolding open_handshake_def by blast
  with assms(2) show ?thesis
    unfolding authenticated_def by (intro exI [of _ as] exI [of _ nonce] exI [of _ bs] exI [of _ now] exI [of _ verify] exI [of _ "[]"]) simp
qed

definition peers_inv ::
  "('pm, 'am, 'lc, 'nid, 'no, 'addr, 'bid, 'hd, 'fr, 'go) peer_libs \<Rightarrow> nat
    \<Rightarrow> ('nid, 'no, 'ne, 'addr, 'bid, 'hd, 'fr, 'go) peers_call list \<Rightarrow> ('pm, 'am, 'lc) peer_map \<Rightarrow> bool" where
  "peers_inv Q capacity calls pm \<longleftrightarrow>
     pm_capacity pm = capacity \<and> pm_len Q pm \<le> capacity
   \<and> lru_cap (pl_handshakes Q) (in_progress (pm_client_auth pm)) = DEFAULT_OPEN_HANDSHAKED_LIMIT
   \<and> (\<forall>addr nonce. (addr, nonce) \<in> set (lru_iter (pl_handshakes Q) (in_progress (pm_client_auth pm))) \<longrightarrow> open_handshake addr nonce calls)
   \<and> (\<forall>addr i. pm_client_id Q pm addr = Some i \<longrightarrow> authenticated addr i calls)
   \<and> ((\<forall>c\<in>set calls. evictions c = 0) \<longrightarrow> gauge_drift Q pm = 0)"

context peer_libraries
begin

lemma peers_inv_new: "peers_inv Q capacity [] (peer_map_new Q capacity)"
  by (simp add: peers_inv_def peer_map_new_def client_auth_default_def peers.iter_new handshakes.cap_new handshakes.iter_new
      pm_client_id_def ca_client_id_def established.get_new gauge_drift_def)

lemma peers_inv_calm:
  assumes inv: "peers_inv Q capacity calls pm" and "0 < capacity" and "\<And>addr. \<not> concerns addr c"
    and calm: "calm Q (evict_clients Q (evictions c) pm) pm'"
  shows "peers_inv Q capacity (calls @ [c]) pm'"
proof -
  let ?pm = "evict_clients Q (evictions c) pm"
  have "\<not> restarts addr c" for addr using assms(3) [of addr] by (cases c) auto
  moreover have "pm_client_id Q ?pm = pm_client_id Q pm" by (rule pm_client_id_cong) simp
  ultimately have "authenticated addr i (calls @ [c])" if "pm_client_id Q pm' addr = Some i" for addr i
    using that calm inv by (auto simp: calm_def peers_inv_def map_le_def dom_def intro!: authenticated_snoc)
  moreover have "pm_len Q ?pm \<le> capacity" 
    using inv unfolding evict_clients_len peers_inv_def by (meson diff_le_self le_trans)
  moreover have "gauge_drift Q pm' = 0" if "\<forall>c\<in>set (calls @ [c]). evictions c = 0"
    using that inv calm by (simp add: peers_inv_def calm_def)
  ultimately show ?thesis
    using inv calm assms(2) open_handshake_snoc [OF _ assms(3)] by (auto simp: peers_inv_def calm_def)
qed

lemma peers_inv_generate:
  assumes "peers_inv Q capacity calls pm"
  shows "peers_inv Q capacity (calls @ [GenerateNonce nonce addr]) (snd (pm_generate_auth_nonce Q nonce addr pm))"
proof -
  let ?a = "pm_client_auth pm" and ?pm' = "snd (pm_generate_auth_nonce Q nonce addr pm)"
  have cap: "0 < lru_cap (pl_handshakes Q) (in_progress ?a)"
    using assms by (simp add: peers_inv_def DEFAULT_OPEN_HANDSHAKED_LIMIT_def)
  have ids: "pm_client_id Q ?pm' = (pm_client_id Q pm)(addr := None)"
    by (rule ext) (simp add: pm_client_id_def ca_client_id_def pm_generate_auth_nonce_def ca_generate_auth_nonce_def established.get_remove)
  have "authenticated a i (calls @ [GenerateNonce nonce addr])" if "pm_client_id Q ?pm' a = Some i" for a i
    using that assms unfolding ids by (auto simp: peers_inv_def intro!: authenticated_snoc split: if_splits)
  moreover have "open_handshake a n (calls @ [GenerateNonce nonce addr])"
    if "(a, n) \<in> set (lru_iter (pl_handshakes Q) (lru_put (pl_handshakes Q) (in_progress ?a) addr nonce))" for a n
  proof (cases "(a, n) = (addr, nonce)")
    case False
    with handshakes.put_keys_subset [OF cap that] assms show ?thesis by (intro open_handshake_snoc) (auto simp: peers_inv_def)
  qed (simp add: open_handshake_new)
  ultimately show ?thesis
    using assms by (auto simp: peers_inv_def pm_generate_auth_nonce_def ca_generate_auth_nonce_def handshakes.cap_put gauge_drift_def)
qed

lemma peers_inv_complete:
  assumes inv: "peers_inv Q capacity calls pm" and "0 < capacity"
  shows "peers_inv Q capacity (calls @ [CompleteHandshake now addr i verify]) (snd (pm_complete_handshake Q now addr i verify pm))"
proof -
  let ?c = "CompleteHandshake now addr i verify" and ?H = "pl_handshakes Q" and ?a = "pm_client_auth pm"
  let ?rest = "snd (lru_pop ?H (in_progress ?a) addr)"
  define pm1 where "pm1 = pm\<lparr>pm_client_auth := ?a\<lparr>in_progress := ?rest\<rparr>\<rparr>"
  have ids1: "pm_client_id Q pm1 = pm_client_id Q pm" by (rule ext) (simp add: pm1_def pm_client_id_def ca_client_id_def)
  have openh: "open_handshake b n (calls @ [?c])" if "(b, n) \<in> set (lru_iter ?H ?rest)" for b n
    using that inv by (auto simp: handshakes.iter_pop set_adelete peers_inv_def intro!: open_handshake_snoc)
  have known: "authenticated b j (calls @ [?c])" if "pm_client_id Q pm b = Some j" for b j
    using that inv by (auto simp: peers_inv_def intro!: authenticated_snoc)
  have inv1: "peers_inv Q capacity (calls @ [?c]) pm1"
    using inv openh known ids1 by (auto simp: peers_inv_def pm1_def handshakes.cap_pop gauge_drift_def)
  show ?thesis
  proof (cases "\<exists>nonce. fst (lru_pop ?H (in_progress ?a) addr) = Some nonce \<and> verify nonce = Inr ()")
    case False
    then have "snd (pm_complete_handshake Q now addr i verify pm) = pm1"
      by (auto simp: pm_complete_handshake_def ca_complete_handshake_def pm1_def split_beta Let_def split: option.splits sum.splits)
    with inv1 show ?thesis by simp
  next
    case True
    then obtain nonce where n: "fst (lru_pop ?H (in_progress ?a) addr) = Some nonce" "verify nonce = Inr ()" by blast
    define pm2 where "pm2 = pm1\<lparr>pm_client_auth := (pm_client_auth pm1)\<lparr>established_clients :=
      lm_insert (pl_established Q) (established_clients (pm_client_auth pm1)) addr i\<rparr>\<rparr>"
    have eq: "snd (pm_complete_handshake Q now addr i verify pm) = add_client Q now i addr pm2"
      using n by (simp add: pm_complete_handshake_def ca_complete_handshake_def pm1_def pm2_def split_beta Let_def)
    have "open_handshake addr nonce calls"
      using n(1) inv by (auto simp: handshakes.pop_result peers_inv_def dest!: map_of_SomeD)
    then have new: "authenticated addr i (calls @ [?c])" using n(2) by (rule authenticated_new [of addr nonce calls verify])
    have "pm_client_id Q pm2 = (pm_client_id Q pm1)(addr \<mapsto> i)"
      by (rule ext) (simp add: pm2_def pm_client_id_def ca_client_id_def established.get_insert)
    with inv1 new have "peers_inv Q capacity (calls @ [?c]) pm2"
      by (auto simp: peers_inv_def pm2_def gauge_drift_def)
    with calm_add_client [of pm2 now i addr] assms(2) show ?thesis
      unfolding eq by (auto simp: peers_inv_def calm_def map_le_def dom_def)
  qed
qed

lemma peers_inv_exec:
  assumes "peers_inv Q capacity calls pm" and "0 < capacity" and "fresh_call c"
  shows "\<exists>pm'. peers_exec Q c pm = Some pm' \<and> peers_inv Q capacity (calls @ [c]) pm'"
proof (cases "\<exists>addr. concerns addr c")
  case True
  then show ?thesis using peers_inv_generate [OF assms(1)] peers_inv_complete [OF assms(1,2)] by (cases c) auto
next
  case False
  then show ?thesis using exec_calm [OF assms(3), of pm] peers_inv_calm [OF assms(1,2), of c] by blast
qed

lemma peers_inv_run:
  assumes "peers_inv Q capacity before pm" and "0 < capacity" and "\<forall>c\<in>set calls. fresh_call c"
  shows "\<exists>pm'. peers_run Q calls pm = Some pm' \<and> peers_inv Q capacity (before @ calls) pm'"
  using assms(1,3)
proof (induction calls arbitrary: before pm)
  case (Cons c calls)
  obtain pm1 where "peers_exec Q c pm = Some pm1" "peers_inv Q capacity (before @ [c]) pm1"
    using peers_inv_exec [OF Cons.prems(1) assms(2), of c] Cons.prems(2) by auto
  with Cons.IH [of "before @ [c]" pm1] Cons.prems(2) show ?case by simp
qed simp

end

text \<open>
  Safety of the peer map (C23). Whatever sequence of calls the network tasks make, starting from an empty map of positive
  capacity, no call panics and the number of peers never exceeds the capacity. An address is known under an identity
  only if that identity completed a handshake for the address that accepted the nonce generated for it, with no nonce
  generated since. As long as no call asks to evict clients, the gauge of connected peers is exact.
\<close>

theorem peers_run_safe:
  fixes calls :: "('nid, 'no, 'ne, 'addr, 'bid, 'hd, 'fr, 'go) peers_call list"
  assumes "peer_libraries Q" and "0 < capacity" and "\<forall>c\<in>set calls. fresh_call c"
  shows "\<exists>pm. peers_run Q calls (peer_map_new Q capacity) = Some pm
     \<and> pm_len Q pm \<le> capacity
     \<and> (\<forall>addr i. pm_client_id Q pm addr = Some i \<longrightarrow> authenticated addr i calls)
     \<and> ((\<forall>c\<in>set calls. evictions c = 0) \<longrightarrow> pm_connected pm = of_nat (pm_len Q pm))"
  using peer_libraries.peers_inv_run [OF assms(1) peer_libraries.peers_inv_new [OF assms(1)] assms(2,3)]
  by (auto simp: peers_inv_def gauge_drift_def)

text \<open>
  Eviction leaves traces. Making room for a connection removes the first clients of the map, but neither lowers the
  gauge of connected peers nor forgets the identities of their addresses.
\<close>

theorem evict_clients_leaves_gauge:
  assumes "peer_libraries Q"
  shows "pm_len Q (evict_clients Q n pm) =
           pm_len Q pm - min n (length (filter (\<lambda>(_, d). has_client_subscriptions (pd_comms d)) (lm_iter (pl_peers Q) (pm_map pm))))
       \<and> pm_connected (evict_clients Q n pm) = pm_connected pm
       \<and> pm_client_id Q (evict_clients Q n pm) = pm_client_id Q pm"
  using peer_libraries.evict_clients_len [OF assms] peer_libraries.evict_clients_simps [OF assms]
    pm_client_id_cong [OF peer_libraries.evict_clients_simps(2) [OF assms]] by blast

section \<open>Propagation\<close>

text \<open>The item waits for the subscription, or it is the last one that went into the stream.\<close>

definition announced :: "'t \<Rightarrow> 't comm_handle \<Rightarrow> bool" where
  "announced item h \<longleftrightarrow>
     (case ch_state h of
        NotSubscribed \<Rightarrow> False
      | Pending waiting \<Rightarrow> waiting = item
      | Subscribed tx \<Rightarrow> tx_sent tx \<noteq> [] \<and> last (tx_sent tx) = item)"

lemma announced_try_send: "comm_try_send item h = (Inr (), h') \<Longrightarrow> announced item h'"
  by (drule comm_try_send_Ok) (auto simp: announced_def)

lemma send_block_announced: "send_block header status c = (Inr (), c') \<Longrightarrow> announced header (block_announcements c')"
  by (cases status) (auto simp: try_send_block_announcement_def set_pending_block_announcement_def client_pending_def announced_def [of header "\<lparr>ch_state = Pending header, ch_direction = Client\<rparr>"]
      split: prod.splits intro: announced_try_send)

context peer_libraries
begin

lemma get_pm_auth_remove [simp]: "pm_get Q (pm_auth_remove Q addr pm) i = pm_get Q pm i"
  by simp

lemma get_entry_remove: "pm_get Q (entry_remove Q i addr pm) j = (if j = i then None else pm_get Q pm j)"
  by (simp add: entry_remove_def peers.get_remove)

lemma get_pm_write_other: "j \<noteq> i \<Longrightarrow> pm_get Q (pm_write Q i d pm) j = pm_get Q pm j"
  by (simp add: pm_write_def peers.get_update)

lemma connected_entry_remove [simp]: "pm_connected (entry_remove Q i addr pm) = pm_connected pm - 1"
  by (simp add: entry_remove_def)

lemma propagate_with_cases:
  assumes "propagate_with Q peer f pm = (r, pm')"
  obtains (absent) "pm_get Q pm peer = None" and "r = Inl peer" and "pm' = pm"
  | (sent) d status c where "pm_get Q pm peer \<noteq> None" and "r = Inr ()" and "f status c = (Inr (), pd_comms d)" and "pm' = pm_write Q peer d pm"
  | (failed) addr d where "pm_get Q pm peer \<noteq> None" and "r = Inl peer" and "pm' = entry_remove Q peer addr (pm_write Q peer d pm)"
proof (cases "pm_get Q pm peer")
  case None
  with assms show ?thesis by (intro absent) (simp_all add: propagate_with_def)
next
  case (Some entry)
  obtain status d where u: "update_comm_status entry = (status, d)" by fastforce
  obtain res c' where f: "f status (pd_comms d) = (res, c')" by fastforce
  show ?thesis
  proof (cases res)
    case (Inl e)
    with assms Some u f show ?thesis by (intro failed) (auto simp: propagate_with_def)
  next
    case (Inr x)
    with assms Some u f show ?thesis
      by (intro sent [of status "pd_comms d" "d\<lparr>pd_comms := c'\<rparr>"]) (auto simp: propagate_with_def)
  qed
qed

end

text \<open>
  Announcing a block (C24). A successful propagation leaves the header as the last item of the peer's stream of
  announcements, or waiting for the subscription of a connection in progress. A failed one leaves the peer out of the map and
  the gauge in step. The other peers are not affected.
\<close>

theorem propagate_block_correct:
  assumes "peer_libraries Q" and "propagate_block Q peer header pm = (r, pm')"
  shows "(case r of
            Inr _ \<Rightarrow> (\<exists>d. pm_get Q pm' peer = Some d \<and> announced header (block_announcements (pd_comms d)))
                    \<and> pm_connected pm' = pm_connected pm
          | Inl i \<Rightarrow> i = peer \<and> pm_get Q pm' peer = None
                    \<and> pm_connected pm' = pm_connected pm - (if pm_get Q pm peer = None then 0 else 1))
       \<and> (\<forall>i. i \<noteq> peer \<longrightarrow> pm_get Q pm' i = pm_get Q pm i)"
  using assms(2) unfolding propagate_block_def
proof (cases rule: peer_libraries.propagate_with_cases [OF assms(1), consumes 1, case_names absent sent failed])
  case absent
  then show ?thesis by simp
next
  case (sent d status c)
  then obtain d0 where "pm_get Q pm peer = Some d0" by blast
  from peer_libraries.get_pm_write [OF assms(1) this, of d] have "pm_get Q pm' peer = Some d" by (simp add: sent(4))
  moreover have "announced header (block_announcements (pd_comms d))" by (rule send_block_announced [OF sent(3)])
  ultimately show ?thesis using peer_libraries.get_pm_write_other [OF assms(1), of _ peer d pm] by (simp add: sent)
next
  case (failed addr d)
  then show ?thesis
    using peer_libraries.get_entry_remove [OF assms(1)] peer_libraries.get_pm_write_other [OF assms(1)]
      peer_libraries.connected_entry_remove [OF assms(1)] by simp
qed

section \<open>A node with its peers\<close>

definition example_libs ::
  "((nat, (nat, nat, nat, nat, nat) peer_data) linked_list, (nat, nat) linked_list, (nat, nat) recency_list,
    nat, nat, nat, nat, nat, nat, nat) peer_libs" where
  "example_libs = \<lparr>pl_peers = linked_list_ops, pl_established = linked_list_ops, pl_handshakes = recency_ops\<rparr>"

interpretation example_peers: peer_libraries example_libs
  by (simp add: peer_libraries_def example_libs_def linked.linked_map_axioms recency.lru_cache_axioms)

definition never_fails :: "nat \<Rightarrow> send_failure option" where
  "never_fails i = None"

text \<open>A client completes the handshake, subscribes to blocks and gets an announcement.\<close>

definition example_calls :: "(nat, nat, nat, nat, nat, nat, nat, nat) peers_call list" where
  "example_calls =
     [GenerateNonce 77 5, CompleteHandshake 1 5 3 (\<lambda>nonce. if nonce = 77 then Inr () else Inl 0),
      SubscribeBlocks never_fails never_fails never_fails 3, PropagateBlock 3 40]"

theorem peers_run_safe_witness:
  "\<exists>pm. peers_run example_libs example_calls (peer_map_new example_libs 2) = Some pm
     \<and> pm_len example_libs pm \<le> 2
     \<and> (\<forall>addr i. pm_client_id example_libs pm addr = Some i \<longrightarrow> authenticated addr i example_calls)
     \<and> pm_connected pm = of_nat (pm_len example_libs pm)"
proof -
  have "\<forall>c\<in>set example_calls. fresh_call c" and e: "\<forall>c\<in>set example_calls. evictions c = 0"
    by (simp_all add: example_calls_def fresh_channel_def never_fails_def)
  from peers_run_safe [OF example_peers.peer_libraries_axioms, of 2, OF _ this(1)] e show ?thesis by auto
qed

text \<open>One peer, reached with the given handle for announcements.\<close>

definition example_peer :: "nat comm_handle \<Rightarrow> (nat, nat, nat, nat, nat) peer_data" where
  "example_peer h = (peer_data_new 0 5)\<lparr>pd_comms := (peer_comms_new 5)\<lparr>block_announcements := h\<rparr>\<rparr>"

definition example_map ::
  "nat comm_handle \<Rightarrow> ((nat, (nat, nat, nat, nat, nat) peer_data) linked_list, (nat, nat) linked_list, (nat, nat) recency_list) peer_map" where
  "example_map h =
     (peer_map_new example_libs 2)\<lparr>pm_map := lm_insert (pl_peers example_libs) (lm_new (pl_peers example_libs)) 3 (example_peer h), pm_connected := 1\<rparr>"

lemma example_map_iter: "lm_iter (pl_peers example_libs) (pm_map (example_map h)) = [(3, example_peer h)]"
  by (simp add: example_map_def example_peers.peers.iters)

theorem evict_clients_leaves_gauge_witness:
  "pm_len example_libs (evict_clients example_libs 1 (example_map (client_pending 40))) = 0
   \<and> pm_connected (evict_clients example_libs 1 (example_map (client_pending 40))) = 1"
proof -
  have "has_client_subscriptions (pd_comms (example_peer (client_pending 40)))"
    by (simp add: has_client_subscriptions_def example_peer_def is_client_def client_pending_def)
  then show ?thesis
    using evict_clients_leaves_gauge [OF example_peers.peer_libraries_axioms, of 1 "example_map (client_pending 40)"]
    by (simp add: example_map_iter) (simp add: example_map_def)
qed

theorem propagate_block_correct_witness:
  "let (r, pm) = propagate_block example_libs 3 40 (example_map \<lparr>ch_state = Subscribed (sender_new never_fails), ch_direction = Server\<rparr>)
   in r = Inr () \<and> (\<exists>d. pm_get example_libs pm 3 = Some d \<and> announced 40 (block_announcements (pd_comms d)))"
proof -
  let ?h = "\<lparr>ch_state = Subscribed (sender_new never_fails), ch_direction = Server\<rparr> :: nat comm_handle"
  obtain r pm where p: "propagate_block example_libs 3 40 (example_map ?h) = (r, pm)" by fastforce
  have "pm_get example_libs (example_map ?h) 3 = Some (example_peer ?h)"
    by (simp add: example_peers.peers.get_result example_map_iter)
  with p have "r = Inr ()"
    by (simp add: propagate_block_def propagate_with_def update_comm_status_def example_peer_def peer_data_new_def
        try_send_block_announcement_def comm_defs never_fails_def split: prod.splits)
  with propagate_block_correct [OF example_peers.peer_libraries_axioms p] p show ?thesis by simp
qed

end
