(* ===== verification/Gossip_Codec.thy ===== *)
theory Gossip_Codec
  imports Prelude "HOL-Library.Word"
begin

text \<open>
  Gossips about nodes, \<^verbatim>\<open>jormungandr/src/topology/gossip.rs\<close>: which addresses are acceptable and
  global, and the encoding of a gossip on the wire.

  The gossip itself (\<^verbatim>\<open>poldercast::Gossip\<close>) and the codec (\<^verbatim>\<open>chain_core\<close>) are
  libraries: their operations are parameters, the records \<open>gossip_ops\<close> and \<open>codec_ops\<close>, with their documented
  behaviour in the locales \<open>gossip_library\<close> and \<open>byte_codec\<close>. The tests of the standard library on IP
  addresses are written out.
\<close>

section \<open>Addresses\<close>

type_synonym octet = "8 word"
type_synonym segment = "16 word"

datatype ipv4 = IPv4 octet octet octet octet

datatype ipv6 = IPv6 segment segment segment segment segment segment segment segment

datatype ip_addr = V4 ipv4 | V6 ipv6

record socket_addr =
  sa_ip :: ip_addr
  sa_port :: "16 word"

fun v4_is_unspecified :: "ipv4 \<Rightarrow> bool" where
  "v4_is_unspecified (IPv4 a b c d) \<longleftrightarrow> a = 0 \<and> b = 0 \<and> c = 0 \<and> d = 0"

fun v4_is_broadcast :: "ipv4 \<Rightarrow> bool" where
  "v4_is_broadcast (IPv4 a b c d) \<longleftrightarrow> a = 255 \<and> b = 255 \<and> c = 255 \<and> d = 255"

fun v4_is_multicast :: "ipv4 \<Rightarrow> bool" where
  "v4_is_multicast (IPv4 a b c d) \<longleftrightarrow> 224 \<le> a \<and> a \<le> 239"

fun v4_is_documentation :: "ipv4 \<Rightarrow> bool" where
  "v4_is_documentation (IPv4 a b c d) \<longleftrightarrow>
     a = 192 \<and> b = 0 \<and> c = 2 \<or> a = 198 \<and> b = 51 \<and> c = 100 \<or> a = 203 \<and> b = 0 \<and> c = 113"

fun v4_is_private :: "ipv4 \<Rightarrow> bool" where
  "v4_is_private (IPv4 a b c d) \<longleftrightarrow> a = 10 \<or> a = 172 \<and> 16 \<le> b \<and> b \<le> 31 \<or> a = 192 \<and> b = 168"

fun v4_is_loopback :: "ipv4 \<Rightarrow> bool" where
  "v4_is_loopback (IPv4 a b c d) \<longleftrightarrow> a = 127"

fun v4_is_link_local :: "ipv4 \<Rightarrow> bool" where
  "v4_is_link_local (IPv4 a b c d) \<longleftrightarrow> a = 169 \<and> b = 254"

fun v6_is_unspecified :: "ipv6 \<Rightarrow> bool" where
  "v6_is_unspecified (IPv6 a b c d e f g h) \<longleftrightarrow> a = 0 \<and> b = 0 \<and> c = 0 \<and> d = 0 \<and> e = 0 \<and> f = 0 \<and> g = 0 \<and> h = 0"

fun v6_is_multicast :: "ipv6 \<Rightarrow> bool" where
  "v6_is_multicast (IPv6 a b c d e f g h) \<longleftrightarrow> drop_bit 8 a = 255"

fun v6_is_loopback :: "ipv6 \<Rightarrow> bool" where
  "v6_is_loopback (IPv6 a b c d e f g h) \<longleftrightarrow> a = 0 \<and> b = 0 \<and> c = 0 \<and> d = 0 \<and> e = 0 \<and> f = 0 \<and> g = 0 \<and> h = 1"

text \<open>Both the IPv4-compatible and the IPv4-mapped form are converted.\<close>

fun v6_to_ipv4 :: "ipv6 \<Rightarrow> ipv4 option" where
  "v6_to_ipv4 (IPv6 a b c d e f g h) =
     (if a = 0 \<and> b = 0 \<and> c = 0 \<and> d = 0 \<and> e = 0 \<and> (f = 0 \<or> f = 0xFFFF)
      then Some (IPv4 (ucast (drop_bit 8 g)) (ucast g) (ucast (drop_bit 8 h)) (ucast h))
      else None)"

fun v4_to_ipv6_mapped :: "ipv4 \<Rightarrow> ipv6" where
  "v4_to_ipv6_mapped (IPv4 a b c d) = IPv6 0 0 0 0 0 0xFFFF (ucast a * 256 + ucast b) (ucast c * 256 + ucast d)"

definition has_valid_address :: "socket_addr \<Rightarrow> bool" where
  "has_valid_address addr \<longleftrightarrow>
     (case sa_ip addr of
        V4 ip \<Rightarrow>
          if v4_is_unspecified ip then False
          else if v4_is_broadcast ip then False
          else if v4_is_multicast ip then False
          else if v4_is_documentation ip then False
          else True
      | V6 ip \<Rightarrow>
          if v6_is_unspecified ip then False
          else if v6_is_multicast ip then False
          else True)"

definition is_ipv4_global :: "ipv4 \<Rightarrow> bool" where
  "is_ipv4_global ip \<longleftrightarrow>
     (if v4_is_private ip then False
      else if v4_is_loopback ip then False
      else if v4_is_link_local ip then False
      else True)"

definition is_global :: "socket_addr \<Rightarrow> bool" where
  "is_global addr \<longleftrightarrow>
     (if \<not> has_valid_address addr then False
      else case sa_ip addr of
        V4 ip \<Rightarrow> is_ipv4_global ip
      | V6 ip \<Rightarrow>
          if v6_is_loopback ip then False
          else case v6_to_ipv4 ip of
            Some ipv4 \<Rightarrow> is_ipv4_global ipv4
          | None \<Rightarrow> True)"

section \<open>The wire format\<close>

definition MAX_GOSSIP_SIZE :: nat where
  "MAX_GOSSIP_SIZE = 512"

record 'g gossip_ops =
  g_address :: "'g \<Rightarrow> socket_addr"
  g_bytes :: "'g \<Rightarrow> octet list"
  g_try_from_slice :: "octet list \<Rightarrow> 'g option"

locale gossip_library =
  fixes G :: "'g gossip_ops"
  assumes slice_bytes: "g_try_from_slice G (g_bytes G g) = Some g"
    and bytes_slice: "g_try_from_slice G bs = Some g \<Longrightarrow> g_bytes G g = bs"

text \<open>A codec writes to the end and reads from the front of a buffer.\<close>

record codec_ops =
  put_be_u16 :: "16 word \<Rightarrow> octet list"
  get_be_u16 :: "octet list \<Rightarrow> (16 word \<times> octet list) option"
  get_bytes :: "nat \<Rightarrow> octet list \<Rightarrow> (octet list \<times> octet list) option"

locale byte_codec =
  fixes C :: codec_ops
  assumes get_put_u16: "get_be_u16 C (put_be_u16 C n @ rest) = Some (n, rest)"
    and length_put_u16: "length (put_be_u16 C n) = 2"
    and get_u16_inv: "get_be_u16 C bs = Some (n, rest) \<Longrightarrow> bs = put_be_u16 C n @ rest"
    and get_bytes_append: "get_bytes C (length bs) (bs @ rest) = Some (bs, rest)"
    and get_bytes_inv: "get_bytes C k all = Some (bs, rest) \<Longrightarrow> all = bs @ rest \<and> length bs = k"

datatype gossip_write_error = GossipInvalidData

datatype gossip_read_error = EndOfData | SizeTooBig nat nat | InvalidGossip

definition gossip_serialize :: "'g gossip_ops \<Rightarrow> codec_ops \<Rightarrow> 'g \<Rightarrow> (gossip_write_error, octet list) result" where
  "gossip_serialize G C g =
     (let bytes = g_bytes G g
      in if length bytes > MAX_GOSSIP_SIZE then Inl GossipInvalidData
         else Inr (put_be_u16 C (of_nat (length bytes)) @ bytes))"

definition gossip_deserialize :: "'g gossip_ops \<Rightarrow> codec_ops \<Rightarrow> octet list \<Rightarrow> (gossip_read_error, 'g \<times> octet list) result" where
  "gossip_deserialize G C all =
     (case get_be_u16 C all of
        None \<Rightarrow> Inl EndOfData
      | Some (n, rest) \<Rightarrow>
          (let bytes_size = unat n
           in if bytes_size > MAX_GOSSIP_SIZE then Inl (SizeTooBig MAX_GOSSIP_SIZE bytes_size)
              else case get_bytes C bytes_size rest of
                None \<Rightarrow> Inl EndOfData
              | Some (bytes, rest) \<Rightarrow>
                  (case g_try_from_slice G bytes of
                     None \<Rightarrow> Inl InvalidGossip
                   | Some g \<Rightarrow> Inr (g, rest))))"

section \<open>A big-endian codec\<close>

fun be_get_u16 :: "octet list \<Rightarrow> (16 word \<times> octet list) option" where
  "be_get_u16 (a # b # rest) = Some (ucast a * 256 + ucast b, rest)"
| "be_get_u16 _ = None"

definition be_codec :: codec_ops where
  "be_codec =
     \<lparr>put_be_u16 = (\<lambda>n. [ucast (drop_bit 8 n), ucast n]), get_be_u16 = be_get_u16,
      get_bytes = (\<lambda>k bs. if k \<le> length bs then Some (take k bs, drop k bs) else None)\<rparr>"

lemma split_u16: "(ucast (ucast (drop_bit 8 n) :: octet) * 256 + ucast (ucast n :: octet) :: 16 word) = n"
proof -
  have lo: "unat (ucast n :: octet) = unat n mod 256"
    by (simp add: unsigned_ucast_eq take_bit_eq_mod)
  have n: "unat n < 2 ^ 16" using unsigned_less [of n] by simp
  then have "unat n div 256 < 256" by (simp add: less_mult_imp_div_less)
  then have hi: "unat (ucast (drop_bit 8 n) :: octet) = unat n div 256"
    by (simp add: unsigned_ucast_eq unsigned_drop_bit_eq take_bit_eq_mod drop_bit_eq_div unat_div_distrib)
  have "unat (ucast (ucast (drop_bit 8 n) :: octet) * 256 + ucast (ucast n :: octet) :: 16 word) =
      (unat (ucast (drop_bit 8 n) :: octet) * 256 + unat (ucast n :: octet)) mod 2 ^ 16"
    by (simp add: unat_word_ariths unsigned_ucast_eq take_bit_eq_mod mod_simps)
  also have "\<dots> = unat n mod 2 ^ 16" unfolding hi lo by (simp only: div_mult_mod_eq)
  finally show ?thesis using n by (simp add: word_unat_eq_iff)
qed

lemma join_u16:
  "ucast (drop_bit 8 (ucast (a :: octet) * 256 + ucast (b :: octet) :: 16 word)) = a"
  "ucast (ucast (a :: octet) * 256 + ucast (b :: octet) :: 16 word) = b"
proof -
  have lt: "unat a < 256" "unat b < 256" using unsigned_less [of a] unsigned_less [of b] by simp_all
  then have u: "unat (ucast a * 256 + ucast b :: 16 word) = unat a * 256 + unat b"
    by (simp add: unat_word_ariths unsigned_ucast_eq take_bit_nat_eq_self)
  show "ucast (drop_bit 8 (ucast a * 256 + ucast b :: 16 word)) = a" "ucast (ucast a * 256 + ucast b :: 16 word) = b"
    using lt by (simp_all add: word_unat_eq_iff unsigned_ucast_eq u unsigned_drop_bit_eq drop_bit_eq_div take_bit_eq_mod unat_div_distrib)
qed

interpretation big_endian: byte_codec be_codec
proof
  fix bs :: "octet list" and n rest
  assume "get_be_u16 be_codec bs = Some (n, rest)"
  then show "bs = put_be_u16 be_codec n @ rest"
    by (cases bs rule: be_get_u16.cases) (auto simp: be_codec_def join_u16)
qed (auto simp: be_codec_def split_u16 split: if_splits)

section \<open>Properties\<close>

lemma is_global_v4: "is_global \<lparr>sa_ip = V4 ip, sa_port = p\<rparr> \<longleftrightarrow> has_valid_address \<lparr>sa_ip = V4 ip, sa_port = p\<rparr> \<and> is_ipv4_global ip"
  by (simp add: is_global_def)

text \<open>
  The IPv4-mapped form of an address is not held to the validity checks of IPv4: a mapped broadcast, multicast,
  documentation or unspecified address is global.
\<close>

lemma is_global_mapped: "is_global \<lparr>sa_ip = V6 (v4_to_ipv6_mapped ip), sa_port = p\<rparr> \<longleftrightarrow> is_ipv4_global ip"
  by (cases ip) (simp add: is_global_def has_valid_address_def join_u16)

lemma mapped_broadcast_is_global:
  "is_global \<lparr>sa_ip = V6 (v4_to_ipv6_mapped (IPv4 255 255 255 255)), sa_port = p\<rparr>"
  "\<not> is_global \<lparr>sa_ip = V4 (IPv4 255 255 255 255), sa_port = p\<rparr>"
  by (simp_all only: is_global_mapped is_global_v4) (simp_all add: is_ipv4_global_def has_valid_address_def)

text \<open>
  The wire format of gossips (C27). Every gossip of at most 512 bytes is written as its length in two bytes followed by
  its bytes, and reading gives it back with what follows. Conversely, whatever is read successfully is exactly what
  writing the gossip gives; no other input is accepted.
\<close>

theorem gossip_wire_roundtrip:
  assumes "gossip_library G" and "byte_codec C"
  shows "(length (g_bytes G g) \<le> MAX_GOSSIP_SIZE \<longrightarrow>
            (\<exists>bs. gossip_serialize G C g = Inr bs \<and> length bs = length (g_bytes G g) + 2
                \<and> gossip_deserialize G C (bs @ rest) = Inr (g, rest)))
       \<and> (gossip_deserialize G C all = Inr (g, rest) \<longrightarrow> (\<exists>bs. gossip_serialize G C g = Inr bs \<and> all = bs @ rest))"
proof (intro conjI impI)
  assume le: "length (g_bytes G g) \<le> MAX_GOSSIP_SIZE"
  then have "unat (of_nat (length (g_bytes G g)) :: 16 word) = length (g_bytes G g)"
    by (simp add: MAX_GOSSIP_SIZE_def unat_of_nat take_bit_nat_eq_self)
  with le show "\<exists>bs. gossip_serialize G C g = Inr bs \<and> length bs = length (g_bytes G g) + 2
      \<and> gossip_deserialize G C (bs @ rest) = Inr (g, rest)"
    by (simp add: gossip_serialize_def gossip_deserialize_def Let_def byte_codec.get_put_u16 [OF assms(2)]
        byte_codec.length_put_u16 [OF assms(2)] byte_codec.get_bytes_append [OF assms(2)] gossip_library.slice_bytes [OF assms(1)])
next
  assume "gossip_deserialize G C all = Inr (g, rest)"
  then obtain n r bytes where r: "get_be_u16 C all = Some (n, r)" "unat n \<le> MAX_GOSSIP_SIZE"
      "get_bytes C (unat n) r = Some (bytes, rest)" "g_try_from_slice G bytes = Some g"
    by (auto simp: gossip_deserialize_def Let_def not_less split: option.splits prod.splits if_splits)
  have "g_bytes G g = bytes" by (rule gossip_library.bytes_slice [OF assms(1) r(4)])
  moreover have "all = put_be_u16 C n @ r" by (rule byte_codec.get_u16_inv [OF assms(2) r(1)])
  moreover have "r = bytes @ rest \<and> length bytes = unat n" by (rule byte_codec.get_bytes_inv [OF assms(2) r(3)])
  ultimately show "\<exists>bs. gossip_serialize G C g = Inr bs \<and> all = bs @ rest"
    using r(2) by (simp add: gossip_serialize_def Let_def)
qed

text \<open>A gossip that is its bytes.\<close>

definition raw_gossip_ops :: "octet list gossip_ops" where
  "raw_gossip_ops = \<lparr>g_address = (\<lambda>_. \<lparr>sa_ip = V4 (IPv4 127 0 0 1), sa_port = 0\<rparr>), g_bytes = id, g_try_from_slice = Some\<rparr>"

interpretation raw_gossip: gossip_library raw_gossip_ops
  by unfold_locales (simp_all add: raw_gossip_ops_def)

theorem gossip_wire_roundtrip_witness:
  "\<exists>bs. gossip_serialize raw_gossip_ops be_codec [7, 8, 9] = Inr bs \<and> length bs = 5
      \<and> gossip_deserialize raw_gossip_ops be_codec (bs @ [1]) = Inr ([7, 8, 9], [1])"
proof -
  have "length (g_bytes raw_gossip_ops [7, 8, 9]) = 3" by (simp add: raw_gossip_ops_def)
  with gossip_wire_roundtrip [OF raw_gossip.gossip_library_axioms big_endian.byte_codec_axioms, of "[7, 8, 9]" "[1]" "[]"]
  show ?thesis by (simp add: MAX_GOSSIP_SIZE_def)
qed

end
