(* ===== verification/Quarantine.thy ===== *)
theory Quarantine
  imports Gossip_Codec Lru_Cache
begin

text \<open>
  Reports against nodes, \<^verbatim>\<open>jormungandr/src/topology/quarantine.rs\<close>. A reported node is
  removed from the topology and remembered with the time of the report; reports are lifted, oldest first, once they
  are older than the configured duration, and a node whose report was lifted is not reported again until a new gossip
  about it arrives.

  The topology is the \<^verbatim>\<open>poldercast\<close> crate, a parameter (\<open>poldercast_ops\<close>), as are the two
  \<^verbatim>\<open>LruCache\<close>s. Times are milliseconds; \<open>clk i\<close> is the \<open>i\<close>-th reading of the clock.
\<close>

section \<open>The topology library\<close>

record ('t, 'p, 'g, 'nid, 'key, 'bld, 'sel) poldercast_ops =
  pc_new :: "socket_addr \<Rightarrow> 'key \<Rightarrow> 'bld \<Rightarrow> 't"
  pc_subscribe_topic :: "octet list \<Rightarrow> 't \<Rightarrow> 't"
  pc_view :: "'sel \<Rightarrow> 't \<Rightarrow> 'p list \<times> 't"
  pc_self_profile :: "'t \<Rightarrow> 'p"
  pc_gossips_for :: "'nid \<Rightarrow> 't \<Rightarrow> 'g list \<times> 't"
  pc_add_peer :: "'p \<Rightarrow> 't \<Rightarrow> bool \<times> 't"
  pc_promote_peer :: "'nid \<Rightarrow> 't \<Rightarrow> 't"
  pc_remove_peer :: "'nid \<Rightarrow> 't \<Rightarrow> 't"
  pc_get :: "'t \<Rightarrow> 'nid \<Rightarrow> 'p option"
  pc_pool :: "'t \<Rightarrow> ('nid \<times> 'p) list"
  pc_trusted :: "'t \<Rightarrow> ('nid \<times> 'p) list"
  pc_dirty :: "'t \<Rightarrow> ('nid \<times> 'p) list"
  pc_update_profile_subscriptions :: "'key \<Rightarrow> 't \<Rightarrow> 't"
  pc_gossip :: "'p \<Rightarrow> 'g"
  pc_from_gossip :: "'g \<Rightarrow> 'p"
  pc_profile_id :: "'p \<Rightarrow> 'nid"
  pc_gossip_id :: "'g \<Rightarrow> 'nid"
  pc_gossip_address :: "'g \<Rightarrow> socket_addr"
  pc_gossip_time :: "'g \<Rightarrow> nat"
  pc_gossip_subscriptions :: "'g \<Rightarrow> (string \<times> nat) list"

section \<open>Reports\<close>

record 'nid peer_info =
  pi_id :: 'nid
  pi_address :: socket_addr
  pi_last_update :: nat
  pi_quarantined :: "nat option"
  pi_subscriptions :: "(string \<times> nat) list"

definition peer_info_from :: "('t, 'p, 'g, 'nid, 'key, 'bld, 'sel) poldercast_ops \<Rightarrow> 'g \<Rightarrow> 'nid peer_info" where
  "peer_info_from P other =
     \<lparr>pi_id = pc_gossip_id P other, pi_address = pc_gossip_address P other, pi_last_update = pc_gossip_time P other,
      pi_quarantined = None, pi_subscriptions = pc_gossip_subscriptions P other\<rparr>"

record 'nid report_record =
  rep_peer_info :: "'nid peer_info"
  rep_time :: nat

datatype report_node_status = ReportOk | ReportQuarantine | SoftReport

record ('gc, 'rc) report_records =
  report_duration :: nat
  report_whitelist :: "socket_addr set"
  report_grace :: 'gc
  report_list :: 'rc

text \<open>The caches of the records and of the nodes in grace.\<close>

record ('gc, 'rc, 'nid) report_libs =
  rl_grace :: "('gc, 'nid, unit) lru_ops"
  rl_records :: "('rc, 'nid, 'nid report_record) lru_ops"

locale report_libraries = grace: lru_cache "rl_grace R" + records: lru_cache "rl_records R"
  for R :: "('gc, 'rc, 'nid) report_libs"

definition DEFAULT_MAX_NUM_QUARANTINE_RECORDS :: nat where
  "DEFAULT_MAX_NUM_QUARANTINE_RECORDS = 24000"

definition DEFAULT_QUARANTINE_DURATION :: nat where
  "DEFAULT_QUARANTINE_DURATION = 10 * 60 * 1000"

definition DEFAULT_MAX_QUARANTINE_DURATION :: nat where
  "DEFAULT_MAX_QUARANTINE_DURATION = 2 * 24 * 3600 * 1000"

text \<open>\<^verbatim>\<open>max_quarantine\<close> is part of the configuration and read by nothing.\<close>

record 'ma quarantine_config =
  qc_duration :: nat
  qc_max_quarantine :: "nat option"
  qc_max_num_records :: "nat option"
  qc_whitelist :: "'ma list"

definition quarantine_config_default :: "'ma quarantine_config" where
  "quarantine_config_default =
     \<lparr>qc_duration = DEFAULT_QUARANTINE_DURATION, qc_max_quarantine = Some DEFAULT_MAX_QUARANTINE_DURATION,
      qc_max_num_records = Some DEFAULT_MAX_NUM_QUARANTINE_RECORDS, qc_whitelist = []\<rparr>"

text \<open>
  \<open>to_addr\<close> is \<^verbatim>\<open>multiaddr::to_tcp_socket_addr\<close>; an address of the whitelist that it refuses makes the
  conversion panic.
\<close>

definition reports_from_config ::
  "('gc, 'rc, 'nid) report_libs \<Rightarrow> ('ma \<Rightarrow> socket_addr option) \<Rightarrow> 'ma quarantine_config \<Rightarrow> ('gc, 'rc) report_records option" where
  "reports_from_config R to_addr config =
     (let max_num = (case qc_max_num_records config of Some n \<Rightarrow> n | None \<Rightarrow> DEFAULT_MAX_NUM_QUARANTINE_RECORDS)
      in if None \<in> set (map to_addr (qc_whitelist config)) then None
         else Some \<lparr>report_duration = qc_duration config,
                    report_whitelist = set (map (the \<circ> to_addr) (qc_whitelist config)),
                    report_grace = lru_new (rl_grace R) max_num, report_list = lru_new (rl_records R) max_num\<rparr>)"

definition reports_default :: "('gc, 'rc, 'nid) report_libs \<Rightarrow> ('gc, 'rc) report_records" where
  "reports_default R =
     \<lparr>report_duration = DEFAULT_QUARANTINE_DURATION, report_whitelist = {},
      report_grace = lru_new (rl_grace R) DEFAULT_MAX_NUM_QUARANTINE_RECORDS,
      report_list = lru_new (rl_records R) DEFAULT_MAX_NUM_QUARANTINE_RECORDS\<rparr>"

definition records_report_node ::
  "('gc, 'rc, 'nid) report_libs \<Rightarrow> ('t, 'p, 'g, 'nid, 'key, 'bld, 'sel) poldercast_ops \<Rightarrow> nat \<Rightarrow> nat \<Rightarrow> 'g
    \<Rightarrow> 't \<Rightarrow> ('gc, 'rc) report_records \<Rightarrow> report_node_status \<times> 't \<times> ('gc, 'rc) report_records" where
  "records_report_node R P system_now now node topology rr =
     (if pc_gossip_address P node \<in> report_whitelist rr then (ReportOk, topology, rr)
      else if lru_contains (rl_grace R) (report_grace rr) (pc_gossip_id P node) then (ReportOk, topology, rr)
      else
        (let info = peer_info_from P node;
             topology = pc_remove_peer P (pi_id info) topology;
             dirty = pi_id info \<in> set (map fst (pc_dirty P topology));
             info = (if dirty then info\<lparr>pi_quarantined := Some system_now\<rparr> else info);
             result = (if dirty then ReportQuarantine else SoftReport)
         in (result, topology,
             rr\<lparr>report_list := lru_put (rl_records R) (report_list rr) (pi_id info) \<lparr>rep_peer_info = info, rep_time = now\<rparr>\<rparr>)))"

definition reported_nodes :: "('gc, 'rc, 'nid) report_libs \<Rightarrow> ('gc, 'rc) report_records \<Rightarrow> 'nid peer_info list" where
  "reported_nodes R rr = map (rep_peer_info \<circ> snd) (lru_iter (rl_records R) (report_list rr))"

definition record_new_gossip :: "('gc, 'rc, 'nid) report_libs \<Rightarrow> 'nid \<Rightarrow> ('gc, 'rc) report_records \<Rightarrow> ('gc, 'rc) report_records" where
  "record_new_gossip R node rr = rr\<lparr>report_grace := snd (lru_pop (rl_grace R) (report_grace rr) node)\<rparr>"

text \<open>
  The loop ends with the records; the fuel is their number. \<^verbatim>\<open>pop_lru().unwrap()\<close> panics when there is
  nothing to pop.
\<close>

fun lift_loop ::
  "('gc, 'rc, 'nid) report_libs \<Rightarrow> (nat \<Rightarrow> nat) \<Rightarrow> nat \<Rightarrow> ('gc, 'rc) report_records
    \<Rightarrow> ('nid peer_info list \<times> ('gc, 'rc) report_records) option" where
  "lift_loop R clk fuel rr =
     (case lru_peek_lru (rl_records R) (report_list rr) of
        None \<Rightarrow> Some ([], rr)
      | Some (_, record) \<Rightarrow>
          if clk 0 - rep_time record < report_duration rr then Some ([], rr)
          else
            (case fuel of
               0 \<Rightarrow> None
             | Suc fuel \<Rightarrow>
                 (case lru_pop_lru (rl_records R) (report_list rr) of
                    (None, _) \<Rightarrow> None
                  | (Some (i, record), rest) \<Rightarrow>
                      map_option (\<lambda>(res, rr). (rep_peer_info record # res, rr))
                        (lift_loop R (\<lambda>k. clk (Suc k)) fuel
                          (rr\<lparr>report_list := rest, report_grace := lru_put (rl_grace R) (report_grace rr) i ()\<rparr>)))))"

declare lift_loop.simps [simp del]

definition records_lift_reports ::
  "('gc, 'rc, 'nid) report_libs \<Rightarrow> (nat \<Rightarrow> nat) \<Rightarrow> ('gc, 'rc) report_records
    \<Rightarrow> ('nid peer_info list \<times> ('gc, 'rc) report_records) option" where
  "records_lift_reports R clk rr = lift_loop R clk (length (lru_iter (rl_records R) (report_list rr))) rr"

section \<open>The invariant of the records\<close>

text \<open>
  Records are kept from the newest to the oldest report, under the identifier of the node they report, and never for a
  whitelisted address. The caches have room for at least one entry, and nodes in grace have as much room as records.
\<close>

definition reports_ok :: "('gc, 'rc, 'nid) report_libs \<Rightarrow> nat \<Rightarrow> ('gc, 'rc) report_records \<Rightarrow> bool" where
  "reports_ok R now rr \<longleftrightarrow>
     (let rs = lru_iter (rl_records R) (report_list rr) in
      sorted_wrt (\<lambda>a b. rep_time (snd b) \<le> rep_time (snd a)) rs
    \<and> (\<forall>(i, r)\<in>set rs. pi_id (rep_peer_info r) = i \<and> rep_time r \<le> now \<and> pi_address (rep_peer_info r) \<notin> report_whitelist rr)
    \<and> 0 < lru_cap (rl_records R) (report_list rr)
    \<and> lru_cap (rl_grace R) (report_grace rr) = lru_cap (rl_records R) (report_list rr))"

lemma reports_ok_later: "reports_ok R now rr \<Longrightarrow> now \<le> later \<Longrightarrow> reports_ok R later rr"
  by (fastforce simp: reports_ok_def Let_def)

text \<open>What lifting does, on the list of records from the oldest to the newest.\<close>

definition expired :: "nat \<Rightarrow> nat \<Rightarrow> 'nid \<times> 'nid report_record \<Rightarrow> bool" where
  "expired now duration p \<longleftrightarrow> \<not> now - rep_time (snd p) < duration"

lemma expired_later: "expired now duration p \<Longrightarrow> now \<le> later \<Longrightarrow> expired later duration p"
  by (auto simp: expired_def)

lemma expired_older: "expired now duration p \<Longrightarrow> rep_time (snd q) \<le> rep_time (snd p) \<Longrightarrow> expired now duration q"
  by (auto simp: expired_def)

context report_libraries
begin

lemma reports_ok_new: "0 < n \<Longrightarrow> reports_ok R now \<lparr>report_duration = d, report_whitelist = w,
    report_grace = lru_new (rl_grace R) n, report_list = lru_new (rl_records R) n\<rparr>"
  by (simp add: reports_ok_def records.iter_new records.cap_new grace.cap_new)

lemma reports_ok_report:
  assumes "reports_ok R now rr"
  shows "reports_ok R now (snd (snd (records_report_node R P system_now now node topology rr)))"
proof -
  let ?rs = "lru_iter (rl_records R) (report_list rr)" and ?i = "pc_gossip_id P node"
  have main: "reports_ok R now (rr\<lparr>report_list := lru_put (rl_records R) (report_list rr) ?i r\<rparr>)"
    if r: "pi_id (rep_peer_info r) = ?i" "rep_time r = now" "pi_address (rep_peer_info r) \<notin> report_whitelist rr" for r
  proof -
    let ?new = "(?i, r) # AList.delete ?i ?rs"
    have iter: "lru_iter (rl_records R) (lru_put (rl_records R) (report_list rr) ?i r) = take (lru_cap (rl_records R) (report_list rr)) ?new"
      using assms by (intro records.iter_put) (simp add: reports_ok_def Let_def)
    have "sorted_wrt (\<lambda>a b. rep_time (snd b) \<le> rep_time (snd a)) ?new"
      using assms r by (auto simp: reports_ok_def Let_def set_adelete adelete_filter intro: sorted_wrt_filter)
    moreover have "\<forall>(i, r)\<in>set ?new. pi_id (rep_peer_info r) = i \<and> rep_time r \<le> now \<and> pi_address (rep_peer_info r) \<notin> report_whitelist rr"
      using assms r by (auto simp: reports_ok_def Let_def set_adelete)
    ultimately show ?thesis
      using assms by (auto simp: reports_ok_def Let_def iter records.cap_put sorted_wrt_take dest!: in_set_takeD)
  qed
  show ?thesis
    using assms by (auto simp: records_report_node_def Let_def peer_info_from_def intro!: main)
qed

text \<open>Nodes put into grace one after the other are its most recent entries.\<close>

lemma take_delete_front:
  "k \<notin> fst ` set (take n xs) \<Longrightarrow> take n (AList.delete k xs) = take n xs" if "n \<le> length xs" for xs :: "('a \<times> 'b) list"
proof -
  assume k: "k \<notin> fst ` set (take n xs)"
  have "AList.delete k (take n xs @ drop n xs) = take n xs @ AList.delete k (drop n xs)"
    using k adelete_notin [of k "take n xs"] by (simp only: adelete_append) simp
  with that show ?thesis by simp
qed

lemma grace_fold_put:
  assumes "distinct ks" and "length ks \<le> lru_cap (rl_grace R) g"
  shows "take (length ks) (lru_iter (rl_grace R) (fold (\<lambda>i g. lru_put (rl_grace R) g i ()) ks g)) = map (\<lambda>i. (i, ())) (rev ks)
       \<and> lru_cap (rl_grace R) (fold (\<lambda>i g. lru_put (rl_grace R) g i ()) ks g) = lru_cap (rl_grace R) g"
  using assms
proof (induction ks rule: rev_induct)
  case (snoc k ks)
  let ?g = "fold (\<lambda>i g. lru_put (rl_grace R) g i ()) ks g"
  let ?L = "lru_iter (rl_grace R) ?g"
  have IH: "take (length ks) ?L = map (\<lambda>i. (i, ())) (rev ks)" "lru_cap (rl_grace R) ?g = lru_cap (rl_grace R) g"
    using snoc by simp_all
  then have "length ks \<le> length ?L" by (metis length_map length_rev length_take min.cobounded1)
  moreover have "k \<notin> fst ` set (take (length ks) ?L)" using IH(1) snoc.prems(1) by auto
  ultimately have "take (length ks) (AList.delete k ?L) = take (length ks) ?L" by (intro take_delete_front)
  moreover have "lru_iter (rl_grace R) (lru_put (rl_grace R) ?g k ()) = take (lru_cap (rl_grace R) g) ((k, ()) # AList.delete k ?L)"
    using snoc.prems(2) IH(2) grace.iter_put [of ?g k "()"] by simp
  ultimately show ?case using IH snoc.prems(2) by (simp add: grace.cap_put min_absorb1)
qed simp

lemma lift_loop_spec:
  assumes "mono clk" and "length (lru_iter (rl_records R) (report_list rr)) \<le> fuel"
  shows "\<exists>lifted rest rr'.
     lift_loop R clk fuel rr = Some (map (rep_peer_info \<circ> snd) (rev lifted), rr')
   \<and> lru_iter (rl_records R) (report_list rr) = rest @ lifted \<and> lru_iter (rl_records R) (report_list rr') = rest
   \<and> (\<forall>p\<in>set lifted. expired (clk (length lifted - 1)) (report_duration rr) p)
   \<and> (rest = [] \<or> \<not> expired (clk (length lifted)) (report_duration rr) (last rest))
   \<and> report_duration rr' = report_duration rr \<and> report_whitelist rr' = report_whitelist rr
   \<and> lru_cap (rl_records R) (report_list rr') = lru_cap (rl_records R) (report_list rr)
   \<and> report_grace rr' = fold (\<lambda>i g. lru_put (rl_grace R) g i ()) (map fst (rev lifted)) (report_grace rr)"
  using assms
proof (induction fuel arbitrary: clk rr)
  case 0
  then show ?case
    by (subst lift_loop.simps) (simp add: records.peek_lru_result)
next
  case (Suc fuel)
  let ?rs = "lru_iter (rl_records R) (report_list rr)"
  show ?case
  proof (cases "?rs = [] \<or> \<not> expired (clk 0) (report_duration rr) (last ?rs)")
    case True
    then have "lift_loop R clk (Suc fuel) rr = Some ([], rr)"
      by (subst lift_loop.simps) (auto simp: records.peek_lru_result expired_def split: prod.splits)
    with True show ?thesis by (intro exI [of _ "[]"] exI [of _ ?rs] exI [of _ rr]) simp
  next
    case False
    then obtain rs i r where rs: "?rs = rs @ [(i, r)]" by (metis surj_pair append_butlast_last_id)
    let ?rr = "rr\<lparr>report_list := snd (lru_pop_lru (rl_records R) (report_list rr)), report_grace := lru_put (rl_grace R) (report_grace rr) i ()\<rparr>"
    have iter: "lru_iter (rl_records R) (report_list ?rr) = rs" by (simp add: records.iter_pop_lru rs)
    have mono: "mono (\<lambda>k. clk (Suc k))" using Suc.prems(1) by (simp add: mono_def)
    have step: "lift_loop R clk (Suc fuel) rr =
        map_option (\<lambda>(res, rr). (rep_peer_info r # res, rr)) (lift_loop R (\<lambda>k. clk (Suc k)) fuel ?rr)"
      using False rs by (subst lift_loop.simps) (simp add: records.peek_lru_result records.pop_lru_result expired_def split_beta prod_eq_iff)
    obtain lifted rest rr' where IH:
      "lift_loop R (\<lambda>k. clk (Suc k)) fuel ?rr = Some (map (rep_peer_info \<circ> snd) (rev lifted), rr')"
      "rs = rest @ lifted" "lru_iter (rl_records R) (report_list rr') = rest"
      "\<forall>p\<in>set lifted. expired (clk (Suc (length lifted - 1))) (report_duration rr) p"
      "rest = [] \<or> \<not> expired (clk (Suc (length lifted))) (report_duration rr) (last rest)"
      "report_duration rr' = report_duration rr" "report_whitelist rr' = report_whitelist rr"
      "lru_cap (rl_records R) (report_list rr') = lru_cap (rl_records R) (report_list rr)"
      "report_grace rr' = fold (\<lambda>i g. lru_put (rl_grace R) g i ()) (map fst (rev lifted)) (lru_put (rl_grace R) (report_grace rr) i ())"
      using Suc.IH [OF mono, of ?rr] Suc.prems(2) iter rs by (auto simp: records.cap_pop_lru)
    have e0: "expired (clk 0) (report_duration rr) (i, r)" using False rs by simp
    have le: "clk 0 \<le> clk (length lifted)" "clk (Suc (length lifted - 1)) \<le> clk (length lifted) \<or> lifted = []"
      using Suc.prems(1) by (auto simp: mono_def Suc_le_eq)
    have "\<forall>p\<in>set (lifted @ [(i, r)]). expired (clk (length lifted)) (report_duration rr) p"
      using IH(4) e0 le by (auto intro: expired_later)
    with step IH rs show ?thesis
      by (intro exI [of _ "lifted @ [(i, r)]"] exI [of _ rest] exI [of _ rr']) simp
  qed
qed

lemma sorted_last_oldest:
  "sorted_wrt (\<lambda>a b. rep_time (snd b) \<le> rep_time (snd a)) xs \<Longrightarrow> p \<in> set xs \<Longrightarrow> rep_time (snd (last xs)) \<le> rep_time (snd p)"
  by (induction xs) auto

lemma lift_reports_result:
  assumes ok: "reports_ok R now rr" and "mono clk"
  obtains res rr' where "records_lift_reports R clk rr = Some (res, rr')"
    and "rev (reported_nodes R rr) = res @ rev (reported_nodes R rr')"
    and "lru_iter (rl_records R) (report_list rr') =
           take (length (lru_iter (rl_records R) (report_list rr)) - length res) (lru_iter (rl_records R) (report_list rr))"
    and "\<forall>p\<in>set (lru_iter (rl_records R) (report_list rr')). \<not> expired (clk 0) (report_duration rr) p"
    and "\<forall>p\<in>set (lru_iter (rl_records R) (report_list rr)) - set (lru_iter (rl_records R) (report_list rr')).
           expired (clk (length res)) (report_duration rr) p"
    and "\<forall>info\<in>set res. lru_contains (rl_grace R) (report_grace rr') (pi_id info)"
    and "reports_ok R now rr'" and "report_whitelist rr' = report_whitelist rr"
proof -
  let ?rs = "lru_iter (rl_records R) (report_list rr)"
  obtain lifted rest rr' where L:
    "records_lift_reports R clk rr = Some (map (rep_peer_info \<circ> snd) (rev lifted), rr')"
    "?rs = rest @ lifted" "lru_iter (rl_records R) (report_list rr') = rest"
    "\<forall>p\<in>set lifted. expired (clk (length lifted - 1)) (report_duration rr) p"
    "rest = [] \<or> \<not> expired (clk (length lifted)) (report_duration rr) (last rest)"
    "report_duration rr' = report_duration rr" "report_whitelist rr' = report_whitelist rr"
    "lru_cap (rl_records R) (report_list rr') = lru_cap (rl_records R) (report_list rr)"
    "report_grace rr' = fold (\<lambda>i g. lru_put (rl_grace R) g i ()) (map fst (rev lifted)) (report_grace rr)"
    using lift_loop_spec [OF assms(2), of rr "length ?rs"] unfolding records_lift_reports_def by blast
  have sorted: "sorted_wrt (\<lambda>a b. rep_time (snd b) \<le> rep_time (snd a)) rest"
    using ok L(2) by (simp add: reports_ok_def Let_def sorted_wrt_append)
  have clk: "clk 0 \<le> clk (length lifted)" "clk (length lifted - 1) \<le> clk (length lifted)"
    using assms(2) by (simp_all add: mono_def)
  have kept: "\<not> expired (clk 0) (report_duration rr) p" if "p \<in> set rest" for p
    using L(5) that sorted_last_oldest [OF sorted that] clk(1) by (auto dest: expired_later expired_older)
  have "length (map fst (rev lifted)) \<le> lru_cap (rl_grace R) (report_grace rr)"
    using records.iter_length [of "report_list rr"] ok L(2) by (simp add: reports_ok_def Let_def)
  moreover have "distinct (map fst (rev lifted))"
    using records.keys_distinct [of "report_list rr"] L(2) by (simp add: rev_map [symmetric])
  ultimately have g: "take (length lifted) (lru_iter (rl_grace R) (report_grace rr')) = map (\<lambda>p. (fst p, ())) lifted"
      "lru_cap (rl_grace R) (report_grace rr') = lru_cap (rl_grace R) (report_grace rr)"
    using grace_fold_put [of "map fst (rev lifted)" "report_grace rr"] L(9) by (simp_all add: rev_map comp_def)
  have "lru_contains (rl_grace R) (report_grace rr') (fst p)" if "p \<in> set lifted" for p
  proof -
    have "(fst p, ()) \<in> set (take (length lifted) (lru_iter (rl_grace R) (report_grace rr')))" using that by (simp add: g(1))
    then show ?thesis by (force simp: grace.contains_iff dest: in_set_takeD)
  qed
  moreover have "pi_id (rep_peer_info (snd p)) = fst p" if "p \<in> set lifted" for p
  proof -
    have "p \<in> set ?rs" using that L(2) by simp
    then show ?thesis using ok by (auto simp: reports_ok_def Let_def case_prod_beta)
  qed
  ultimately have "\<forall>info\<in>set (map (rep_peer_info \<circ> snd) (rev lifted)). lru_contains (rl_grace R) (report_grace rr') (pi_id info)"
    by auto
  moreover have "reports_ok R now rr'"
    using ok L sorted g(2) by (auto simp: reports_ok_def Let_def)
  moreover have "rev (reported_nodes R rr) = map (rep_peer_info \<circ> snd) (rev lifted) @ rev (reported_nodes R rr')"
    by (simp add: reported_nodes_def L(2,3) rev_map)
  moreover have "\<forall>p\<in>set ?rs - set (lru_iter (rl_records R) (report_list rr')).
      expired (clk (length (map (rep_peer_info \<circ> snd) (rev lifted)))) (report_duration rr) p"
    using L(2,3,4) clk(2) by (auto intro: expired_later)
  moreover have "lru_iter (rl_records R) (report_list rr') = take (length ?rs - length (map (rep_peer_info \<circ> snd) (rev lifted))) ?rs"
    by (simp add: L(2,3))
  ultimately show thesis using that [OF L(1)] kept L(3,7) by simp
qed

end

text \<open>
  Lifting reports (C26). Lifting never panics. It takes the oldest reports, in order: every report that had expired when
  the check started is lifted, only reports that have expired by its end are, and every node whose report is lifted is
  in grace afterwards. The remaining reports are kept as they were.
\<close>

theorem lift_reports_correct:
  assumes "report_libraries R" and "reports_ok R now rr" and "mono clk"
  shows "\<exists>res rr'. records_lift_reports R clk rr = Some (res, rr')
     \<and> rev (reported_nodes R rr) = res @ rev (reported_nodes R rr')
     \<and> lru_iter (rl_records R) (report_list rr') =
           take (length (lru_iter (rl_records R) (report_list rr)) - length res) (lru_iter (rl_records R) (report_list rr))
     \<and> (\<forall>p\<in>set (lru_iter (rl_records R) (report_list rr')). \<not> expired (clk 0) (report_duration rr) p)
     \<and> (\<forall>p\<in>set (lru_iter (rl_records R) (report_list rr)) - set (lru_iter (rl_records R) (report_list rr')).
          expired (clk (length res)) (report_duration rr) p)
     \<and> (\<forall>info\<in>set res. lru_contains (rl_grace R) (report_grace rr') (pi_id info))
     \<and> reports_ok R now rr'"
  by (rule report_libraries.lift_reports_result [OF assms]) blast

section \<open>An example\<close>

definition example_report_libs :: "((nat, unit) recency_list, (nat, nat report_record) recency_list, nat) report_libs" where
  "example_report_libs = \<lparr>rl_grace = recency_ops, rl_records = recency_ops\<rparr>"

interpretation example_reports: report_libraries example_report_libs
  by (simp add: report_libraries_def example_report_libs_def recency.lru_cache_axioms)

definition example_info :: "nat peer_info" where
  "example_info =
     \<lparr>pi_id = 7, pi_address = \<lparr>sa_ip = V4 (IPv4 192 168 0 1), sa_port = 80\<rparr>, pi_last_update = 0, pi_quarantined = None,
      pi_subscriptions = []\<rparr>"

definition example_records :: "((nat, unit) recency_list, (nat, nat report_record) recency_list) report_records" where
  "example_records =
     \<lparr>report_duration = 5, report_whitelist = {}, report_grace = lru_new (rl_grace example_report_libs) 3,
      report_list = lru_put (rl_records example_report_libs) (lru_new (rl_records example_report_libs) 3) 7
        \<lparr>rep_peer_info = example_info, rep_time = 0\<rparr>\<rparr>"

lemma example_records_iter:
  "lru_iter (rl_records example_report_libs) (report_list example_records) = [(7, \<lparr>rep_peer_info = example_info, rep_time = 0\<rparr>)]"
  by (simp add: example_records_def example_reports.records.iter_put example_reports.records.iter_new example_reports.records.cap_new)

lemma example_records_ok: "reports_ok example_report_libs 0 example_records"
  unfolding reports_ok_def Let_def example_records_iter
  by (simp add: example_info_def)
    (simp add: example_records_def example_reports.records.cap_put example_reports.records.cap_new example_reports.grace.cap_new)

text \<open>A report of time 0 is lifted at time 10 and its node is in grace.\<close>

theorem lift_reports_correct_witness:
  "\<exists>rr'. records_lift_reports example_report_libs (\<lambda>i. 10 + i) example_records = Some ([example_info], rr')
       \<and> lru_contains (rl_grace example_report_libs) (report_grace rr') 7"
proof -
  have "mono (\<lambda>i. 10 + i :: nat)" by (simp add: mono_def)
  then obtain res rr' where r: "records_lift_reports example_report_libs (\<lambda>i. 10 + i) example_records = Some (res, rr')"
      "rev (reported_nodes example_report_libs example_records) = res @ rev (reported_nodes example_report_libs rr')"
      "lru_iter (rl_records example_report_libs) (report_list rr') =
         take (1 - length res) [(7, \<lparr>rep_peer_info = example_info, rep_time = 0\<rparr>)]"
      "\<forall>p\<in>set (lru_iter (rl_records example_report_libs) (report_list rr')). \<not> expired 10 5 p"
      "\<forall>info\<in>set res. lru_contains (rl_grace example_report_libs) (report_grace rr') (pi_id info)"
    using lift_reports_correct [OF example_reports.report_libraries_axioms example_records_ok, of "\<lambda>i. 10 + i"]
    by (auto simp: example_records_iter) (auto simp: example_records_def)
  have "res = [example_info]"
    using r(2-4) by (cases res) (auto simp: reported_nodes_def example_records_iter expired_def)
  with r show ?thesis by (simp add: example_info_def)
qed

end
