(* ===== verification/Topology_Task.thy ===== *)
theory Topology_Task
  imports Quarantine Message_Box
begin

text \<open>
  The topology task: \<^verbatim>\<open>jormungandr/src/topology/topology.rs\<close> (the operations on the topology, its
  quarantine and the gauges of the metrics), \<^verbatim>\<open>jormungandr/src/topology/layers\<close> (the preferred
  list and the rings) and \<^verbatim>\<open>jormungandr/src/topology/process.rs\<close> (the handling of messages and
  timers).

  An event of the task carries the readings of the clocks that its handler makes. Gossips to send go to the mailbox
  of the network task.
\<close>

section \<open>Layers\<close>

record 'nid trusted_peer =
  tpeer_addr :: socket_addr
  tpeer_id :: "'nid option"

record 'nid preferred_list =
  pl_view_max :: nat
  pl_known :: "socket_addr \<Rightarrow> 'nid option option"
  pl_current_peers :: "'nid set"

text \<open>Collecting into a hash map keeps the last entry of an address.\<close>

definition preferred_list_new :: "nat \<Rightarrow> 'nid trusted_peer list \<Rightarrow> 'nid preferred_list" where
  "preferred_list_new view_max peers =
     \<lparr>pl_view_max = view_max, pl_known = map_of (rev (map (\<lambda>p. (tpeer_addr p, tpeer_id p)) peers)), pl_current_peers = {}\<rparr>"

definition preferred_populate :: "socket_addr \<Rightarrow> 'nid \<Rightarrow> 'nid preferred_list \<Rightarrow> 'nid preferred_list" where
  "preferred_populate addr i l =
     (case pl_known l addr of
        None \<Rightarrow> l
      | Some trusted_id \<Rightarrow>
          if trusted_id = None \<or> trusted_id = Some i then l\<lparr>pl_current_peers := insert i (pl_current_peers l)\<rparr> else l)"

definition preferred_reset :: "'nid preferred_list \<Rightarrow> 'nid preferred_list" where
  "preferred_reset l = l\<lparr>pl_current_peers := {}\<rparr>"

definition preferred_remove :: "'nid \<Rightarrow> 'nid preferred_list \<Rightarrow> 'nid preferred_list" where
  "preferred_remove i l = l"

text \<open>\<open>pick\<close> is \<^verbatim>\<open>choose_multiple\<close> with the random generator of the layer.\<close>

definition preferred_view :: "('nid set \<Rightarrow> nat \<Rightarrow> 'nid list) \<Rightarrow> 'nid preferred_list \<Rightarrow> 'nid list" where
  "preferred_view pick l = pick (pl_current_peers l) (pl_view_max l)"

datatype interest_level = InterestLevel nat

record rings_config =
  rc_messages :: interest_level
  rc_blocks :: interest_level

definition LOW_INTERESET :: interest_level where
  "LOW_INTERESET = InterestLevel 1"

definition NORMAL_INTEREST :: interest_level where
  "NORMAL_INTEREST = InterestLevel 3"

definition HIGH_INTEREST :: interest_level where
  "HIGH_INTEREST = InterestLevel 5"

definition rings_config_default :: rings_config where
  "rings_config_default = \<lparr>rc_messages = NORMAL_INTEREST, rc_blocks = NORMAL_INTEREST\<rparr>"

definition parse_interest :: "string \<Rightarrow> (string, interest_level) result" where
  "parse_interest interest =
     (if interest = ''low'' then Inr LOW_INTERESET
      else if interest = ''normal'' then Inr NORMAL_INTEREST
      else if interest = ''high'' then Inr HIGH_INTEREST
      else Inl interest)"

definition rings_config_try_from :: "string \<Rightarrow> string \<Rightarrow> (string, rings_config) result" where
  "rings_config_try_from messages blocks =
     rbind (parse_interest messages) (\<lambda>m. rbind (parse_interest blocks) (\<lambda>b. Inr \<lparr>rc_messages = m, rc_blocks = b\<rparr>))"

definition topic_MESSAGES :: "octet list" where
  "topic_MESSAGES = replicate 32 0"

definition topic_BLOCKS :: "octet list" where
  "topic_BLOCKS = replicate 32 1"

definition rings_subscriptions :: "rings_config \<Rightarrow> (interest_level \<times> octet list) list" where
  "rings_subscriptions levels = [(rc_blocks levels, topic_BLOCKS), (rc_messages levels, topic_MESSAGES)]"

section \<open>The topology of the node\<close>

record ('t, 'gc, 'rc, 'key) p2p_topology =
  pt_topology :: 't
  pt_quarantine :: "('gc, 'rc) report_records"
  pt_key :: 'key
  pt_peer_available_cnt :: nat
  pt_peer_quarantined_cnt :: u64

definition LOCAL_ADDR :: socket_addr where
  "LOCAL_ADDR = \<lparr>sa_ip = V4 (IPv4 127 0 0 1), sa_port = 0\<rparr>"

record ('ma, 'key, 'bld) topology_config =
  tc_public_address :: "socket_addr option"
  tc_node_key :: 'key
  tc_policy :: "'ma quarantine_config"
  tc_layers :: 'bld

definition p2p_topology_new ::
  "('gc, 'rc, 'nid) report_libs \<Rightarrow> ('t, 'p, 'g, 'nid, 'key, 'bld, 'sel) poldercast_ops \<Rightarrow> ('ma \<Rightarrow> socket_addr option)
    \<Rightarrow> ('ma, 'key, 'bld) topology_config \<Rightarrow> ('t, 'gc, 'rc, 'key) p2p_topology option" where
  "p2p_topology_new R P to_addr config =
     (let addr = (case tc_public_address config of Some a \<Rightarrow> a | None \<Rightarrow> LOCAL_ADDR)
      in map_option (\<lambda>quarantine.
           (let topology = pc_new P addr (tc_node_key config) (tc_layers config);
                topology = pc_subscribe_topic P topic_MESSAGES topology;
                topology = pc_subscribe_topic P topic_BLOCKS topology
            in \<lparr>pt_topology = topology, pt_quarantine = quarantine, pt_key = tc_node_key config,
                pt_peer_available_cnt = 0, pt_peer_quarantined_cnt = 0\<rparr>))
         (reports_from_config R to_addr (tc_policy config)))"

record 'g topology_view =
  tv_peers :: "'g list"
  tv_self_node :: 'g

definition pt_view ::
  "('t, 'p, 'g, 'nid, 'key, 'bld, 'sel) poldercast_ops \<Rightarrow> 'sel \<Rightarrow> ('t, 'gc, 'rc, 'key) p2p_topology
    \<Rightarrow> 'g topology_view \<times> ('t, 'gc, 'rc, 'key) p2p_topology" where
  "pt_view P selection tp =
     (let (peers, t) = pc_view P selection (pt_topology tp)
      in (\<lparr>tv_peers = map (pc_gossip P) peers, tv_self_node = pc_gossip P (pc_self_profile P t)\<rparr>, tp\<lparr>pt_topology := t\<rparr>))"

definition initiate_gossips ::
  "('t, 'p, 'g, 'nid, 'key, 'bld, 'sel) poldercast_ops \<Rightarrow> 'nid \<Rightarrow> ('t, 'gc, 'rc, 'key) p2p_topology
    \<Rightarrow> 'g list \<times> ('t, 'gc, 'rc, 'key) p2p_topology" where
  "initiate_gossips P recipient tp =
     (let (gossips, t) = pc_gossips_for P recipient (pt_topology tp);
          gossips = (if gossips = [] then [pc_gossip P (pc_self_profile P t)] else gossips)
      in (filter (\<lambda>g. pc_gossip_address P g \<noteq> LOCAL_ADDR) gossips, tp\<lparr>pt_topology := t\<rparr>))"

definition list_available ::
  "('t, 'p, 'g, 'nid, 'key, 'bld, 'sel) poldercast_ops \<Rightarrow> ('t, 'gc, 'rc, 'key) p2p_topology \<Rightarrow> 'g list" where
  "list_available P tp = map (\<lambda>(_, profile). pc_gossip P profile) (pc_pool P (pt_topology tp) @ pc_trusted P (pt_topology tp))"

definition peer_available_cnt ::
  "('t, 'p, 'g, 'nid, 'key, 'bld, 'sel) poldercast_ops \<Rightarrow> ('t, 'gc, 'rc, 'key) p2p_topology \<Rightarrow> nat" where
  "peer_available_cnt P tp = length (list_available P tp)"

definition set_available ::
  "('t, 'p, 'g, 'nid, 'key, 'bld, 'sel) poldercast_ops \<Rightarrow> ('t, 'gc, 'rc, 'key) p2p_topology \<Rightarrow> ('t, 'gc, 'rc, 'key) p2p_topology" where
  "set_available P tp = tp\<lparr>pt_peer_available_cnt := peer_available_cnt P tp\<rparr>"

fun accept_gossips ::
  "('gc, 'rc, 'nid) report_libs \<Rightarrow> ('t, 'p, 'g, 'nid, 'key, 'bld, 'sel) poldercast_ops \<Rightarrow> 'g list
    \<Rightarrow> ('t, 'gc, 'rc, 'key) p2p_topology \<Rightarrow> ('t, 'gc, 'rc, 'key) p2p_topology" where
  "accept_gossips R P [] tp = tp"
| "accept_gossips R P (g # gossips) tp =
     (let peer = pc_from_gossip P g; peer_id = pc_profile_id P peer;
          (added, t) = pc_add_peer P peer (pt_topology tp); tp = tp\<lparr>pt_topology := t\<rparr>;
          tp = (if added then set_available P (tp\<lparr>pt_quarantine := record_new_gossip R peer_id (pt_quarantine tp)\<rparr>) else tp)
      in accept_gossips R P gossips tp)"

definition list_quarantined ::
  "('gc, 'rc, 'nid) report_libs \<Rightarrow> ('t, 'p, 'g, 'nid, 'key, 'bld, 'sel) poldercast_ops
    \<Rightarrow> ('t, 'gc, 'rc, 'key) p2p_topology \<Rightarrow> 'nid peer_info list" where
  "list_quarantined R P tp =
     filter (\<lambda>profile. pi_id profile \<in> set (map fst (pc_dirty P (pt_topology tp)))) (reported_nodes R (pt_quarantine tp))"

definition list_non_public ::
  "('t, 'p, 'g, 'nid, 'key, 'bld, 'sel) poldercast_ops \<Rightarrow> ('t, 'gc, 'rc, 'key) p2p_topology \<Rightarrow> 'g list" where
  "list_non_public P tp =
     List.map_filter (\<lambda>(_, profile). let peer = pc_gossip P profile in if is_global (pc_gossip_address P peer) then None else Some peer)
       (pc_pool P (pt_topology tp) @ pc_trusted P (pt_topology tp))"

definition promote_node ::
  "('t, 'p, 'g, 'nid, 'key, 'bld, 'sel) poldercast_ops \<Rightarrow> 'nid \<Rightarrow> ('t, 'gc, 'rc, 'key) p2p_topology \<Rightarrow> ('t, 'gc, 'rc, 'key) p2p_topology" where
  "promote_node P node tp = set_available P (tp\<lparr>pt_topology := pc_promote_peer P node (pt_topology tp)\<rparr>)"

definition pt_report_node ::
  "('gc, 'rc, 'nid) report_libs \<Rightarrow> ('t, 'p, 'g, 'nid, 'key, 'bld, 'sel) poldercast_ops \<Rightarrow> nat \<Rightarrow> nat \<Rightarrow> 'nid
    \<Rightarrow> ('t, 'gc, 'rc, 'key) p2p_topology \<Rightarrow> ('t, 'gc, 'rc, 'key) p2p_topology" where
  "pt_report_node R P system_now now node_id tp =
     (case pc_get P (pt_topology tp) node_id of
        None \<Rightarrow> tp
      | Some node \<Rightarrow>
          (let (result, t, quarantine) = records_report_node R P system_now now (pc_gossip P node) (pt_topology tp) (pt_quarantine tp);
               tp = tp\<lparr>pt_topology := t, pt_quarantine := quarantine\<rparr>;
               tp = (if result = ReportQuarantine \<or> result = SoftReport then set_available P tp else tp)
           in if result = ReportQuarantine then tp\<lparr>pt_peer_quarantined_cnt := pt_peer_quarantined_cnt tp + 1\<rparr> else tp))"

definition update_gossip ::
  "('t, 'p, 'g, 'nid, 'key, 'bld, 'sel) poldercast_ops \<Rightarrow> ('t, 'gc, 'rc, 'key) p2p_topology \<Rightarrow> ('t, 'gc, 'rc, 'key) p2p_topology" where
  "update_gossip P tp = tp\<lparr>pt_topology := pc_update_profile_subscriptions P (pt_key tp) (pt_topology tp)\<rparr>"

text \<open>The node is looked up in the dirty pool; a report against a node that is not there is dropped.\<close>

fun lift_each ::
  "('t, 'p, 'g, 'nid, 'key, 'bld, 'sel) poldercast_ops \<Rightarrow> 'nid peer_info list \<Rightarrow> ('t, 'gc, 'rc, 'key) p2p_topology
    \<Rightarrow> 'g list \<times> ('t, 'gc, 'rc, 'key) p2p_topology" where
  "lift_each P [] tp = ([], tp)"
| "lift_each P (info # infos) tp =
     (case map_of (pc_dirty P (pt_topology tp)) (pi_id info) of
        None \<Rightarrow> lift_each P infos tp
      | Some node \<Rightarrow>
          (let tp = tp\<lparr>pt_topology := pc_promote_peer P (pc_profile_id P node) (pt_topology tp),
                       pt_peer_quarantined_cnt := pt_peer_quarantined_cnt tp - 1\<rparr>;
               (peers, tp) = lift_each P infos (set_available P tp)
           in (pc_gossip P node # peers, tp)))"

definition pt_lift_reports ::
  "('gc, 'rc, 'nid) report_libs \<Rightarrow> ('t, 'p, 'g, 'nid, 'key, 'bld, 'sel) poldercast_ops \<Rightarrow> (nat \<Rightarrow> nat)
    \<Rightarrow> ('t, 'gc, 'rc, 'key) p2p_topology \<Rightarrow> ('g list \<times> ('t, 'gc, 'rc, 'key) p2p_topology) option" where
  "pt_lift_reports R P clk tp =
     map_option (\<lambda>(infos, quarantine). lift_each P infos (tp\<lparr>pt_quarantine := quarantine\<rparr>))
       (records_lift_reports R clk (pt_quarantine tp))"

section \<open>The task\<close>

definition PROCESS_MAX_GOSSIP_SIZE :: nat where
  "PROCESS_MAX_GOSSIP_SIZE = 10"

record ('t, 'gc, 'rc, 'key, 'g) topology_task =
  tt_topology :: "('t, 'gc, 'rc, 'key) p2p_topology"
  tt_network_stuck_check :: nat
  tt_last_update :: nat
  tt_network :: "('g \<times> 'g list) mailbox"

datatype ('g, 'nid, 'sel) topology_msg =
    AcceptGossip "'g list"
  | DemotePeer 'nid
  | PromotePeer 'nid
  | ViewRequest 'sel
  | ListAvailable
  | ListNonPublic
  | ListQuarantined

datatype ('g, 'nid) topology_reply =
    NoReply
  | ViewReply "'g topology_view"
  | PeersReply "'g list"
  | QuarantinedReply "'nid peer_info list"

fun send_gossip_messages ::
  "('t, 'p, 'g, 'nid, 'key, 'bld, 'sel) poldercast_ops \<Rightarrow> 'g list \<Rightarrow> ('t, 'gc, 'rc, 'key, 'g) topology_task
    \<Rightarrow> ('t, 'gc, 'rc, 'key, 'g) topology_task" where
  "send_gossip_messages P [] task = task"
| "send_gossip_messages P (peer # peers) task =
     (let (gs, tp) = initiate_gossips P (pc_gossip_id P peer) (tt_topology task)
      in send_gossip_messages P peers
           (task\<lparr>tt_topology := tp, tt_network := snd (mb_try_send (peer, gs) (tt_network task))\<rparr>))"

fun handle_topology_msg ::
  "('gc, 'rc, 'nid) report_libs \<Rightarrow> ('t, 'p, 'g, 'nid, 'key, 'bld, 'sel) poldercast_ops \<Rightarrow> nat \<Rightarrow> nat \<Rightarrow> ('g, 'nid, 'sel) topology_msg
    \<Rightarrow> ('t, 'gc, 'rc, 'key, 'g) topology_task \<Rightarrow> ('g, 'nid) topology_reply \<times> ('t, 'gc, 'rc, 'key, 'g) topology_task" where
  "handle_topology_msg R P system_now now (AcceptGossip gs) task =
     (NoReply, task\<lparr>tt_topology := accept_gossips R P gs (tt_topology task), tt_last_update := now\<rparr>)"
| "handle_topology_msg R P system_now now (DemotePeer i) task =
     (NoReply, task\<lparr>tt_topology := pt_report_node R P system_now now i (tt_topology task)\<rparr>)"
| "handle_topology_msg R P system_now now (PromotePeer i) task =
     (NoReply, task\<lparr>tt_topology := promote_node P i (tt_topology task)\<rparr>)"
| "handle_topology_msg R P system_now now (ViewRequest selection) task =
     (let (view, tp) = pt_view P selection (tt_topology task) in (ViewReply view, task\<lparr>tt_topology := tp\<rparr>))"
| "handle_topology_msg R P system_now now ListAvailable task = (PeersReply (list_available P (tt_topology task)), task)"
| "handle_topology_msg R P system_now now ListNonPublic task = (PeersReply (list_non_public P (tt_topology task)), task)"
| "handle_topology_msg R P system_now now ListQuarantined task = (QuarantinedReply (list_quarantined R P (tt_topology task)), task)"

definition gossip_tick ::
  "('t, 'p, 'g, 'nid, 'key, 'bld, 'sel) poldercast_ops \<Rightarrow> 'sel \<Rightarrow> ('t, 'gc, 'rc, 'key, 'g) topology_task
    \<Rightarrow> ('t, 'gc, 'rc, 'key, 'g) topology_task" where
  "gossip_tick P any task =
     (let (view, tp) = pt_view P any (update_gossip P (tt_topology task))
      in send_gossip_messages P (tv_peers view) (task\<lparr>tt_topology := tp\<rparr>))"

text \<open>\<open>clk\<close> is read by the lifting of reports, \<open>now\<close> by the check of the last update.\<close>

definition quarantine_tick ::
  "('gc, 'rc, 'nid) report_libs \<Rightarrow> ('t, 'p, 'g, 'nid, 'key, 'bld, 'sel) poldercast_ops \<Rightarrow> (nat \<Rightarrow> nat) \<Rightarrow> nat
    \<Rightarrow> ('t, 'gc, 'rc, 'key, 'g) topology_task \<Rightarrow> ('t, 'gc, 'rc, 'key, 'g) topology_task option" where
  "quarantine_tick R P clk now task =
     map_option (\<lambda>(nodes_to_contact, tp).
       (let task = task\<lparr>tt_topology := tp\<rparr>
        in if now - tt_last_update task > tt_network_stuck_check task
           then send_gossip_messages P
                  (nodes_to_contact @ take (PROCESS_MAX_GOSSIP_SIZE - length nodes_to_contact) (list_available P tp))
                  (task\<lparr>tt_last_update := now\<rparr>)
           else send_gossip_messages P nodes_to_contact task))
     (pt_lift_reports R P clk (tt_topology task))"

definition topology_task_start ::
  "('gc, 'rc, 'nid) report_libs \<Rightarrow> ('t, 'p, 'g, 'nid, 'key, 'bld, 'sel) poldercast_ops \<Rightarrow> ('ma \<Rightarrow> socket_addr option)
    \<Rightarrow> ('ma, 'key, 'bld) topology_config \<Rightarrow> nat \<Rightarrow> 'g list \<Rightarrow> ('g \<times> 'g list) mailbox \<Rightarrow> nat
    \<Rightarrow> ('t, 'gc, 'rc, 'key, 'g) topology_task option" where
  "topology_task_start R P to_addr config stuck_check initial_peers network now =
     map_option (\<lambda>tp. \<lparr>tt_topology = accept_gossips R P initial_peers tp, tt_network_stuck_check = stuck_check,
                       tt_last_update = now, tt_network = network\<rparr>)
       (p2p_topology_new R P to_addr config)"

section \<open>Runs\<close>

datatype ('g, 'nid, 'sel) topology_event =
    TopologyInput nat nat "('g, 'nid, 'sel) topology_msg"
  | GossipTick 'sel
  | QuarantineTick "nat \<Rightarrow> nat" nat

fun topology_step ::
  "('gc, 'rc, 'nid) report_libs \<Rightarrow> ('t, 'p, 'g, 'nid, 'key, 'bld, 'sel) poldercast_ops \<Rightarrow> ('g, 'nid, 'sel) topology_event
    \<Rightarrow> ('t, 'gc, 'rc, 'key, 'g) topology_task \<Rightarrow> ('t, 'gc, 'rc, 'key, 'g) topology_task option" where
  "topology_step R P (TopologyInput system_now now msg) task = Some (snd (handle_topology_msg R P system_now now msg task))"
| "topology_step R P (GossipTick any) task = Some (gossip_tick P any task)"
| "topology_step R P (QuarantineTick clk now) task = quarantine_tick R P clk now task"

fun topology_run ::
  "('gc, 'rc, 'nid) report_libs \<Rightarrow> ('t, 'p, 'g, 'nid, 'key, 'bld, 'sel) poldercast_ops \<Rightarrow> ('g, 'nid, 'sel) topology_event list
    \<Rightarrow> ('t, 'gc, 'rc, 'key, 'g) topology_task \<Rightarrow> ('t, 'gc, 'rc, 'key, 'g) topology_task option" where
  "topology_run R P [] task = Some task"
| "topology_run R P (e # es) task = (case topology_step R P e task of None \<Rightarrow> None | Some task \<Rightarrow> topology_run R P es task)"

text \<open>The readings of the monotonic clock in order, as far as reports and checks use it.\<close>

fun report_times :: "('g, 'nid, 'sel) topology_event list \<Rightarrow> nat list" where
  "report_times [] = []"
| "report_times (TopologyInput _ now (DemotePeer _) # es) = now # report_times es"
| "report_times (_ # es) = report_times es"

fun mono_clock :: "('g, 'nid, 'sel) topology_event \<Rightarrow> bool" where
  "mono_clock (QuarantineTick clk _) \<longleftrightarrow> mono clk"
| "mono_clock _ \<longleftrightarrow> True"

section \<open>What the task keeps\<close>

text \<open>No gossip that goes out carries the local address, and the records of reports are in order.\<close>

definition no_local_gossip :: "('t, 'p, 'g, 'nid, 'key, 'bld, 'sel) poldercast_ops \<Rightarrow> ('g \<times> 'g list) list \<Rightarrow> bool" where
  "no_local_gossip P sent \<longleftrightarrow> (\<forall>(_, gs)\<in>set sent. \<forall>g\<in>set gs. pc_gossip_address P g \<noteq> LOCAL_ADDR)"

definition topology_inv ::
  "('gc, 'rc, 'nid) report_libs \<Rightarrow> ('t, 'p, 'g, 'nid, 'key, 'bld, 'sel) poldercast_ops \<Rightarrow> nat
    \<Rightarrow> ('t, 'gc, 'rc, 'key, 'g) topology_task \<Rightarrow> bool" where
  "topology_inv R P now task \<longleftrightarrow>
     reports_ok R now (pt_quarantine (tt_topology task)) \<and> no_local_gossip P (mb_sent (tt_network task))"

lemma quarantine_simps [simp]:
  "pt_quarantine (snd (pt_view P sel tp)) = pt_quarantine tp"
  "pt_quarantine (snd (initiate_gossips P i tp)) = pt_quarantine tp"
  "pt_quarantine (set_available P tp) = pt_quarantine tp"
  "pt_quarantine (promote_node P i tp) = pt_quarantine tp"
  "pt_quarantine (update_gossip P tp) = pt_quarantine tp"
  by (simp_all add: pt_view_def initiate_gossips_def set_available_def promote_node_def update_gossip_def split_beta Let_def)

lemma lift_each_quarantine [simp]: "pt_quarantine (snd (lift_each P infos tp)) = pt_quarantine tp"
proof (induction infos arbitrary: tp)
  case (Cons info infos)
  then show ?case by (simp add: split_beta Let_def split: option.splits)
qed simp

lemma lift_each_no_dirty: "pc_dirty P (pt_topology tp) = [] \<Longrightarrow> lift_each P infos tp = ([], tp)"
  by (induction infos) simp_all

lemma initiate_gossips_not_local: "g \<in> set (fst (initiate_gossips P i tp)) \<Longrightarrow> pc_gossip_address P g \<noteq> LOCAL_ADDR"
  by (auto simp: initiate_gossips_def split_beta Let_def)

lemma send_gossip_inv:
  "topology_inv R P now task \<Longrightarrow> topology_inv R P now (send_gossip_messages P peers task)"
proof (induction peers arbitrary: task)
  case (Cons peer peers)
  let ?r = "initiate_gossips P (pc_gossip_id P peer) (tt_topology task)"
  have "no_local_gossip P (mb_sent (snd (mb_try_send (peer, fst ?r) (tt_network task))))"
    using Cons.prems initiate_gossips_not_local [of _ P "pc_gossip_id P peer" "tt_topology task"]
    by (auto simp: topology_inv_def no_local_gossip_def mb_try_send_sent)
  with Cons.prems have "topology_inv R P now
      (task\<lparr>tt_topology := snd ?r, tt_network := snd (mb_try_send (peer, fst ?r) (tt_network task))\<rparr>)"
    by (simp add: topology_inv_def)
  from Cons.IH [OF this] show ?case by (simp add: split_beta)
qed simp

context report_libraries
begin

lemma reports_ok_gossip: "reports_ok R now rr \<Longrightarrow> reports_ok R now (record_new_gossip R i rr)"
  by (simp add: reports_ok_def record_new_gossip_def grace.cap_pop)

lemma accept_gossips_ok:
  "reports_ok R now (pt_quarantine tp) \<Longrightarrow> reports_ok R now (pt_quarantine (accept_gossips R P gs tp))"
  by (induction gs arbitrary: tp) (simp_all add: split_beta Let_def reports_ok_gossip)

lemma report_node_ok:
  assumes "reports_ok R now (pt_quarantine tp)"
  shows "reports_ok R now (pt_quarantine (pt_report_node R P system_now now i tp))"
  using assms reports_ok_report [OF assms] by (auto simp: pt_report_node_def split_beta Let_def split: option.splits)

lemma topology_msg_inv:
  assumes "topology_inv R P t task" and "\<And>i. msg = DemotePeer i \<Longrightarrow> t \<le> now"
  shows "topology_inv R P (case msg of DemotePeer _ \<Rightarrow> now | _ \<Rightarrow> t) (snd (handle_topology_msg R P system_now now msg task))"
proof (cases msg)
  case (DemotePeer i)
  have "reports_ok R now (pt_quarantine (tt_topology task))"
    using assms reports_ok_later DemotePeer unfolding topology_inv_def by blast
  from report_node_ok [OF this] assms(1) DemotePeer show ?thesis by (simp add: topology_inv_def)
qed (use assms(1) in \<open>simp_all add: topology_inv_def accept_gossips_ok split_beta\<close>)

lemma quarantine_tick_inv:
  assumes "topology_inv R P t task" and "mono clk"
  shows "\<exists>task'. quarantine_tick R P clk now task = Some task' \<and> topology_inv R P t task'"
proof -
  let ?tp = "tt_topology task"
  have "reports_ok R t (pt_quarantine ?tp)" using assms(1) by (simp add: topology_inv_def)
  then obtain infos rr where rr: "records_lift_reports R clk (pt_quarantine ?tp) = Some (infos, rr)" "reports_ok R t rr"
    by (rule lift_reports_result [OF _ assms(2)])
  let ?r = "lift_each P infos (?tp\<lparr>pt_quarantine := rr\<rparr>)"
  have "topology_inv R P t (task\<lparr>tt_topology := snd ?r, tt_last_update := u\<rparr>)" "topology_inv R P t (task\<lparr>tt_topology := snd ?r\<rparr>)" for u
    using assms(1) rr(2) by (simp_all add: topology_inv_def)
  then show ?thesis
    by (simp add: quarantine_tick_def pt_lift_reports_def rr(1) split_beta Let_def send_gossip_inv)
qed

lemma topology_step_inv:
  assumes "topology_inv R P t task" and "mono_clock e" and "\<And>u. report_times [e] = [u] \<Longrightarrow> t \<le> u"
  shows "\<exists>task'. topology_step R P e task = Some task' \<and> topology_inv R P (hd (report_times [e] @ [t])) task'"
proof (cases e)
  case (TopologyInput system_now now msg)
  have "topology_inv R P (case msg of DemotePeer _ \<Rightarrow> now | _ \<Rightarrow> t) (snd (handle_topology_msg R P system_now now msg task))"
    using assms(1,3) TopologyInput by (intro topology_msg_inv) simp_all
  with TopologyInput show ?thesis by (cases msg) simp_all
next
  case (GossipTick any)
  have "topology_inv R P t (task\<lparr>tt_topology := snd (pt_view P any (update_gossip P (tt_topology task)))\<rparr>)"
    using assms(1) by (simp add: topology_inv_def)
  from send_gossip_inv [OF this] GossipTick show ?thesis by (simp add: gossip_tick_def split_beta)
next
  case (QuarantineTick clk now)
  then show ?thesis using quarantine_tick_inv [OF assms(1)] assms(2) by simp
qed

lemma report_times_Cons: "report_times (e # es) = report_times [e] @ report_times es"
  by (cases "e # es" rule: report_times.cases) simp_all

lemma topology_run_inv:
  assumes "topology_inv R P t task" and "list_all mono_clock es" and "sorted (t # report_times es)"
  shows "\<exists>task' u. topology_run R P es task = Some task' \<and> topology_inv R P u task'"
  using assms
proof (induction es arbitrary: t task)
  case (Cons e es)
  let ?t = "hd (report_times [e] @ [t])"
  have "length (report_times [e]) \<le> 1" by (cases "[e]" rule: report_times.cases) simp_all
  then have one: "report_times [e] = [] \<or> (\<exists>u. report_times [e] = [u])" by (cases "report_times [e]") auto
  then obtain task1 where s: "topology_step R P e task = Some task1" "topology_inv R P ?t task1"
    using topology_step_inv [OF Cons.prems(1), of e] Cons.prems(2,3) report_times_Cons [of e es] by auto
  moreover have "sorted (?t # report_times es)" using one Cons.prems(3) report_times_Cons [of e es] by auto
  ultimately show ?case using Cons.IH [OF s(2)] Cons.prems(2) by simp
qed auto

end

text \<open>The preferred peers of a view were announced at a preferred address, under the identity configured for it if any.\<close>

lemma preferred_known [simp]: "pl_known (preferred_populate a i l) = pl_known l"
  by (simp add: preferred_populate_def split: option.splits)

lemma preferred_current_trusted:
  "i \<in> pl_current_peers (fold (\<lambda>(a, i). preferred_populate a i) profiles l) \<Longrightarrow>
     i \<in> pl_current_peers l \<or> (\<exists>a. (a, i) \<in> set profiles \<and> (pl_known l a = Some None \<or> pl_known l a = Some (Some i)))"
proof (induction profiles arbitrary: l)
  case (Cons p profiles)
  obtain a j where p: "p = (a, j)" by fastforce
  from Cons.prems Cons.IH [of "preferred_populate a j l"] p
  have "i \<in> pl_current_peers (preferred_populate a j l)
      \<or> (\<exists>a. (a, i) \<in> set profiles \<and> (pl_known l a = Some None \<or> pl_known l a = Some (Some i)))" by simp
  then show ?case by (auto simp: p preferred_populate_def split: option.splits if_splits)
qed simp

text \<open>
  Safety of the topology task (C25). Started with a whitelist of valid addresses and room for reports, the task never
  panics, whatever messages and timers it handles and whatever the topology library does. At every moment the
  reports are ordered by age, no whitelisted node is reported, and no gossip that was sent out carries the address that
  stands for a node without a public address.
\<close>

theorem topology_run_safe:
  fixes es :: "('g, 'nid, 'sel) topology_event list"
  assumes "report_libraries R" and "None \<notin> to_addr ` set (qc_whitelist (tc_policy config))"
    and "qc_max_num_records (tc_policy config) \<noteq> Some 0"
    and "list_all mono_clock es" and "sorted (report_times es)"
  shows "\<exists>task0 task now.
      topology_task_start R P to_addr config stuck initial_peers (mailbox_new accepts) start = Some task0
    \<and> topology_run R P es task0 = Some task
    \<and> reports_ok R now (pt_quarantine (tt_topology task))
    \<and> no_local_gossip P (mb_sent (tt_network task))"
proof -
  let ?n = "case qc_max_num_records (tc_policy config) of Some n \<Rightarrow> n | None \<Rightarrow> DEFAULT_MAX_NUM_QUARANTINE_RECORDS"
  have "0 < ?n" using assms(3) by (cases "qc_max_num_records (tc_policy config)") (auto simp: DEFAULT_MAX_NUM_QUARANTINE_RECORDS_def)
  then obtain rr where rr: "reports_from_config R to_addr (tc_policy config) = Some rr" "reports_ok R 0 rr"
    using assms(2) report_libraries.reports_ok_new [OF assms(1), of ?n] by (simp add: reports_from_config_def Let_def)
  obtain tp0 where tp0: "p2p_topology_new R P to_addr config = Some tp0" "pt_quarantine tp0 = rr"
    by (simp add: p2p_topology_new_def rr(1) Let_def)
  then obtain task0 where t: "topology_task_start R P to_addr config stuck initial_peers (mailbox_new accepts) start = Some task0"
      "topology_inv R P 0 task0"
    using report_libraries.accept_gossips_ok [OF assms(1), of 0 tp0 P initial_peers] rr(2) tp0
    by (simp add: topology_task_start_def topology_inv_def no_local_gossip_def mailbox_new_def)
  from report_libraries.topology_run_inv [OF assms(1) t(2) assms(4)] assms(5) t(1) show ?thesis
    by (auto simp: topology_inv_def)
qed

text \<open>
  Soft reports are not followed up. A node whose report is lifted is contacted only if it is in the dirty pool. When
  the pool is empty, expired reports are lifted and nobody is contacted.
\<close>

theorem soft_reports_not_contacted:
  assumes "pc_dirty P (pt_topology tp) = []" and "pt_lift_reports R P clk tp = Some (peers, tp')"
  shows "peers = [] \<and> pt_topology tp' = pt_topology tp"
  using assms by (auto simp: pt_lift_reports_def lift_each_no_dirty)

section \<open>An example topology\<close>

text \<open>A topology with one pool; demoted peers are forgotten.\<close>

type_synonym example_gossip = "nat \<times> socket_addr"

definition example_poldercast :: "(example_gossip list, example_gossip, example_gossip, nat, unit, unit, unit) poldercast_ops" where
  "example_poldercast =
     \<lparr>pc_new = (\<lambda>addr _ _. []), pc_subscribe_topic = (\<lambda>_ t. t), pc_view = (\<lambda>_ t. (t, t)),
      pc_self_profile = (\<lambda>_. (0, LOCAL_ADDR)), pc_gossips_for = (\<lambda>_ t. (t, t)),
      pc_add_peer = (\<lambda>p t. (True, p # t)), pc_promote_peer = (\<lambda>_ t. t), pc_remove_peer = (\<lambda>i t. AList.delete i t),
      pc_get = (\<lambda>t i. map_option (\<lambda>a. (i, a)) (map_of t i)), pc_pool = (\<lambda>t. map (\<lambda>p. (fst p, p)) t),
      pc_trusted = (\<lambda>_. []), pc_dirty = (\<lambda>_. []), pc_update_profile_subscriptions = (\<lambda>_ t. t),
      pc_gossip = id, pc_from_gossip = id, pc_profile_id = fst, pc_gossip_id = fst, pc_gossip_address = snd,
      pc_gossip_time = (\<lambda>_. 0), pc_gossip_subscriptions = (\<lambda>_. [])\<rparr>"

definition example_topology_config :: "(socket_addr, unit, unit) topology_config" where
  "example_topology_config =
     \<lparr>tc_public_address = None, tc_node_key = (), tc_policy = quarantine_config_default, tc_layers = ()\<rparr>"

definition example_events :: "(example_gossip, nat, unit) topology_event list" where
  "example_events =
     [TopologyInput 5 5 (AcceptGossip [(7, \<lparr>sa_ip = V4 (IPv4 10 0 0 1), sa_port = 80\<rparr>)]), GossipTick (),
      TopologyInput 6 6 (DemotePeer 7), QuarantineTick (\<lambda>i. 1000000 + i) 1000000]"

theorem topology_run_safe_witness:
  "\<exists>task0 task now.
      topology_task_start example_report_libs example_poldercast Some example_topology_config 100 [] (mailbox_new (\<lambda>_. True)) 0 = Some task0
    \<and> topology_run example_report_libs example_poldercast example_events task0 = Some task
    \<and> reports_ok example_report_libs now (pt_quarantine (tt_topology task))
    \<and> no_local_gossip example_poldercast (mb_sent (tt_network task))"
  by (rule topology_run_safe [OF example_reports.report_libraries_axioms])
    (simp_all add: example_topology_config_def quarantine_config_default_def DEFAULT_MAX_NUM_QUARANTINE_RECORDS_def
      example_events_def mono_def)

text \<open>The record of the example expires, and nobody is contacted.\<close>

theorem soft_reports_not_contacted_witness:
  "\<exists>tp'. pt_lift_reports example_report_libs example_poldercast (\<lambda>i. 10 + i)
       \<lparr>pt_topology = [], pt_quarantine = example_records, pt_key = (), pt_peer_available_cnt = 0, pt_peer_quarantined_cnt = 0\<rparr> = Some ([], tp')"
proof -
  let ?tp = "\<lparr>pt_topology = [], pt_quarantine = example_records, pt_key = (), pt_peer_available_cnt = 0, pt_peer_quarantined_cnt = 0\<rparr>"
  have "mono (\<lambda>i. 10 + i :: nat)" by (simp add: mono_def)
  then obtain peers tp' where p: "pt_lift_reports example_report_libs example_poldercast (\<lambda>i. 10 + i) ?tp = Some (peers, tp')"
    by (rule example_reports.lift_reports_result [OF example_records_ok]) (fastforce simp: pt_lift_reports_def)
  have "pc_dirty example_poldercast (pt_topology ?tp) = []" by (simp add: example_poldercast_def)
  from soft_reports_not_contacted [OF this p] p show ?thesis by blast
qed

end
