(* ===== verification/Leadership_Schedule.thy ===== *)
theory Leadership_Schedule
  imports Node_Chain Message_Box
begin

text \<open>
  The schedule of a leader and the log of its events: \<^verbatim>\<open>jormungandr/src/secure/enclave.rs\<close>,
  \<^verbatim>\<open>jormungandr/src/leadership/enclave.rs\<close>, \<^verbatim>\<open>jormungandr/src/leadership/logs.rs\<close> and
  \<^verbatim>\<open>jormungandr-lib/src/interfaces/leadership_log.rs\<close>.

  Leader election, the time frame, block building and signing are libraries: their operations are the record
  \<open>leader_ops\<close>. Readings of the clock are arguments; a failed debug assertion of the log is a panic.
\<close>

section \<open>Leaders and the libraries\<close>

record ('bk, 'gk) leader =
  bft_leader :: "'bk option"
  genesis_leader :: "'gk option"

datatype ('bi, 'gp) leader_output = NoOutput | BftOutput 'bi | GenesisPraosOutput 'gp

record ('bi, 'gp) leader_event =
  le_date :: block_date
  le_output :: "('bi, 'gp) leader_output"

text \<open>
  A time is in the unit of \<open>time_frame_slot_time\<close>. The builders take the contents, the parent, the chain length, the date
  and, except for an unsigned block, the key and the consensus data. \<open>ledger_begin_block\<close> and \<open>ledger_finish\<close> open and close
  the application of a block, whose state in between has type \<open>'ap\<close>.
\<close>

record ('hid, 'x, 'f, 'q, 'lg, 'ld, 'e, 'tf, 'rw, 'mv, 'bk, 'gk, 'bi, 'gp, 'ap) leader_ops =
  lo_node :: "('hid, 'x, 'f, 'q, 'lg, 'ld, 'e, 'tf, 'rw, 'mv) node_ops"
  era_slots_per_epoch :: "'ld \<Rightarrow> u32"
  era_from_slot :: "'ld \<Rightarrow> u64 \<Rightarrow> block_date option"
  time_frame_slot_at :: "'tf \<Rightarrow> nat \<Rightarrow> u64 option"
  date_at_slot :: "'ld \<Rightarrow> u32 \<Rightarrow> block_date"
  is_leader_for_date :: "'ld \<Rightarrow> ('bk, 'gk) leader \<Rightarrow> block_date \<Rightarrow> ('bi, 'gp) leader_output"
  ledger_begin_block :: "'lg \<Rightarrow> u32 \<Rightarrow> block_date \<Rightarrow> ('e, 'ap) result"
  ledger_finish :: "'ap \<Rightarrow> ('hid, 'x) header \<Rightarrow> 'lg"
  build_unsigned :: "('f \<times> 'q config_param list option) list \<Rightarrow> 'hid \<Rightarrow> u32 \<Rightarrow> block_date \<Rightarrow> ('hid, 'x, 'f, 'q) block"
  build_bft :: "'bk \<Rightarrow> 'bi \<Rightarrow> ('f \<times> 'q config_param list option) list \<Rightarrow> 'hid \<Rightarrow> u32 \<Rightarrow> block_date \<Rightarrow> ('hid, 'x, 'f, 'q) block"
  build_genesis_praos ::
    "'gk \<Rightarrow> 'gp \<Rightarrow> ('f \<times> 'q config_param list option) list \<Rightarrow> 'hid \<Rightarrow> u32 \<Rightarrow> block_date \<Rightarrow> ('hid, 'x, 'f, 'q) block"

section \<open>The schedule\<close>

record ('ld, 'bk, 'gk, 'bi, 'gp) schedule =
  sc_enclave :: "('bk, 'gk) leader option"
  sc_leadership :: 'ld
  sc_current_slot :: u32
  sc_stop_at_slot :: u32
  sc_current_slot_data :: "('bi, 'gp) leader_event list"

definition schedule_new :: "('bk, 'gk) leader option \<Rightarrow> 'ld \<Rightarrow> u32 \<Rightarrow> u32 \<Rightarrow> ('ld, 'bk, 'gk, 'bi, 'gp) schedule" where
  "schedule_new enclave leadership slot_start nb_slots =
     \<lparr>sc_enclave = enclave, sc_leadership = leadership, sc_current_slot = slot_start, sc_stop_at_slot = slot_start + nb_slots,
      sc_current_slot_data = []\<rparr>"

lemma u32_step: "unat (c + 1) = unat c + 1" if "c < (s :: u32)"
proof -
  have "unat c + 1 < 2 ^ 32" using that unat_u32_less [of s] by (simp add: word_less_nat_alt)
  then show ?thesis by (simp add: unat_word_ariths)
qed

text \<open>The loop over the slots until one has an event.\<close>

function fill_slots ::
  "('hid, 'x, 'f, 'q, 'lg, 'ld, 'e, 'tf, 'rw, 'mv, 'bk, 'gk, 'bi, 'gp, 'ap) leader_ops \<Rightarrow> ('bk, 'gk) leader \<Rightarrow> 'ld \<Rightarrow> u32 \<Rightarrow> u32
    \<Rightarrow> ('bi, 'gp) leader_event list \<times> u32" where
  "fill_slots W leader leadership current stop =
     (if current < stop then
        (let date = date_at_slot W leadership current
         in case is_leader_for_date W leadership leader date of
              NoOutput \<Rightarrow> fill_slots W leader leadership (current + 1) stop
            | out \<Rightarrow> ([\<lparr>le_date = date, le_output = out\<rparr>], current + 1))
      else ([], current))"
  by pat_completeness auto

termination
  by (relation "measure (\<lambda>(W, leader, leadership, current, stop). unat stop - unat current)")
    (auto simp: u32_step word_less_nat_alt)

declare fill_slots.simps [simp del]

definition schedule_fill ::
  "('hid, 'x, 'f, 'q, 'lg, 'ld, 'e, 'tf, 'rw, 'mv, 'bk, 'gk, 'bi, 'gp, 'ap) leader_ops
    \<Rightarrow> ('ld, 'bk, 'gk, 'bi, 'gp) schedule \<Rightarrow> ('ld, 'bk, 'gk, 'bi, 'gp) schedule" where
  "schedule_fill W sc =
     (case sc_enclave sc of
        None \<Rightarrow> sc
      | Some leader \<Rightarrow>
          if sc_current_slot_data sc \<noteq> [] then sc
          else (let (events, current) = fill_slots W leader (sc_leadership sc) (sc_current_slot sc) (sc_stop_at_slot sc)
                in sc\<lparr>sc_current_slot_data := events, sc_current_slot := current\<rparr>))"

definition schedule_next_event ::
  "('hid, 'x, 'f, 'q, 'lg, 'ld, 'e, 'tf, 'rw, 'mv, 'bk, 'gk, 'bi, 'gp, 'ap) leader_ops
    \<Rightarrow> ('ld, 'bk, 'gk, 'bi, 'gp) schedule \<Rightarrow> ('bi, 'gp) leader_event option \<times> ('ld, 'bk, 'gk, 'bi, 'gp) schedule" where
  "schedule_next_event W sc =
     (let sc = schedule_fill W sc; events = sc_current_slot_data sc
      in if events = [] then (None, sc) else (Some (last events), sc\<lparr>sc_current_slot_data := butlast events\<rparr>))"

definition schedule_peek ::
  "('hid, 'x, 'f, 'q, 'lg, 'ld, 'e, 'tf, 'rw, 'mv, 'bk, 'gk, 'bi, 'gp, 'ap) leader_ops
    \<Rightarrow> ('ld, 'bk, 'gk, 'bi, 'gp) schedule \<Rightarrow> ('bi, 'gp) leader_event option \<times> ('ld, 'bk, 'gk, 'bi, 'gp) schedule" where
  "schedule_peek W sc =
     (let sc = schedule_fill W sc; events = sc_current_slot_data sc
      in (if events = [] then None else Some (last events), sc))"

definition schedule_epoch ::
  "('hid, 'x, 'f, 'q, 'lg, 'ld, 'e, 'tf, 'rw, 'mv, 'bk, 'gk, 'bi, 'gp, 'ap) leader_ops
    \<Rightarrow> ('ld, 'bk, 'gk, 'bi, 'gp) schedule \<Rightarrow> u32" where
  "schedule_epoch W sc = leadership_epoch (n_chain (lo_node W)) (sc_leadership sc)"

section \<open>The enclave\<close>

definition create_header_bft ::
  "('bk, 'gk) leader option \<Rightarrow> ('bk \<Rightarrow> 'b) \<Rightarrow> 'b option" where
  "create_header_bft enclave finalize = Option.bind enclave (\<lambda>leader. map_option finalize (bft_leader leader))"

definition create_header_genesis_praos ::
  "('bk, 'gk) leader option \<Rightarrow> ('gk \<Rightarrow> 'b) \<Rightarrow> 'b option" where
  "create_header_genesis_praos enclave finalize = Option.bind enclave (\<lambda>leader. map_option finalize (genesis_leader leader))"

datatype enclave_error = EmptyEnclave

definition enclave_error_display :: "enclave_error \<Rightarrow> string" where
  "enclave_error_display e = (case e of EmptyEnclave \<Rightarrow> ''Enclave does not have a leader set'')"

definition query_header_bft_finalize :: "('bk, 'gk) leader option \<Rightarrow> ('bk \<Rightarrow> 'b) \<Rightarrow> (enclave_error, 'b) result" where
  "query_header_bft_finalize enclave finalize =
     (case create_header_bft enclave finalize of Some b \<Rightarrow> Inr b | None \<Rightarrow> Inl EmptyEnclave)"

definition query_header_genesis_praos_finalize :: "('bk, 'gk) leader option \<Rightarrow> ('gk \<Rightarrow> 'b) \<Rightarrow> (enclave_error, 'b) result" where
  "query_header_genesis_praos_finalize enclave finalize =
     (case create_header_genesis_praos enclave finalize of Some b \<Rightarrow> Inr b | None \<Rightarrow> Inl EmptyEnclave)"

definition query_schedules ::
  "('bk, 'gk) leader option \<Rightarrow> 'ld \<Rightarrow> u32 \<Rightarrow> u32 \<Rightarrow> (enclave_error, ('ld, 'bk, 'gk, 'bi, 'gp) schedule) result" where
  "query_schedules enclave leadership slot_start nb_slots = Inr (schedule_new enclave leadership slot_start nb_slots)"

section \<open>The log of leadership events\<close>

datatype 'hid leadership_log_status =
    LogPending
  | LogRejected string
  | LogBlock (log_block: 'hid) (log_parent: 'hid) (log_chain_length: u32)

record 'hid leadership_log =
  ll_created_at_time :: nat
  ll_scheduled_at_time :: nat
  ll_scheduled_at_date :: block_date
  ll_wake_at_time :: "nat option"
  ll_finished_at_time :: "nat option"
  ll_status :: "'hid leadership_log_status"

definition leadership_log_new :: "nat \<Rightarrow> block_date \<Rightarrow> nat \<Rightarrow> 'hid leadership_log" where
  "leadership_log_new now date time =
     \<lparr>ll_created_at_time = now, ll_scheduled_at_time = time, ll_scheduled_at_date = date, ll_wake_at_time = None,
      ll_finished_at_time = None, ll_status = LogPending\<rparr>"

definition leadership_log_id :: "'hid leadership_log \<Rightarrow> block_date" where
  "leadership_log_id log = ll_scheduled_at_date log"

definition lead_logs_insert :: "('lc, block_date, 'hid leadership_log) lru_ops \<Rightarrow> 'hid leadership_log \<Rightarrow> 'lc \<Rightarrow> block_date \<times> 'lc" where
  "lead_logs_insert L log c = (leadership_log_id log, lru_put L c (leadership_log_id log) log)"

definition lead_logs_mark_wake :: "('lc, block_date, 'hid leadership_log) lru_ops \<Rightarrow> nat \<Rightarrow> block_date \<Rightarrow> 'lc \<Rightarrow> 'lc option" where
  "lead_logs_mark_wake L now i c =
     (let (found, c) = lru_get_mut L c i (\<lambda>log. log\<lparr>ll_wake_at_time := Some now\<rparr>)
      in case found of
           None \<Rightarrow> Some c
         | Some log \<Rightarrow> if ll_wake_at_time log = None then Some c else None)"

definition lead_logs_set_status ::
  "('lc, block_date, 'hid leadership_log) lru_ops \<Rightarrow> 'hid leadership_log_status \<Rightarrow> block_date \<Rightarrow> 'lc \<Rightarrow> 'lc" where
  "lead_logs_set_status L status i c = snd (lru_get_mut L c i (\<lambda>log. log\<lparr>ll_status := status\<rparr>))"

definition lead_logs_mark_finished :: "('lc, block_date, 'hid leadership_log) lru_ops \<Rightarrow> nat \<Rightarrow> block_date \<Rightarrow> 'lc \<Rightarrow> 'lc option" where
  "lead_logs_mark_finished L now i c =
     (let (found, c) = lru_get_mut L c i (\<lambda>log. log\<lparr>ll_finished_at_time := Some now\<rparr>)
      in case found of
           None \<Rightarrow> Some c
         | Some log \<Rightarrow> if ll_finished_at_time log = None then Some c else None)"

definition lead_logs :: "('lc, block_date, 'hid leadership_log) lru_ops \<Rightarrow> 'lc \<Rightarrow> 'hid leadership_log list" where
  "lead_logs L c = map snd (lru_iter L c)"

section \<open>The events of a schedule\<close>

text \<open>The reference: the slots in order, with those in which the leader is not elected left out.\<close>

definition slot_event ::
  "('hid, 'x, 'f, 'q, 'lg, 'ld, 'e, 'tf, 'rw, 'mv, 'bk, 'gk, 'bi, 'gp, 'ap) leader_ops \<Rightarrow> ('bk, 'gk) leader \<Rightarrow> 'ld \<Rightarrow> nat
    \<Rightarrow> ('bi, 'gp) leader_event option" where
  "slot_event W leader leadership slot =
     (let date = date_at_slot W leadership (of_nat slot); out = is_leader_for_date W leadership leader date
      in if out = NoOutput then None else Some \<lparr>le_date = date, le_output = out\<rparr>)"

definition elected_slots ::
  "('hid, 'x, 'f, 'q, 'lg, 'ld, 'e, 'tf, 'rw, 'mv, 'bk, 'gk, 'bi, 'gp, 'ap) leader_ops \<Rightarrow> ('bk, 'gk) leader \<Rightarrow> 'ld \<Rightarrow> nat \<Rightarrow> nat
    \<Rightarrow> ('bi, 'gp) leader_event list" where
  "elected_slots W leader leadership start stop = List.map_filter (slot_event W leader leadership) [start..<stop]"

text \<open>The events a schedule still holds: what repeated calls of \<^verbatim>\<open>next_event\<close> return, at most \<open>n\<close> of them.\<close>

fun remaining_events ::
  "('hid, 'x, 'f, 'q, 'lg, 'ld, 'e, 'tf, 'rw, 'mv, 'bk, 'gk, 'bi, 'gp, 'ap) leader_ops \<Rightarrow> nat
    \<Rightarrow> ('ld, 'bk, 'gk, 'bi, 'gp) schedule \<Rightarrow> ('bi, 'gp) leader_event list" where
  "remaining_events W 0 sc = []"
| "remaining_events W (Suc n) sc =
     (case schedule_next_event W sc of
        (None, _) \<Rightarrow> []
      | (Some e, sc) \<Rightarrow> e # remaining_events W n sc)"

lemma elected_step: "a < b \<Longrightarrow> elected_slots W leader ld a b =
    (case slot_event W leader ld a of None \<Rightarrow> [] | Some e \<Rightarrow> [e]) @ elected_slots W leader ld (Suc a) b"
  by (simp add: elected_slots_def upt_conv_Cons List.map_filter_simps(1) split: option.splits)

lemma fill_slots_elected:
  "fill_slots W leader ld current stop = (evs, current') \<Longrightarrow>
     elected_slots W leader ld (unat current) (unat stop) = evs @ elected_slots W leader ld (unat current') (unat stop)
   \<and> length evs \<le> 1 \<and> unat current \<le> unat current' \<and> (evs = [] \<longrightarrow> unat stop \<le> unat current') \<and> (evs \<noteq> [] \<longrightarrow> unat current < unat current' \<and> unat current < unat stop)"
proof (induction W leader ld current stop rule: fill_slots.induct)
  case (1 W leader ld current stop)
  show ?case
  proof (cases "current < stop")
    case False
    with "1.prems" show ?thesis by (simp add: fill_slots.simps word_less_nat_alt)
  next
    case True
    let ?date = "date_at_slot W ld current"
    let ?out = "is_leader_for_date W ld leader ?date"
    have step: "unat (current + 1) = Suc (unat current)" using u32_step [OF True] by simp
    have split: "elected_slots W leader ld (unat current) (unat stop) =
        (if ?out = NoOutput then [] else [\<lparr>le_date = ?date, le_output = ?out\<rparr>]) @ elected_slots W leader ld (unat (current + 1)) (unat stop)"
      using True by (subst elected_step) (simp_all add: word_less_nat_alt step slot_event_def Let_def)
    show ?thesis
    proof (cases "?out = NoOutput")
      case no: True
      with True "1.prems" have "fill_slots W leader ld (current + 1) stop = (evs, current')"
        by (subst (asm) fill_slots.simps) simp
      from "1.IH" [OF True refl no this] split no step True show ?thesis by (auto simp: word_less_nat_alt)
    next
      case False
      then have "fill_slots W leader ld current stop = ([\<lparr>le_date = ?date, le_output = ?out\<rparr>], current + 1)"
        using True by (subst fill_slots.simps) (simp add: Let_def split: leader_output.splits)
      with "1.prems" split False step True show ?thesis by (auto simp: word_less_nat_alt)
    qed
  qed
qed

lemma remaining_events_elected:
  assumes "sc_enclave sc = Some leader" and "sc_current_slot_data sc = []"
    and "unat (sc_stop_at_slot sc) - unat (sc_current_slot sc) < n"
  shows "remaining_events W n sc =
    elected_slots W leader (sc_leadership sc) (unat (sc_current_slot sc)) (unat (sc_stop_at_slot sc))"
  using assms
proof (induction n arbitrary: sc)
  case (Suc n)
  obtain evs current where f: "fill_slots W leader (sc_leadership sc) (sc_current_slot sc) (sc_stop_at_slot sc) = (evs, current)"
    by fastforce
  note E = fill_slots_elected [OF f]
  have fill: "schedule_fill W sc = sc\<lparr>sc_current_slot_data := evs, sc_current_slot := current\<rparr>"
    using Suc.prems f by (simp add: schedule_fill_def)
  show ?case
  proof (cases evs)
    case Nil
    with E have "elected_slots W leader (sc_leadership sc) (unat (sc_current_slot sc)) (unat (sc_stop_at_slot sc)) = []"
      by (simp add: elected_slots_def List.map_filter_def)
    with Nil fill show ?thesis by (simp add: schedule_next_event_def)
  next
    case (Cons e es)
    with E have "es = []" "unat (sc_stop_at_slot sc) - unat current < n" using Suc.prems(3) by auto
    moreover have "remaining_events W n (sc\<lparr>sc_current_slot := current, sc_current_slot_data := []\<rparr>) =
        elected_slots W leader (sc_leadership sc) (unat current) (unat (sc_stop_at_slot sc))"
      using Suc.IH [of "sc\<lparr>sc_current_slot := current, sc_current_slot_data := []\<rparr>"] Suc.prems(1) \<open>unat (sc_stop_at_slot sc) - unat current < n\<close>
      by simp
    ultimately show ?thesis using Cons E fill by (simp add: schedule_next_event_def)
  qed
qed simp

text \<open>Looking at the next event does not change what the schedule holds.\<close>

lemma schedule_fill_idem: "schedule_fill W (schedule_fill W sc) = schedule_fill W sc"
proof (cases "sc_enclave sc")
  case (Some leader)
  show ?thesis
  proof (cases "sc_current_slot_data sc")
    case Nil
    obtain evs current where f: "fill_slots W leader (sc_leadership sc) (sc_current_slot sc) (sc_stop_at_slot sc) = (evs, current)"
      by fastforce
    show ?thesis
    proof (cases evs)
      case e: Nil
      with fill_slots_elected [OF f] have "fill_slots W leader (sc_leadership sc) current (sc_stop_at_slot sc) = ([], current)"
        by (subst fill_slots.simps) (simp add: word_less_nat_alt)
      with Some Nil e f show ?thesis by (simp add: schedule_fill_def)
    qed (use Some Nil f in \<open>simp add: schedule_fill_def\<close>)
  qed (use Some in \<open>simp add: schedule_fill_def\<close>)
qed (simp add: schedule_fill_def)

lemma peek_then_next: "fst (schedule_next_event W (snd (schedule_peek W sc))) = fst (schedule_peek W sc)"
  "snd (schedule_next_event W (snd (schedule_peek W sc))) = snd (schedule_next_event W sc)"
  by (simp_all add: schedule_next_event_def schedule_peek_def Let_def schedule_fill_idem)

text \<open>
  The schedule is the election (C17). Asking a new schedule for events until there are none left gives, in the order of the
  slots, exactly the slots of its range in which the leader is elected. It is enough to ask once per slot and once
  more.
\<close>

theorem schedule_lists_elected_slots:
  assumes "unat slot_start + unat nb_slots < 2 ^ 32" and "unat nb_slots < n"
  shows "remaining_events W n (schedule_new (Some leader) leadership slot_start nb_slots) =
           elected_slots W leader leadership (unat slot_start) (unat slot_start + unat nb_slots)"
proof -
  have "unat (slot_start + nb_slots) = unat slot_start + unat nb_slots" using assms(1) by (simp add: unat_word_ariths)
  then show ?thesis
    using remaining_events_elected [of "schedule_new (Some leader) leadership slot_start nb_slots" leader n W] assms(2)
    by (simp add: schedule_new_def)
qed

section \<open>An example leader\<close>

text \<open>Epochs of ten slots of one unit of time each; the leader is elected in the even slots.\<close>

definition example_leader_block :: "(unit \<times> unit config_param list option) list \<Rightarrow> nat \<Rightarrow> u32 \<Rightarrow> block_date \<Rightarrow> (nat, unit, unit, unit) block" where
  "example_leader_block cs parent n d =
     \<lparr>b_header = \<lparr>h_hash = Suc parent, h_block_parent_hash = parent, h_block_date = d, h_chain_length = n, h_content = ()\<rparr>,
      b_contents = cs\<rparr>"

definition example_leader_ops ::
  "(nat, unit, unit, unit, nat, unit, unit, unit, unit, (nat \<times> nat) list, unit, unit, unit, unit, nat) leader_ops" where
  "example_leader_ops =
     \<lparr>lo_node = example_node_ops\<lparr>n_chain := example_chain_ops\<lparr>leadership_era_slot := \<lambda>_ d. ucast (epoch d) * 10 + ucast (slot_id d)\<rparr>\<rparr>,
      era_slots_per_epoch = (\<lambda>_. 10), era_from_slot = (\<lambda>_ s. Some (BlockDate (ucast (s div 10)) (ucast (s mod 10)))),
      time_frame_slot_at = (\<lambda>_ t. Some (of_nat t)), date_at_slot = (\<lambda>_ s. BlockDate 0 s),
      is_leader_for_date = (\<lambda>_ _ d. if even (unat (slot_id d)) then BftOutput () else NoOutput),
      ledger_begin_block = (\<lambda>lg _ _. Inr lg), ledger_finish = (\<lambda>ap _. Suc ap), build_unsigned = example_leader_block,
      build_bft = (\<lambda>_ _. example_leader_block), build_genesis_praos = (\<lambda>_ _. example_leader_block)\<rparr>"

definition example_leader :: "(unit, unit) leader" where
  "example_leader = \<lparr>bft_leader = Some (), genesis_leader = None\<rparr>"

lemma schedule_lists_elected_slots_witness:
  "remaining_events example_leader_ops 4 (schedule_new (Some example_leader) () 1 3) = [\<lparr>le_date = BlockDate 0 2, le_output = BftOutput ()\<rparr>]"
proof -
  have "[1..<4] = [1, 2, 3 :: nat]" by (simp add: upt_rec)
  then have "elected_slots example_leader_ops example_leader () 1 4 = [\<lparr>le_date = BlockDate 0 2, le_output = BftOutput ()\<rparr>]"
    by (simp add: elected_slots_def slot_event_def example_leader_ops_def)
  with schedule_lists_elected_slots [of 1 3 4 example_leader_ops example_leader "()"] show ?thesis by simp
qed

end
