(* ===== verification/Leadership_Module.thy ===== *)
theory Leadership_Module
  imports Leadership_Schedule
begin

text \<open>
  The leadership task, \<^verbatim>\<open>jormungandr/src/leadership/process.rs\<close>: it alternates between an action (run
  the next event of the schedule, or make the schedule of the epoch) and waiting for the time of the next event.

  The operations are actions on the record \<open>lead_module\<close>; \<open>None\<close> is a panic. \<open>clk i\<close> is the
  \<open>i\<close>-th reading of the system clock in an action. The answer of the fragment pool, and the moments at which the
  two deadlines of an event pass, are part of the environment \<open>event_env\<close>.
\<close>

section \<open>State\<close>

datatype ('e, 'ie) leadership_error =
    TooEarlyForTimeFrame nat
  | CannotScheduleWithEnclave enclave_error
  | FragmentSelectionFailed 'ie
  | CannotConnectToFragmentPool
  | CannotSendLeadershipBlock
  | CannotUpdateLogs
  | LeadLedgerError 'e

record ('lc, 'hid, 'x, 'f, 'q, 'lg, 'ld, 'tf, 'rw, 'bk, 'gk, 'bi, 'gp, 'ap) lead_module =
  lm_schedule :: "('ld, 'bk, 'gk, 'bi, 'gp) schedule option"
  lm_logs :: 'lc
  lm_tip_ref :: "('hid, 'x, 'lg, 'ld, 'tf, 'rw) noderef"
  lm_pool :: "'ap mailbox"
  lm_enclave :: "('bk, 'gk) leader option"
  lm_block_message ::
    "(('hid, 'x, 'f, 'q) block, 'lg, ('lg, 'ld, 'rw, 'tf, ('hid, 'x, 'lg, 'ld, 'tf, 'rw) noderef) epoch_leadership) leadership_block mailbox"
  lm_rewards_report_all :: bool
  lm_block_hard_deadline :: u32

text \<open>When a deadline of the event passes: not before the block is made, while fragments are selected, or later.\<close>

datatype deadline_moment = NotReached | DuringSelection | AfterSelection

record ('f, 'q, 'ap, 'ie) event_env =
  ev_pool_reply :: "'ap \<Rightarrow> ('ie, ('f \<times> 'q config_param list option) list \<times> 'ap) result"
  ev_soft_deadline :: deadline_moment
  ev_hard_deadline :: deadline_moment

definition lead_module_new ::
  "'lc \<Rightarrow> ('hid, 'x, 'lg, 'ld, 'tf, 'rw) noderef \<Rightarrow> 'ap mailbox \<Rightarrow> ('bk, 'gk) leader option
    \<Rightarrow> (('hid, 'x, 'f, 'q) block, 'lg, ('lg, 'ld, 'rw, 'tf, ('hid, 'x, 'lg, 'ld, 'tf, 'rw) noderef) epoch_leadership) leadership_block mailbox
    \<Rightarrow> bool \<Rightarrow> u32 \<Rightarrow> ('lc, 'hid, 'x, 'f, 'q, 'lg, 'ld, 'tf, 'rw, 'bk, 'gk, 'bi, 'gp, 'ap) lead_module" where
  "lead_module_new logs tip pool enclave block_message rewards_report_all block_hard_deadline =
     \<lparr>lm_schedule = None, lm_logs = logs, lm_tip_ref = tip, lm_pool = pool, lm_enclave = enclave,
      lm_block_message = block_message, lm_rewards_report_all = rewards_report_all,
      lm_block_hard_deadline = block_hard_deadline\<rparr>"

section \<open>Time\<close>

definition current_slot ::
  "('hid, 'x, 'f, 'q, 'lg, 'ld, 'e, 'tf, 'rw, 'mv, 'bk, 'gk, 'bi, 'gp, 'ap) leader_ops \<Rightarrow> nat
    \<Rightarrow> ('hid, 'x, 'lg, 'ld, 'tf, 'rw) noderef \<Rightarrow> (('e, 'ie) leadership_error, u64) result" where
  "current_slot W now tip =
     (case time_frame_slot_at W (ref_time_frame tip) now of
        Some slot \<Rightarrow> Inr slot
      | None \<Rightarrow> Inl (TooEarlyForTimeFrame now))"

text \<open>\<open>None\<close> is the unreachable branch: the slot lies before the era.\<close>

definition current_slot_position ::
  "('hid, 'x, 'f, 'q, 'lg, 'ld, 'e, 'tf, 'rw, 'mv, 'bk, 'gk, 'bi, 'gp, 'ap) leader_ops \<Rightarrow> nat
    \<Rightarrow> ('hid, 'x, 'lg, 'ld, 'tf, 'rw) noderef \<Rightarrow> (('e, 'ie) leadership_error, block_date) result option" where
  "current_slot_position W now tip =
     (case current_slot W now tip of
        Inl e \<Rightarrow> Some (Inl e)
      | Inr slot \<Rightarrow> map_option Inr (era_from_slot W (ref_leadership tip) slot))"

definition slot_time ::
  "('hid, 'x, 'f, 'q, 'lg, 'ld, 'e, 'tf, 'rw, 'mv, 'bk, 'gk, 'bi, 'gp, 'ap) leader_ops
    \<Rightarrow> ('hid, 'x, 'lg, 'ld, 'tf, 'rw) noderef \<Rightarrow> u32 \<Rightarrow> u32 \<Rightarrow> nat option" where
  "slot_time W tip ep slot =
     time_frame_slot_time (n_chain (lo_node W)) (ref_time_frame tip)
       (leadership_era_slot (n_chain (lo_node W)) (ref_leadership tip) (BlockDate ep slot))"

definition epoch_time ::
  "('hid, 'x, 'f, 'q, 'lg, 'ld, 'e, 'tf, 'rw, 'mv, 'bk, 'gk, 'bi, 'gp, 'ap) leader_ops
    \<Rightarrow> ('hid, 'x, 'lg, 'ld, 'tf, 'rw) noderef \<Rightarrow> u32 \<Rightarrow> nat option" where
  "epoch_time W tip ep = slot_time W tip ep 0"

text \<open>The instant an epoch starts; \<open>None\<close> when it started in the past.\<close>

definition epoch_instant ::
  "('hid, 'x, 'f, 'q, 'lg, 'ld, 'e, 'tf, 'rw, 'mv, 'bk, 'gk, 'bi, 'gp, 'ap) leader_ops \<Rightarrow> nat
    \<Rightarrow> ('hid, 'x, 'lg, 'ld, 'tf, 'rw) noderef \<Rightarrow> u32 \<Rightarrow> nat option" where
  "epoch_instant W now tip ep =
     (case epoch_time W tip ep of None \<Rightarrow> None | Some t \<Rightarrow> if now \<le> t then Some t else None)"

definition event_slot_time ::
  "('hid, 'x, 'f, 'q, 'lg, 'ld, 'e, 'tf, 'rw, 'mv, 'bk, 'gk, 'bi, 'gp, 'ap) leader_ops
    \<Rightarrow> ('hid, 'x, 'lg, 'ld, 'tf, 'rw) noderef \<Rightarrow> ('bi, 'gp) leader_event \<Rightarrow> nat option" where
  "event_slot_time W tip event = slot_time W tip (epoch (le_date event)) (slot_id (le_date event))"

definition event_nth_future_slot_time ::
  "('hid, 'x, 'f, 'q, 'lg, 'ld, 'e, 'tf, 'rw, 'mv, 'bk, 'gk, 'bi, 'gp, 'ap) leader_ops
    \<Rightarrow> ('hid, 'x, 'lg, 'ld, 'tf, 'rw) noderef \<Rightarrow> ('bi, 'gp) leader_event \<Rightarrow> u32 \<Rightarrow> nat option" where
  "event_nth_future_slot_time W tip event n =
     (let ep = epoch (le_date event); slot = slot_id (le_date event) + n
      in if era_slots_per_epoch W (ref_leadership tip) \<le> slot then slot_time W tip (ep + n) 0 else slot_time W tip ep slot)"

definition event_following_slot_time ::
  "('hid, 'x, 'f, 'q, 'lg, 'ld, 'e, 'tf, 'rw, 'mv, 'bk, 'gk, 'bi, 'gp, 'ap) leader_ops
    \<Rightarrow> ('hid, 'x, 'lg, 'ld, 'tf, 'rw) noderef \<Rightarrow> ('bi, 'gp) leader_event \<Rightarrow> nat option" where
  "event_following_slot_time W tip event = event_nth_future_slot_time W tip event 1"

text \<open>The outer option is the panic; the inner one is \<open>None\<close> for a slot of the past.\<close>

definition slot_instant ::
  "('hid, 'x, 'f, 'q, 'lg, 'ld, 'e, 'tf, 'rw, 'mv, 'bk, 'gk, 'bi, 'gp, 'ap) leader_ops \<Rightarrow> nat
    \<Rightarrow> ('hid, 'x, 'lg, 'ld, 'tf, 'rw) noderef \<Rightarrow> u32 \<Rightarrow> u32 \<Rightarrow> nat option option" where
  "slot_instant W now tip ep slot = map_option (\<lambda>t. if now \<le> t then Some t else None) (slot_time W tip ep slot)"

definition too_late :: "nat \<Rightarrow> nat \<Rightarrow> bool" where
  "too_late now event_end \<longleftrightarrow> event_end \<le> now"

section \<open>Making a block\<close>

definition prepare_block ::
  "('f, 'q, 'ap, 'ie) event_env \<Rightarrow> 'ap
    \<Rightarrow> (('lc, 'hid, 'x, 'f, 'q, 'lg, 'ld, 'tf, 'rw, 'bk, 'gk, 'bi, 'gp, 'ap) lead_module, ('e, 'ie) leadership_error,
        ('f \<times> 'q config_param list option) list \<times> 'ap) action" where
  "prepare_block env ledger =
     act_bind (act_send lm_pool lm_pool_update CannotConnectToFragmentPool ledger) (\<lambda>_.
     act_result (map_err FragmentSelectionFailed (ev_pool_reply env ledger)))"

definition lead_set_status ::
  "('lc, block_date, 'hid leadership_log) lru_ops \<Rightarrow> block_date \<Rightarrow> 'hid leadership_log_status
    \<Rightarrow> (('lc, 'hid, 'x, 'f, 'q, 'lg, 'ld, 'tf, 'rw, 'bk, 'gk, 'bi, 'gp, 'ap) lead_module, 'err, unit) action" where
  "lead_set_status L log status = act_modify (\<lambda>s. s\<lparr>lm_logs := lead_logs_set_status L status log (lm_logs s)\<rparr>)"

text \<open>The block of an event, or the error of the enclave.\<close>

definition sign_block ::
  "('hid, 'x, 'f, 'q, 'lg, 'ld, 'e, 'tf, 'rw, 'mv, 'bk, 'gk, 'bi, 'gp, 'ap) leader_ops \<Rightarrow> ('bk, 'gk) leader option
    \<Rightarrow> ('bi, 'gp) leader_event \<Rightarrow> ('f \<times> 'q config_param list option) list \<Rightarrow> 'hid \<Rightarrow> u32
    \<Rightarrow> (enclave_error, ('hid, 'x, 'f, 'q) block) result" where
  "sign_block W enclave event contents parent_id chain_length =
     (case le_output event of
        NoOutput \<Rightarrow> Inr (build_unsigned W contents parent_id chain_length (le_date event))
      | BftOutput leader_id \<Rightarrow>
          query_header_bft_finalize enclave (\<lambda>key. build_bft W key leader_id contents parent_id chain_length (le_date event))
      | GenesisPraosOutput proof_data \<Rightarrow>
          query_header_genesis_praos_finalize enclave
            (\<lambda>key. build_genesis_praos W key proof_data contents parent_id chain_length (le_date event)))"

text \<open>
  A deadline signals the selection of fragments through a channel. Once the selection has ended, nobody receives from
  the channel, and the unwrapped send panics.
\<close>

definition signal_deadline :: "deadline_moment \<Rightarrow> ('s, 'err, unit) action" where
  "signal_deadline moment = (if moment = AfterSelection then act_panic else act_return ())"

definition action_run_entry_build_block ::
  "('hid, 'x, 'f, 'q, 'lg, 'ld, 'e, 'tf, 'rw, 'mv, 'bk, 'gk, 'bi, 'gp, 'ap) leader_ops
    \<Rightarrow> ('lc, block_date, 'hid leadership_log) lru_ops \<Rightarrow> ('f, 'q, 'ap, 'ie) event_env \<Rightarrow> ('bi, 'gp) leader_event
    \<Rightarrow> (('lc, 'hid, 'x, 'f, 'q, 'lg, 'ld, 'tf, 'rw, 'bk, 'gk, 'bi, 'gp, 'ap) lead_module, ('e, 'ie) leadership_error, unit) action" where
  "action_run_entry_build_block W L env event =
     act_bind act_get (\<lambda>s.
     if ref_block_date (lm_tip_ref s) < le_date event then
       (let parent_id = ref_hash (lm_tip_ref s);
            chain_length = chain_length_next (lo_node W) (ref_chain_length (lm_tip_ref s))
        in act_bind (act_unwrap (new_epoch_leadership_from (lo_node W) (epoch (le_date event)) (lm_tip_ref s) (lm_rewards_report_all s)))
           (\<lambda>leadership.
           act_bind (act_result (map_err LeadLedgerError (ledger_begin_block W (el_state leadership) chain_length (le_date event)))) (\<lambda>ledger.
           act_bind (prepare_block env ledger) (\<lambda>(contents, ledger).
           act_bind (signal_deadline (ev_soft_deadline env)) (\<lambda>_.
           act_bind (signal_deadline (ev_hard_deadline env)) (\<lambda>_.
           case sign_block W (lm_enclave s) event contents parent_id chain_length of
             Inl e \<Rightarrow> lead_set_status L (le_date event) (LogRejected (''Cannot sign the block: '' @ enclave_error_display e))
           | Inr block \<Rightarrow>
               (let header = b_header block
                in act_bind (act_send lm_block_message lm_block_message_update CannotSendLeadershipBlock
                       \<lparr>lb_block = block, lb_new_ledger = ledger_finish W ledger header, lb_leadership = leadership\<rparr>) (\<lambda>_.
                   lead_set_status L (le_date event)
                     (LogBlock (h_hash header) (h_block_parent_hash header) (h_chain_length header))))))))))
     else lead_set_status L (le_date event) (LogRejected ''Not computing this schedule because of invalid state against the network blockchain''))"

definition action_run_entry_in_bound ::
  "('hid, 'x, 'f, 'q, 'lg, 'ld, 'e, 'tf, 'rw, 'mv, 'bk, 'gk, 'bi, 'gp, 'ap) leader_ops
    \<Rightarrow> ('lc, block_date, 'hid leadership_log) lru_ops \<Rightarrow> ('f, 'q, 'ap, 'ie) event_env \<Rightarrow> nat \<Rightarrow> ('bi, 'gp) leader_event \<Rightarrow> nat \<Rightarrow> nat
    \<Rightarrow> (('lc, 'hid, 'x, 'f, 'q, 'lg, 'ld, 'tf, 'rw, 'bk, 'gk, 'bi, 'gp, 'ap) lead_module, ('e, 'ie) leadership_error, unit) action" where
  "action_run_entry_in_bound W L env now event event_end event_end_hard =
     (if event_end < now \<or> event_end_hard < now then act_panic else action_run_entry_build_block W L env event)"

definition action_run_entry ::
  "('hid, 'x, 'f, 'q, 'lg, 'ld, 'e, 'tf, 'rw, 'mv, 'bk, 'gk, 'bi, 'gp, 'ap) leader_ops
    \<Rightarrow> ('lc, block_date, 'hid leadership_log) lru_ops \<Rightarrow> ('f, 'q, 'ap, 'ie) event_env \<Rightarrow> (nat \<Rightarrow> nat) \<Rightarrow> ('bi, 'gp) leader_event
    \<Rightarrow> (('lc, 'hid, 'x, 'f, 'q, 'lg, 'ld, 'tf, 'rw, 'bk, 'gk, 'bi, 'gp, 'ap) lead_module, ('e, 'ie) leadership_error, unit) action" where
  "action_run_entry W L env clk event =
     act_bind act_get (\<lambda>s.
     act_bind (act_unwrap (event_slot_time W (lm_tip_ref s) event)) (\<lambda>event_start.
     act_bind (act_unwrap (event_following_slot_time W (lm_tip_ref s) event)) (\<lambda>event_end.
     act_bind (act_unwrap (event_nth_future_slot_time W (lm_tip_ref s) event (lm_block_hard_deadline s))) (\<lambda>event_end_hard.
     if too_late (clk 0) event_end
     then lead_set_status L (le_date event) (LogRejected ''Missed the deadline to compute the schedule'')
     else
       act_bind (act_unwrap (slot_instant W (clk 1) (lm_tip_ref s) (epoch (le_date event)) (slot_id (le_date event)))) (\<lambda>right_time.
       action_run_entry_in_bound W L env (clk 2) event event_end event_end_hard)))))"

definition action_entry ::
  "('hid, 'x, 'f, 'q, 'lg, 'ld, 'e, 'tf, 'rw, 'mv, 'bk, 'gk, 'bi, 'gp, 'ap) leader_ops
    \<Rightarrow> ('lc, block_date, 'hid leadership_log) lru_ops \<Rightarrow> ('f, 'q, 'ap, 'ie) event_env \<Rightarrow> (nat \<Rightarrow> nat) \<Rightarrow> ('bi, 'gp) leader_event
    \<Rightarrow> (('lc, 'hid, 'x, 'f, 'q, 'lg, 'ld, 'tf, 'rw, 'bk, 'gk, 'bi, 'gp, 'ap) lead_module, ('e, 'ie) leadership_error, unit) action" where
  "action_entry W L env clk event =
     act_bind act_get (\<lambda>s.
     act_bind (act_unwrap (slot_time W (lm_tip_ref s) (epoch (le_date event)) (slot_id (le_date event)))) (\<lambda>scheduled_at_time.
     (let (log, logs) = lead_logs_insert L (leadership_log_new (clk 0) (le_date event) scheduled_at_time) (lm_logs s)
      in act_bind (act_unwrap (lead_logs_mark_wake L (clk 1) log logs)) (\<lambda>logs.
         act_bind (act_modify (\<lambda>s. s\<lparr>lm_logs := logs\<rparr>)) (\<lambda>_.
         act_bind (action_run_entry W L env (\<lambda>i. clk (i + 2)) event) (\<lambda>_.
         act_bind act_get (\<lambda>s.
         act_bind (act_unwrap (lead_logs_mark_finished L (clk 5) log (lm_logs s))) (\<lambda>logs.
         act_modify (\<lambda>s. s\<lparr>lm_logs := logs\<rparr>)))))))))"

section \<open>Scheduling\<close>

definition action_run_schedule ::
  "'ld \<Rightarrow> u32 \<Rightarrow> u32
    \<Rightarrow> (('lc, 'hid, 'x, 'f, 'q, 'lg, 'ld, 'tf, 'rw, 'bk, 'gk, 'bi, 'gp, 'ap) lead_module, ('e, 'ie) leadership_error, unit) action" where
  "action_run_schedule leadership slot_start nb_slots =
     act_bind act_get (\<lambda>s.
     act_bind (act_result (map_err CannotScheduleWithEnclave (query_schedules (lm_enclave s) leadership slot_start nb_slots))) (\<lambda>sc.
     act_modify (\<lambda>s. s\<lparr>lm_schedule := Some sc\<rparr>)))"

text \<open>The position in time is unwrapped: it is too early for a schedule before the time frame starts.\<close>

definition action_schedule ::
  "('hid, 'x, 'f, 'q, 'lg, 'ld, 'e, 'tf, 'rw, 'mv, 'bk, 'gk, 'bi, 'gp, 'ap) leader_ops \<Rightarrow> nat
    \<Rightarrow> (('lc, 'hid, 'x, 'f, 'q, 'lg, 'ld, 'tf, 'rw, 'bk, 'gk, 'bi, 'gp, 'ap) lead_module, ('e, 'ie) leadership_error, unit) action" where
  "action_schedule W now =
     act_bind act_get (\<lambda>s.
     case current_slot_position W now (lm_tip_ref s) :: (('e, 'ie) leadership_error, block_date) result option of
       Some (Inr position) \<Rightarrow>
         (let epoch_tip = epoch (ref_block_date (lm_tip_ref s)); slot_start = slot_id position + 1
          in if epoch_tip < epoch position then
               act_bind (act_unwrap (new_epoch_leadership_from (lo_node W) (epoch position) (lm_tip_ref s) False)) (\<lambda>el.
               action_run_schedule (el_leadership el) slot_start (era_slots_per_epoch W (el_leadership el) - slot_start))
             else if epoch_tip = epoch position then
               action_run_schedule (ref_leadership (lm_tip_ref s)) slot_start
                 (era_slots_per_epoch W (ref_leadership (lm_tip_ref s)) - slot_start)
             else act_return ())
     | _ \<Rightarrow> act_panic)"

definition lead_action ::
  "('hid, 'x, 'f, 'q, 'lg, 'ld, 'e, 'tf, 'rw, 'mv, 'bk, 'gk, 'bi, 'gp, 'ap) leader_ops
    \<Rightarrow> ('lc, block_date, 'hid leadership_log) lru_ops \<Rightarrow> ('f, 'q, 'ap, 'ie) event_env \<Rightarrow> (nat \<Rightarrow> nat)
    \<Rightarrow> (('lc, 'hid, 'x, 'f, 'q, 'lg, 'ld, 'tf, 'rw, 'bk, 'gk, 'bi, 'gp, 'ap) lead_module, ('e, 'ie) leadership_error, unit) action" where
  "lead_action W L env clk =
     act_bind act_get (\<lambda>s.
     case lm_schedule s of
       None \<Rightarrow> action_schedule W (clk 0)
     | Some sc \<Rightarrow>
         (let (event, sc) = schedule_next_event W sc
          in act_bind (act_modify (\<lambda>s. s\<lparr>lm_schedule := Some sc\<rparr>)) (\<lambda>_.
             case event of
               Some event \<Rightarrow> action_entry W L env clk event
             | None \<Rightarrow> action_schedule W (clk 0))))"

text \<open>The instant to wait for; the schedule must have been made.\<close>

definition wait_peek_deadline ::
  "('hid, 'x, 'f, 'q, 'lg, 'ld, 'e, 'tf, 'rw, 'mv, 'bk, 'gk, 'bi, 'gp, 'ap) leader_ops \<Rightarrow> nat
    \<Rightarrow> (('lc, 'hid, 'x, 'f, 'q, 'lg, 'ld, 'tf, 'rw, 'bk, 'gk, 'bi, 'gp, 'ap) lead_module, ('e, 'ie) leadership_error, nat) action" where
  "wait_peek_deadline W now =
     act_bind act_get (\<lambda>s.
     case lm_schedule s of
       None \<Rightarrow> act_panic
     | Some sc \<Rightarrow>
         (let (event, sc) = schedule_peek W sc
          in act_bind (act_modify (\<lambda>s. s\<lparr>lm_schedule := Some sc\<rparr>)) (\<lambda>_.
             case event of
               None \<Rightarrow> act_unwrap (epoch_instant W now (lm_tip_ref s) (schedule_epoch W sc + 1))
             | Some event \<Rightarrow>
                 act_bind (act_unwrap (slot_instant W now (lm_tip_ref s) (epoch (le_date event)) (slot_id (le_date event)))) (\<lambda>instant.
                 act_return (case instant of Some i \<Rightarrow> i | None \<Rightarrow> now)))))"

definition lead_wait ::
  "('hid, 'x, 'f, 'q, 'lg, 'ld, 'e, 'tf, 'rw, 'mv, 'bk, 'gk, 'bi, 'gp, 'ap) leader_ops \<Rightarrow> nat \<Rightarrow> ('hid, 'x, 'lg, 'ld, 'tf, 'rw) noderef
    \<Rightarrow> (('lc, 'hid, 'x, 'f, 'q, 'lg, 'ld, 'tf, 'rw, 'bk, 'gk, 'bi, 'gp, 'ap) lead_module, ('e, 'ie) leadership_error, unit) action" where
  "lead_wait W now tip =
     act_bind (wait_peek_deadline W now) (\<lambda>deadline. act_modify (\<lambda>s. s\<lparr>lm_tip_ref := tip\<rparr>))"

definition lead_step ::
  "('hid, 'x, 'f, 'q, 'lg, 'ld, 'e, 'tf, 'rw, 'mv, 'bk, 'gk, 'bi, 'gp, 'ap) leader_ops
    \<Rightarrow> ('lc, block_date, 'hid leadership_log) lru_ops \<Rightarrow> ('f, 'q, 'ap, 'ie) event_env \<Rightarrow> (nat \<Rightarrow> nat) \<Rightarrow> nat
    \<Rightarrow> ('hid, 'x, 'lg, 'ld, 'tf, 'rw) noderef
    \<Rightarrow> (('lc, 'hid, 'x, 'f, 'q, 'lg, 'ld, 'tf, 'rw, 'bk, 'gk, 'bi, 'gp, 'ap) lead_module, ('e, 'ie) leadership_error, unit) action" where
  "lead_step W L env clk now tip = act_bind (lead_action W L env clk) (\<lambda>_. lead_wait W now tip)"

section \<open>What an action sends\<close>

text \<open>An action that neither changes the tip of the task nor sends blocks; and one that sends at most one, with a given property.\<close>

definition silent ::
  "(('lc, 'hid, 'x, 'f, 'q, 'lg, 'ld, 'tf, 'rw, 'bk, 'gk, 'bi, 'gp, 'ap) lead_module, 'err, 'a) action \<Rightarrow> bool" where
  "silent m \<longleftrightarrow> (\<forall>s r s'. m s = Some (r, s') \<longrightarrow> lm_tip_ref s' = lm_tip_ref s \<and> lm_block_message s' = lm_block_message s)"

definition sent_at_most_one ::
  "((('hid, 'x, 'f, 'q) block, 'lg, ('lg, 'ld, 'rw, 'tf, ('hid, 'x, 'lg, 'ld, 'tf, 'rw) noderef) epoch_leadership) leadership_block \<Rightarrow> bool)
    \<Rightarrow> ('lc, 'hid, 'x, 'f, 'q, 'lg, 'ld, 'tf, 'rw, 'bk, 'gk, 'bi, 'gp, 'ap) lead_module
    \<Rightarrow> ('lc, 'hid, 'x, 'f, 'q, 'lg, 'ld, 'tf, 'rw, 'bk, 'gk, 'bi, 'gp, 'ap) lead_module \<Rightarrow> bool" where
  "sent_at_most_one P s s' \<longleftrightarrow> lm_tip_ref s' = lm_tip_ref s
     \<and> (\<exists>new. mb_sent (lm_block_message s') = mb_sent (lm_block_message s) @ new \<and> length new \<le> 1 \<and> (\<forall>lb\<in>set new. P lb))"

definition sends_if ::
  "((('hid, 'x, 'f, 'q) block, 'lg, ('lg, 'ld, 'rw, 'tf, ('hid, 'x, 'lg, 'ld, 'tf, 'rw) noderef) epoch_leadership) leadership_block \<Rightarrow> bool)
    \<Rightarrow> (('lc, 'hid, 'x, 'f, 'q, 'lg, 'ld, 'tf, 'rw, 'bk, 'gk, 'bi, 'gp, 'ap) lead_module, 'err, 'a) action \<Rightarrow> bool" where
  "sends_if P m \<longleftrightarrow> (\<forall>s r s'. m s = Some (r, s') \<longrightarrow> sent_at_most_one P s s')"

named_theorems silent_rules \<open>rules for actions that send nothing\<close>

lemma silentD: "silent m \<Longrightarrow> m s = Some (r, s') \<Longrightarrow> lm_tip_ref s' = lm_tip_ref s \<and> lm_block_message s' = lm_block_message s"
  by (simp add: silent_def)

lemma sends_ifD: "sends_if P m \<Longrightarrow> m s = Some (r, s') \<Longrightarrow> sent_at_most_one P s s'"
  by (simp add: sends_if_def)

lemma silent_basic [silent_rules]:
  "silent (act_return x)" "silent (act_throw e)" "silent act_panic" "silent (act_result res)" "silent (act_unwrap v)" "silent act_get"
  by (auto simp: silent_def act_basic_defs split: option.splits)

lemma silent_bind [silent_rules]:
  assumes "silent m" and "\<And>x. silent (f x)"
  shows "silent (act_bind m f)"
  unfolding silent_def [of "act_bind m f"] act_bind_eq_Some_conv
  by (metis silentD [OF assms(1)] silentD [OF assms(2)])

lemma silent_modify:
  "(\<And>s. lm_tip_ref (g s) = lm_tip_ref s \<and> lm_block_message (g s) = lm_block_message s) \<Longrightarrow> silent (act_modify g)"
  by (simp add: silent_def)

lemma silent_fields [silent_rules]:
  "silent (act_modify (\<lambda>s. s\<lparr>lm_logs := logs\<rparr>))" "silent (act_modify (\<lambda>s. s\<lparr>lm_schedule := sc\<rparr>))"
  "silent (lead_set_status L log status)" "silent (signal_deadline moment)"
  by (simp_all add: silent_modify lead_set_status_def signal_deadline_def silent_basic)

lemma silent_prepare_block [silent_rules]: "silent (prepare_block env ledger)"
  unfolding prepare_block_def
  by (intro silent_rules) (simp add: silent_def act_send_def split_beta Let_def)

lemma silent_action_schedule [silent_rules]: "silent (action_schedule W now)"
  unfolding action_schedule_def action_run_schedule_def Let_def
  by (auto intro!: silent_rules split: option.splits sum.splits)

lemma sent_same: "lm_tip_ref s1 = lm_tip_ref s \<and> lm_block_message s1 = lm_block_message s \<Longrightarrow> sent_at_most_one P s s1"
  by (simp add: sent_at_most_one_def)

lemma sent_after:
  "lm_tip_ref s1 = lm_tip_ref s \<and> lm_block_message s1 = lm_block_message s \<Longrightarrow> sent_at_most_one P s1 s' \<Longrightarrow> sent_at_most_one P s s'"
  by (simp add: sent_at_most_one_def)

lemma sent_before:
  "sent_at_most_one P s s1 \<Longrightarrow> lm_tip_ref s' = lm_tip_ref s1 \<and> lm_block_message s' = lm_block_message s1 \<Longrightarrow> sent_at_most_one P s s'"
  by (simp add: sent_at_most_one_def)

lemma silent_sends: "silent m \<Longrightarrow> sends_if P m"
  by (auto simp: sends_if_def dest!: silentD intro: sent_same)

lemma sends_bind:
  assumes "silent m" and "\<And>x. sends_if P (f x)"
  shows "sends_if P (act_bind m f)"
  unfolding sends_if_def act_bind_eq_Some_conv
  by (meson assms silentD sends_ifD sent_same sent_after)

lemma sends_then_silent:
  assumes "sends_if P m" and "\<And>x. silent (f x)"
  shows "sends_if P (act_bind m f)"
  unfolding sends_if_def act_bind_eq_Some_conv
  by (meson assms silentD sends_ifD sent_before)

text \<open>The same from a given state.\<close>

definition sends_at ::
  "((('hid, 'x, 'f, 'q) block, 'lg, ('lg, 'ld, 'rw, 'tf, ('hid, 'x, 'lg, 'ld, 'tf, 'rw) noderef) epoch_leadership) leadership_block \<Rightarrow> bool)
    \<Rightarrow> ('lc, 'hid, 'x, 'f, 'q, 'lg, 'ld, 'tf, 'rw, 'bk, 'gk, 'bi, 'gp, 'ap) lead_module
    \<Rightarrow> (('lc, 'hid, 'x, 'f, 'q, 'lg, 'ld, 'tf, 'rw, 'bk, 'gk, 'bi, 'gp, 'ap) lead_module, 'err, 'a) action \<Rightarrow> bool" where
  "sends_at P s m \<longleftrightarrow> (\<forall>r s'. m s = Some (r, s') \<longrightarrow> sent_at_most_one P s s')"

lemma sends_atD: "sends_at P s m \<Longrightarrow> m s = Some (r, s') \<Longrightarrow> sent_at_most_one P s s'"
  by (simp add: sends_at_def)

lemma sends_at_if: "sends_if P m \<Longrightarrow> sends_at P s m"
  by (simp add: sends_at_def sends_if_def)

lemma sends_at_get: "sends_at P s (f s) \<Longrightarrow> sends_at P s (act_bind act_get f)"
  by (simp add: sends_at_def)

lemma sends_at_unwrap: "(\<And>x. v = Some x \<Longrightarrow> sends_at P s (f x)) \<Longrightarrow> sends_at P s (act_bind (act_unwrap v) f)"
  by (cases v) (auto simp: sends_at_def act_bind_eqs)

lemma sends_at_then_silent:
  assumes "sends_at P s m" and "\<And>x. silent (f x)"
  shows "sends_at P s (act_bind m f)"
  unfolding sends_at_def act_bind_eq_Some_conv
  by (meson assms silentD sends_atD sent_before)

lemma sends_at_modify:
  assumes "lm_tip_ref (g s) = lm_tip_ref s \<and> lm_block_message (g s) = lm_block_message s" and "sends_at P (g s) (f ())"
  shows "sends_at P s (act_bind (act_modify g) f)"
  using assms by (auto simp: sends_at_def intro: sent_after)

lemma sends_block: "P lb \<Longrightarrow> sends_if P (act_send lm_block_message lm_block_message_update err lb)"
  using mb_try_send_sent [of lb] by (auto simp: sends_if_def sent_at_most_one_def act_send_def split_beta Let_def)

lemma sends_block_then:
  "P lb \<Longrightarrow> sends_if P (act_bind (act_send lm_block_message lm_block_message_update err lb) (\<lambda>_. lead_set_status L log status))"
  by (intro sends_then_silent sends_block silent_rules)

text \<open>A block made for an event on a tip: the blockchain task accepts its link to the tip, and it carries the leadership of its epoch.\<close>

definition made_for ::
  "('hid, 'x, 'f, 'q, 'lg, 'ld, 'e, 'tf, 'rw, 'mv, 'bk, 'gk, 'bi, 'gp, 'ap) leader_ops \<Rightarrow> ('bi, 'gp) leader_event
    \<Rightarrow> ('hid, 'x, 'lg, 'ld, 'tf, 'rw) noderef \<Rightarrow> bool
    \<Rightarrow> (('hid, 'x, 'f, 'q) block, 'lg, ('lg, 'ld, 'rw, 'tf, ('hid, 'x, 'lg, 'ld, 'tf, 'rw) noderef) epoch_leadership) leadership_block \<Rightarrow> bool" where
  "made_for W event tip report_all lb \<longleftrightarrow>
     h_block_date (b_header (lb_block lb)) = le_date event
   \<and> pre_verify_link (lo_node W) (b_header (lb_block lb)) (ref_header tip) = Some (Inr ())
   \<and> new_epoch_leadership_from (lo_node W) (epoch (le_date event)) tip report_all = Some (lb_leadership lb)"

locale block_builders =
  fixes W :: "('hid, 'x, 'f, 'q, 'lg, 'ld, 'e, 'tf, 'rw, 'mv, 'bk, 'gk, 'bi, 'gp, 'ap) leader_ops"
  assumes built_parent: "h_block_parent_hash (b_header (build_unsigned W cs p n d)) = p"
      "h_block_parent_hash (b_header (build_bft W bk bi cs p n d)) = p"
      "h_block_parent_hash (b_header (build_genesis_praos W gk gp cs p n d)) = p"
    and built_length: "h_chain_length (b_header (build_unsigned W cs p n d)) = n"
      "h_chain_length (b_header (build_bft W bk bi cs p n d)) = n"
      "h_chain_length (b_header (build_genesis_praos W gk gp cs p n d)) = n"
    and built_date: "h_block_date (b_header (build_unsigned W cs p n d)) = d"
      "h_block_date (b_header (build_bft W bk bi cs p n d)) = d"
      "h_block_date (b_header (build_genesis_praos W gk gp cs p n d)) = d"
begin

lemma signed_header:
  assumes "sign_block W enclave event contents parent_id chain_length = Inr block"
  shows "h_block_parent_hash (b_header block) = parent_id" and "h_chain_length (b_header block) = chain_length"
    and "h_block_date (b_header block) = le_date event"
  using assms
  by (auto simp: sign_block_def query_header_bft_finalize_def query_header_genesis_praos_finalize_def create_header_bft_def
      create_header_genesis_praos_def built_parent built_length built_date
      bind_eq_Some_conv split: leader_output.splits option.splits)

lemma signed_made_for:
  assumes "sign_block W enclave event contents (ref_hash tip) (chain_length_next (lo_node W) (ref_chain_length tip)) = Inr block"
    and "ref_block_date tip < le_date event" and "ref_hash tip = h_hash (ref_header tip)"
    and "new_epoch_leadership_from (lo_node W) (epoch (le_date event)) tip report_all = Some el"
  shows "made_for W event tip report_all \<lparr>lb_block = block, lb_new_ledger = lg, lb_leadership = el\<rparr>"
  using signed_header [OF assms(1)] assms(2-4)
  by (auto simp: made_for_def pre_verify_link_def ref_chain_length_def ref_block_date_def)

lemma build_block_sends:
  assumes "ref_hash (lm_tip_ref s) = h_hash (ref_header (lm_tip_ref s))"
  shows "sends_at (made_for W event (lm_tip_ref s) (lm_rewards_report_all s)) s (action_run_entry_build_block W L env event)"
  unfolding action_run_entry_build_block_def Let_def
  by (rule sends_at_get, split if_split, intro conjI impI, rule sends_at_unwrap)
    (auto intro!: sends_at_if sends_bind silent_sends [OF silent_fields(3)] silent_rules sends_block_then
      signed_made_for [OF _ _ assms] split: sum.splits prod.splits)

lemma run_entry_sends:
  assumes "ref_hash (lm_tip_ref s) = h_hash (ref_header (lm_tip_ref s))"
  shows "sends_at (made_for W event (lm_tip_ref s) (lm_rewards_report_all s)) s (action_run_entry W L env clk event)"
  unfolding action_run_entry_def action_run_entry_in_bound_def
  by (rule sends_at_get)
    (auto intro!: sends_at_unwrap build_block_sends assms sends_at_if [OF silent_sends [OF silent_fields(3)]]
      sends_at_if [OF silent_sends [OF silent_basic(3)]])

lemma entry_sends:
  assumes "ref_hash (lm_tip_ref s) = h_hash (ref_header (lm_tip_ref s))"
  shows "sends_at (made_for W event (lm_tip_ref s) (lm_rewards_report_all s)) s (action_entry W L env clk event)"
proof -
  have entry: "sends_at (made_for W event (lm_tip_ref s) (lm_rewards_report_all s)) (s\<lparr>lm_logs := logs\<rparr>) (action_run_entry W L env clk event)"
    for logs clk using run_entry_sends [of "s\<lparr>lm_logs := logs\<rparr>"] assms by simp
  show ?thesis
    unfolding action_entry_def split_beta Let_def
    by (rule sends_at_get, intro sends_at_unwrap sends_at_modify sends_at_then_silent entry silent_rules) simp
qed

text \<open>An action sends at most one block, made on the tip for the next event of the schedule.\<close>

lemma action_sends:
  assumes "lead_action W L env clk s = Some (r, s')" and "ref_hash (lm_tip_ref s) = h_hash (ref_header (lm_tip_ref s))"
  shows "sent_at_most_one (\<lambda>lb. \<exists>sc event. lm_schedule s = Some sc \<and> fst (schedule_next_event W sc) = Some event
    \<and> made_for W event (lm_tip_ref s) (lm_rewards_report_all s) lb) s s'"
proof (cases "lm_schedule s")
  case None
  with assms(1) have "action_schedule W (clk 0) s = Some (r, s')" by (simp add: lead_action_def)
  from silentD [OF silent_action_schedule this] show ?thesis by (simp add: sent_same)
next
  case (Some sc)
  let ?s = "s\<lparr>lm_schedule := Some (snd (schedule_next_event W sc))\<rparr>"
  show ?thesis
  proof (cases "fst (schedule_next_event W sc)")
    case None
    with Some assms(1) have "action_schedule W (clk 0) ?s = Some (r, s')" by (simp add: lead_action_def split_beta)
    from silentD [OF silent_action_schedule this] show ?thesis by (simp add: sent_same)
  next
    case event: (Some event)
    with Some assms(1) have "action_entry W L env clk event ?s = Some (r, s')" by (simp add: lead_action_def split_beta)
    from sends_atD [OF entry_sends this] assms(2) Some event show ?thesis by (auto simp: sent_at_most_one_def)
  qed
qed

end

interpretation example_builders: block_builders example_leader_ops
  by unfold_locales (simp_all add: example_leader_ops_def example_leader_block_def)

section \<open>Properties of the task\<close>

text \<open>
  The blocks of the leadership task fit the chain (C16). Whatever an action of the task returns, it has sent at most one
  block. That block is for the next event of the schedule, it carries the epoch leadership computed from the tip, and
  the link check of the blockchain task accepts it as a child of the tip.
\<close>

theorem leadership_block_extends_tip:
  assumes "block_builders W" and "ref_hash (lm_tip_ref s) = h_hash (ref_header (lm_tip_ref s))"
    and "lead_action W L env clk s = Some (r, s')"
  shows "\<exists>new. mb_sent (lm_block_message s') = mb_sent (lm_block_message s) @ new \<and> length new \<le> 1
    \<and> (\<forall>lb\<in>set new. \<exists>sc event. lm_schedule s = Some sc \<and> fst (schedule_next_event W sc) = Some event
         \<and> h_block_date (b_header (lb_block lb)) = le_date event
         \<and> pre_verify_link (lo_node W) (b_header (lb_block lb)) (ref_header (lm_tip_ref s)) = Some (Inr ())
         \<and> new_epoch_leadership_from (lo_node W) (epoch (le_date event)) (lm_tip_ref s) (lm_rewards_report_all s) = Some (lb_leadership lb))"
  using block_builders.action_sends [OF assms(1,3,2)] unfolding sent_at_most_one_def made_for_def by blast

text \<open>A leader with a schedule of the slots 1 to 3, run at time 2.\<close>

definition example_lead_module ::
  "((block_date, nat leadership_log) recency_list, nat, unit, unit, unit, nat, unit, unit, unit, unit, unit, unit, unit, nat) lead_module" where
  "example_lead_module =
     (lead_module_new (lru_new recency_ops 4) example_ref0 (mailbox_new (\<lambda>_. True)) (Some example_leader) (mailbox_new (\<lambda>_. True)) False 1)
       \<lparr>lm_schedule := Some (schedule_new (Some example_leader) () 1 3)\<rparr>"

definition example_event_env :: "(unit, unit, nat, unit) event_env" where
  "example_event_env = \<lparr>ev_pool_reply = (\<lambda>l. Inr ([], l)), ev_soft_deadline = NotReached, ev_hard_deadline = NotReached\<rparr>"

lemma example_action:
  "\<exists>r s'. lead_action example_leader_ops recency_ops example_event_env (\<lambda>_. 2) example_lead_module = Some (r, s')
     \<and> map (h_block_date \<circ> b_header \<circ> lb_block) (mb_sent (lm_block_message s')) = [BlockDate 0 2]"
proof -
  have "(case lead_action example_leader_ops recency_ops example_event_env (\<lambda>_. 2) example_lead_module of
      Some (r, s') \<Rightarrow> map (h_block_date \<circ> b_header \<circ> lb_block) (mb_sent (lm_block_message s')) = [BlockDate 0 2] | None \<Rightarrow> False)"
    by code_simp
  then show ?thesis by (auto split: option.splits)
qed

lemma leadership_block_extends_tip_witness:
  "\<exists>r s' lb. lead_action example_leader_ops recency_ops example_event_env (\<lambda>_. 2) example_lead_module = Some (r, s')
     \<and> mb_sent (lm_block_message s') = [lb] \<and> h_block_date (b_header (lb_block lb)) = BlockDate 0 2
     \<and> pre_verify_link (lo_node example_leader_ops) (b_header (lb_block lb)) (ref_header example_ref0) = Some (Inr ())"
proof -
  obtain r s' where run: "lead_action example_leader_ops recency_ops example_event_env (\<lambda>_. 2) example_lead_module = Some (r, s')"
      "map (h_block_date \<circ> b_header \<circ> lb_block) (mb_sent (lm_block_message s')) = [BlockDate 0 2]"
    using example_action by (elim exE conjE)
  then obtain lb where lb: "mb_sent (lm_block_message s') = [lb]" "h_block_date (b_header (lb_block lb)) = BlockDate 0 2" by auto
  have tip: "lm_tip_ref example_lead_module = example_ref0" "mb_sent (lm_block_message example_lead_module) = []"
    by (simp_all add: example_lead_module_def lead_module_new_def mailbox_new_def)
  have "ref_hash example_ref0 = h_hash (ref_header example_ref0)" by (simp add: example_node_defs example_block_def)
  with leadership_block_extends_tip [OF example_builders.block_builders_axioms _ run(1)] run lb tip show ?thesis by auto
qed

text \<open>
  The hard deadline near the end of an epoch (C39). For an event whose slot is fewer than \<open>n \<ge> 2\<close> slots from the end of its
  epoch, the time computed for \<open>n\<close> slots ahead is the start of the epoch \<open>n\<close> epochs ahead, which is later.
\<close>

theorem hard_deadline_epochs_ahead:
  assumes time: "\<And>e sl. time_frame_slot_time (n_chain (lo_node W)) (ref_time_frame tip)
        (leadership_era_slot (n_chain (lo_node W)) (ref_leadership tip) (BlockDate e sl))
      = Some (start + (unat e * unat (era_slots_per_epoch W (ref_leadership tip)) + unat sl) * duration)"
    and "0 < duration" and "2 \<le> unat n" and "1 < unat (era_slots_per_epoch W (ref_leadership tip))"
    and "slot_id (le_date event) < era_slots_per_epoch W (ref_leadership tip)"
    and "unat (era_slots_per_epoch W (ref_leadership tip)) \<le> unat (slot_id (le_date event)) + unat n"
    and "unat (slot_id (le_date event)) + unat n < 2 ^ 32" and "unat (epoch (le_date event)) + unat n < 2 ^ 32"
  shows "event_nth_future_slot_time W tip event n =
      Some (start + (unat (epoch (le_date event)) + unat n) * unat (era_slots_per_epoch W (ref_leadership tip)) * duration)
    \<and> start + (unat (epoch (le_date event)) * unat (era_slots_per_epoch W (ref_leadership tip)) + unat (slot_id (le_date event)) + unat n) * duration
      < start + (unat (epoch (le_date event)) + unat n) * unat (era_slots_per_epoch W (ref_leadership tip)) * duration"
proof (rule conjI)
  show "event_nth_future_slot_time W tip event n =
      Some (start + (unat (epoch (le_date event)) + unat n) * unat (era_slots_per_epoch W (ref_leadership tip)) * duration)"
    using assms(6-8) by (simp add: event_nth_future_slot_time_def Let_def slot_time_def time word_le_nat_alt unat_word_ariths)
  define k where "k = unat (era_slots_per_epoch W (ref_leadership tip)) - 2"
  then have k: "unat (era_slots_per_epoch W (ref_leadership tip)) = Suc (Suc k)" using assms(4) by simp
  have "unat (slot_id (le_date event)) \<le> Suc k" using assms(5) by (simp add: k word_less_nat_alt)
  moreover have "1 * Suc k < unat n * Suc k" using assms(3) by (intro mult_strict_right_mono) auto
  ultimately have "unat (slot_id (le_date event)) + unat n < unat n * Suc (Suc k)" by simp
  then have "unat (epoch (le_date event)) * Suc (Suc k) + unat (slot_id (le_date event)) + unat n < (unat (epoch (le_date event)) + unat n) * Suc (Suc k)"
    by (simp only: add_mult_distrib)
  then show "start + (unat (epoch (le_date event)) * unat (era_slots_per_epoch W (ref_leadership tip)) + unat (slot_id (le_date event)) + unat n) * duration
      < start + (unat (epoch (le_date event)) + unat n) * unat (era_slots_per_epoch W (ref_leadership tip)) * duration"
    using assms(2) unfolding k by (intro add_strict_left_mono mult_strict_right_mono)
qed

lemma example_slot_times:
  "time_frame_slot_time (n_chain (lo_node example_leader_ops)) (ref_time_frame example_ref0)
      (leadership_era_slot (n_chain (lo_node example_leader_ops)) (ref_leadership example_ref0) (BlockDate e sl))
    = Some (0 + (unat e * unat (era_slots_per_epoch example_leader_ops (ref_leadership example_ref0)) + unat sl) * 1)"
proof -
  have "unat e < 2 ^ 32" "unat sl < 2 ^ 32" by (rule unat_u32_less)+
  then have "unat e * 10 + unat sl < 2 ^ 64" by simp
  then show ?thesis
    by (simp add: example_leader_ops_def example_node_ops_def example_chain_ops_def unat_word_ariths unsigned_ucast_eq take_bit_nat_eq_self)
qed

lemma hard_deadline_epochs_ahead_witness:
  "event_nth_future_slot_time example_leader_ops example_ref0 \<lparr>le_date = BlockDate 0 8, le_output = BftOutput ()\<rparr> 2 = Some 20"
  using hard_deadline_epochs_ahead [of example_leader_ops example_ref0 0 1 2 "\<lparr>le_date = BlockDate 0 8, le_output = BftOutput ()\<rparr>",
      OF example_slot_times]
  by (simp add: example_leader_ops_def)

text \<open>
  A tip ahead of the clock stops the task (C40). When the epoch of the tip is after the current one, the first action
  makes no schedule, and waiting for the next event panics.
\<close>

theorem tip_ahead_stops_leadership:
  assumes "lm_schedule s = None"
    and "time_frame_slot_at W (ref_time_frame (lm_tip_ref s)) (clk 0) = Some slot"
    and "era_from_slot W (ref_leadership (lm_tip_ref s)) slot = Some position"
    and "epoch position < epoch (ref_block_date (lm_tip_ref s))"
  shows "lead_action W L env clk s = Some (Inr (), s) \<and> lead_step W L env clk now tip s = None"
proof (rule conjI)
  show action: "lead_action W L env clk s = Some (Inr (), s)"
    using assms by (auto simp: lead_action_def action_schedule_def current_slot_position_def current_slot_def Let_def)
  show "lead_step W L env clk now tip s = None"
    using assms(1) action by (simp add: lead_step_def lead_wait_def wait_peek_deadline_def act_bind_def)
qed

lemma tip_ahead_stops_leadership_witness:
  "lead_step example_leader_ops recency_ops example_event_env (\<lambda>_. 2) 2 example_ref0
     (example_lead_module\<lparr>lm_schedule := None, lm_tip_ref := Ref \<lparr>lr_id = 2, lr_state = 1\<rparr> () () None
        (b_header (example_leader_block [] 1 1 (BlockDate 1 0))) None\<rparr>) = None"
  using tip_ahead_stops_leadership [of "example_lead_module\<lparr>lm_schedule := None, lm_tip_ref := Ref \<lparr>lr_id = 2, lr_state = 1\<rparr> () () None
        (b_header (example_leader_block [] 1 1 (BlockDate 1 0))) None\<rparr>" example_leader_ops "\<lambda>_. 2" 2 "BlockDate 0 2"
      recency_ops example_event_env 2 example_ref0]
  by (simp add: example_leader_ops_def example_leader_block_def ref_block_date_def)

end
