(* ===== verification/Tx_Certificate.thy ===== *)
theory Tx_Certificate
  imports Block_Date
begin

text \<open>
  Certificates of transactions and their signatures in the command line tool:
  \<^verbatim>\<open>jcli/src/jcli_lib/certificate/sign.rs\<close>, \<^verbatim>\<open>jcli/src/jcli_lib/utils/key_parser.rs\<close> and
  \<^verbatim>\<open>strip_auth\<close> of \<^verbatim>\<open>jormungandr-lib/src/interfaces/certificate.rs\<close>.

  The contents of certificates (\<open>'p\<close>), secret keys (\<open>'k\<close>), public keys (\<open>'pk\<close>) and signatures (\<open>'sig\<close>) are types of the
  ledger library; what the code asks of them is the record \<open>sign_ops\<close>. A transaction builder is the record of what has
  been set on it; signing a builder is signing the authentication data the library makes of it.
\<close>

section \<open>Certificates and transactions\<close>

datatype 'p certificate =
    CStakeDelegation 'p
  | COwnerStakeDelegation 'p
  | CPoolRegistration 'p
  | CPoolRetirement 'p
  | CPoolUpdate 'p
  | CVotePlan 'p
  | CVoteCast 'p
  | CVoteTally 'p
  | CUpdateProposal 'p
  | CUpdateVote 'p
  | CMintToken 'p
  | CEvmMapping 'p

datatype ('pk, 'sig) payload_auth =
    NoAuth
  | AccountBinding 'sig
  | PoolOwners "(8 word \<times> 'sig) list"
  | VotePlanProof 'pk 'sig
  | TallyPublic 'pk 'sig
  | TallyPrivate 'pk 'sig
  | BftLeaderBinding 'sig
  | SingleAccountBinding 'sig

datatype ('p, 'pk, 'sig) signed_certificate =
    SStakeDelegation 'p "('pk, 'sig) payload_auth"
  | SOwnerStakeDelegation 'p "('pk, 'sig) payload_auth"
  | SPoolRegistration 'p "('pk, 'sig) payload_auth"
  | SPoolRetirement 'p "('pk, 'sig) payload_auth"
  | SPoolUpdate 'p "('pk, 'sig) payload_auth"
  | SVotePlan 'p "('pk, 'sig) payload_auth"
  | SVoteTally 'p "('pk, 'sig) payload_auth"
  | SUpdateProposal 'p "('pk, 'sig) payload_auth"
  | SUpdateVote 'p "('pk, 'sig) payload_auth"
  | SEvmMapping 'p "('pk, 'sig) payload_auth"

fun strip_auth :: "('p, 'pk, 'sig) signed_certificate \<Rightarrow> 'p certificate" where
  "strip_auth (SStakeDelegation c _) = CStakeDelegation c"
| "strip_auth (SOwnerStakeDelegation c _) = COwnerStakeDelegation c"
| "strip_auth (SPoolRegistration c _) = CPoolRegistration c"
| "strip_auth (SPoolRetirement c _) = CPoolRetirement c"
| "strip_auth (SPoolUpdate c _) = CPoolUpdate c"
| "strip_auth (SVotePlan c _) = CVotePlan c"
| "strip_auth (SVoteTally c _) = CVoteTally c"
| "strip_auth (SUpdateProposal c _) = CUpdateProposal c"
| "strip_auth (SUpdateVote c _) = CUpdateVote c"
| "strip_auth (SEvmMapping c _) = CEvmMapping c"

datatype 'h input_type = InputAccount 'h | InputUtxo 'h "8 word"

record 'h tx_input =
  ti_input :: "'h input_type"
  ti_value :: u64

record 'ad tx_output =
  to_address :: 'ad
  to_value :: u64

text \<open>A builder without a payload is for a plain transaction.\<close>

record ('p, 'h, 'ad, 'w) tx_builder =
  tb_payload :: "'p certificate option"
  tb_expiry :: block_date
  tb_inputs :: "'h tx_input list"
  tb_outputs :: "'ad tx_output list"
  tb_witnesses :: "'w list"

section \<open>Keys\<close>

datatype 'k either_secret_key = Extended 'k | Normal 'k

record ('p, 'k, 'pk, 'sig, 'h, 'ad, 'w, 'le) sign_ops =
  extended_from_bech32 :: "string \<Rightarrow> ('le, 'k) result"
  normal_from_bech32 :: "string \<Rightarrow> ('le, 'k) result"
  to_public :: "'k either_secret_key \<Rightarrow> 'pk"
  sign_builder :: "'k either_secret_key \<Rightarrow> ('p, 'h, 'ad, 'w) tx_builder \<Rightarrow> 'sig"
  block0_payload_builder :: "'p certificate \<Rightarrow> ('p, 'h, 'ad, 'w) tx_builder"
  pool_owners :: "'p \<Rightarrow> 'pk list"
  delegation_account :: "'p \<Rightarrow> 'pk option"
  tally_private :: "'p \<Rightarrow> bool"

text \<open>\<^verbatim>\<open>str::trim\<close>, on ASCII text.\<close>

definition white_space :: "char \<Rightarrow> bool" where
  "white_space c \<longleftrightarrow> c = CHR '' '' \<or> 9 \<le> (of_char c :: nat) \<and> (of_char c :: nat) \<le> 13"

definition str_trim :: "string \<Rightarrow> string" where
  "str_trim s = rev (dropWhile white_space (rev (dropWhile white_space s)))"

definition parse_ed25519_secret_key ::
  "('p, 'k, 'pk, 'sig, 'h, 'ad, 'w, 'le) sign_ops \<Rightarrow> string \<Rightarrow> ('le, 'k either_secret_key) result" where
  "parse_ed25519_secret_key K bech32_str =
     (case extended_from_bech32 K bech32_str of
        Inr sk \<Rightarrow> Inr (Extended sk)
      | Inl _ \<Rightarrow> rbind (normal_from_bech32 K bech32_str) (\<lambda>sk. Inr (Normal sk)))"

section \<open>Signatures\<close>

datatype 'le cert_error =
    KeyInvalid 'le
  | NoSigningKeys
  | ExpectingOnlyOneSigningKey nat
  | OwnerStakeDelegationDoesntNeedSignature
  | MintTokenDoesntNeedSignature
  | VoteCastDoesntNeedSignature
  | KeyNotFound nat
  | InputInvalid

definition parse_key :: "('p, 'k, 'pk, 'sig, 'h, 'ad, 'w, 'le) sign_ops \<Rightarrow> string \<Rightarrow> ('le cert_error, 'k either_secret_key) result" where
  "parse_key K key_str = map_err KeyInvalid (parse_ed25519_secret_key K (str_trim key_str))"

definition committee_vote_tally_sign where
  "committee_vote_tally_sign K vote_tally key_str builder =
     rbind (parse_key K key_str) (\<lambda>private_key.
     Inr (SVoteTally vote_tally
       (if tally_private K vote_tally then TallyPrivate (to_public K private_key) (sign_builder K private_key builder)
        else TallyPublic (to_public K private_key) (sign_builder K private_key builder))))"

definition committee_vote_plan_sign where
  "committee_vote_plan_sign K vote_plan key_str builder =
     rbind (parse_key K key_str) (\<lambda>private_key.
     Inr (SVotePlan vote_plan (VotePlanProof (to_public K private_key) (sign_builder K private_key builder))))"

definition stake_delegation_account_binding_sign where
  "stake_delegation_account_binding_sign K delegation key_str builder =
     rbind (parse_key K key_str) (\<lambda>private_key.
     case delegation_account K delegation of
       None \<Rightarrow> Inr (SStakeDelegation delegation (AccountBinding (sign_builder K private_key builder)))
     | Some cert_pk \<Rightarrow>
         if cert_pk \<noteq> to_public K private_key then Inl (KeyNotFound 0)
         else Inr (SStakeDelegation delegation (AccountBinding (sign_builder K private_key builder))))"

definition update_proposal_sign where
  "update_proposal_sign K update_proposal key_str builder =
     rbind (parse_key K key_str) (\<lambda>private_key.
     Inr (SUpdateProposal update_proposal (BftLeaderBinding (sign_builder K private_key builder))))"

definition update_vote_sign where
  "update_vote_sign K update_vote key_str builder =
     rbind (parse_key K key_str) (\<lambda>private_key.
     Inr (SUpdateVote update_vote (BftLeaderBinding (sign_builder K private_key builder))))"

definition evm_mapping_sign where
  "evm_mapping_sign K evm_mapping key_str builder =
     rbind (parse_key K key_str) (\<lambda>private_key.
     Inr (SEvmMapping evm_mapping (SingleAccountBinding (sign_builder K private_key builder))))"

text \<open>The keys are parsed in order, up to the first that is malformed.\<close>

fun parse_keys ::
  "('p, 'k, 'pk, 'sig, 'h, 'ad, 'w, 'le) sign_ops \<Rightarrow> string list \<Rightarrow> ('le cert_error, 'k either_secret_key list) result" where
  "parse_keys K [] = Inr []"
| "parse_keys K (s # ss) = rbind (parse_key K s) (\<lambda>k. rbind (parse_keys K ss) (\<lambda>ks. Inr (k # ks)))"

text \<open>The first position of an element.\<close>

fun find_position :: "'a \<Rightarrow> 'a list \<Rightarrow> nat option" where
  "find_position x [] = None"
| "find_position x (y # ys) = (if y = x then Some 0 else map_option Suc (find_position x ys))"

text \<open>The index of an owner is cast to a byte.\<close>

fun owner_keys ::
  "('p, 'k, 'pk, 'sig, 'h, 'ad, 'w, 'le) sign_ops \<Rightarrow> 'pk list \<Rightarrow> nat \<Rightarrow> 'k either_secret_key list
    \<Rightarrow> ('le cert_error, (8 word \<times> 'k either_secret_key) list) result" where
  "owner_keys K owners isk [] = Inr []"
| "owner_keys K owners isk (k # ks) =
     (case find_position (to_public K k) owners of
        None \<Rightarrow> Inl (KeyNotFound isk)
      | Some ipk \<Rightarrow> rbind (owner_keys K owners (Suc isk) ks) (\<lambda>found. Inr ((of_nat ipk, k) # found)))"

definition pool_owner_sign where
  "pool_owner_sign K payload mreg keys_str builder to_signed_certificate =
     rbind (parse_keys K keys_str) (\<lambda>ks.
     rbind (case mreg of
              None \<Rightarrow> Inr (zip (map of_nat [0..<length ks]) ks)
            | Some reg \<Rightarrow> owner_keys K (pool_owners K reg) 0 ks) (\<lambda>ks.
     Inr (to_signed_certificate payload (PoolOwners (map (\<lambda>(i, k). (i, sign_builder K k builder)) ks)))))"

definition sign_one :: "string list \<Rightarrow> (string \<Rightarrow> ('le cert_error, 'a) result) \<Rightarrow> ('le cert_error, 'a) result" where
  "sign_one ks f = (if length ks = 1 then f (ks ! 0) else Inl (ExpectingOnlyOneSigningKey (length ks)))"

text \<open>The signature of a certificate; \<open>None\<close> for the certificates that have none.\<close>

fun sign_payload ::
  "('p, 'k, 'pk, 'sig, 'h, 'ad, 'w, 'le) sign_ops \<Rightarrow> 'p certificate \<Rightarrow> string list \<Rightarrow> ('p, 'h, 'ad, 'w) tx_builder
    \<Rightarrow> ('le cert_error, ('p, 'pk, 'sig) signed_certificate) result option" where
  "sign_payload K (CStakeDelegation s) ks b = Some (sign_one ks (\<lambda>k. stake_delegation_account_binding_sign K s k b))"
| "sign_payload K (CPoolRegistration s) ks b = Some (pool_owner_sign K s (Some s) ks b SPoolRegistration)"
| "sign_payload K (CPoolRetirement s) ks b = Some (pool_owner_sign K s None ks b SPoolRetirement)"
| "sign_payload K (CPoolUpdate s) ks b = Some (pool_owner_sign K s None ks b SPoolUpdate)"
| "sign_payload K (CVotePlan vp) ks b = Some (sign_one ks (\<lambda>k. committee_vote_plan_sign K vp k b))"
| "sign_payload K (CVoteTally vt) ks b = Some (sign_one ks (\<lambda>k. committee_vote_tally_sign K vt k b))"
| "sign_payload K (CUpdateProposal up) ks b = Some (sign_one ks (\<lambda>k. update_proposal_sign K up k b))"
| "sign_payload K (CUpdateVote uv) ks b = Some (sign_one ks (\<lambda>k. update_vote_sign K uv k b))"
| "sign_payload K (CEvmMapping uv) ks b = Some (sign_one ks (\<lambda>k. evm_mapping_sign K uv k b))"
| "sign_payload K (COwnerStakeDelegation _) ks b = None"
| "sign_payload K (CVoteCast _) ks b = None"
| "sign_payload K (CMintToken _) ks b = None"

text \<open>The command that signs a certificate on its own.\<close>

definition certificate_sign ::
  "('p, 'k, 'pk, 'sig, 'h, 'ad, 'w, 'le) sign_ops \<Rightarrow> 'p certificate \<Rightarrow> string list
    \<Rightarrow> ('le cert_error, ('p, 'pk, 'sig) signed_certificate) result" where
  "certificate_sign K cert keys_str =
     (if keys_str = [] then Inl NoSigningKeys
      else case sign_payload K cert keys_str (block0_payload_builder K cert) of
             Some r \<Rightarrow> r
           | None \<Rightarrow> (case cert of
                        COwnerStakeDelegation _ \<Rightarrow> Inl OwnerStakeDelegationDoesntNeedSignature
                      | CVoteCast _ \<Rightarrow> Inl VoteCastDoesntNeedSignature
                      | _ \<Rightarrow> Inl MintTokenDoesntNeedSignature))"

section \<open>What a signature is\<close>

lemmas sign_defs = committee_vote_tally_sign_def committee_vote_plan_sign_def stake_delegation_account_binding_sign_def
  update_proposal_sign_def update_vote_sign_def evm_mapping_sign_def

lemma sign_payload_None:
  "sign_payload K c ks b = None \<longleftrightarrow> (case c of COwnerStakeDelegation _ \<Rightarrow> True | CVoteCast _ \<Rightarrow> True | CMintToken _ \<Rightarrow> True | _ \<Rightarrow> False)"
  by (cases c) simp_all

text \<open>Signing does not change the certificate.\<close>

lemma sign_payload_strip: "sign_payload K c ks b = Some (Inr sc) \<Longrightarrow> strip_auth sc = c"
  by (cases c) (auto simp: sign_one_def sign_defs pool_owner_sign_def rbind_eq_Inr_conv split: if_splits option.splits)

lemma find_position_Some: "find_position x xs = Some i \<Longrightarrow> i < length xs \<and> xs ! i = x"
  by (induction xs arbitrary: i) (auto split: if_splits)

lemma find_position_None: "find_position x xs = None \<longleftrightarrow> x \<notin> set xs"
  by (induction xs) auto

lemma owner_keys_found:
  "set (map (to_public K) ks) \<subseteq> set owners \<Longrightarrow>
     owner_keys K owners n ks = Inr (map (\<lambda>k. (of_nat (the (find_position (to_public K k) owners)), k)) ks)"
proof (induction ks arbitrary: n)
  case (Cons k ks)
  then obtain i where "find_position (to_public K k) owners = Some i" using find_position_None [of "to_public K k" owners] by auto
  with Cons show ?case by simp
qed simp

lemma owner_keys_error:
  "\<not> set (map (to_public K) ks) \<subseteq> set owners \<Longrightarrow>
     \<exists>j<length ks. owner_keys K owners n ks = Inl (KeyNotFound (n + j)) \<and> to_public K (ks ! j) \<notin> set owners
       \<and> (\<forall>m<j. to_public K (ks ! m) \<in> set owners)"
proof (induction ks arbitrary: n)
  case (Cons k ks)
  show ?case
  proof (cases "find_position (to_public K k) owners")
    case None
    then have "to_public K k \<notin> set owners" by (simp add: find_position_None)
    with None show ?thesis by (intro exI [of _ 0]) simp
  next
    case (Some i)
    then have k: "to_public K k \<in> set owners" using find_position_None [of "to_public K k" owners] by auto
    with Cons.prems have "\<not> set (map (to_public K) ks) \<subseteq> set owners" by auto
    from Cons.IH [OF this, of "Suc n"] obtain j where j: "j < length ks" "owner_keys K owners (Suc n) ks = Inl (KeyNotFound (Suc n + j))"
        "to_public K (ks ! j) \<notin> set owners" "\<forall>m<j. to_public K (ks ! m) \<in> set owners" by blast
    with k Some show ?thesis by (intro exI [of _ "Suc j"]) (auto simp: less_Suc_eq_0_disj)
  qed
qed simp

end
