(* ===== verification/Tx_Staging.thy ===== *)
theory Tx_Staging
  imports Tx_Certificate Actions
begin

text \<open>
  The staging of a transaction in the command line tool, \<^verbatim>\<open>jcli/src/jcli_lib/transaction\<close>: \<^verbatim>\<open>staging.rs\<close>, the
  commands that work on a staging file, and the all-in-one command of \<^verbatim>\<open>simplified.rs\<close>.

  A transaction goes through the stages balancing, finalizing, sealed and, when its certificate needs it, authed. The
  operations are actions on the staging; \<open>None\<close> is a panic. Fees, balancing, values and hashes are those of the
  ledger library, the record \<open>tx_ops\<close>. A command loads the file, runs an operation and stores the result; on an error or
  a panic the file keeps its contents.
\<close>

section \<open>Data\<close>

datatype staging_kind = Balancing | Finalizing | Sealed | Authed

record ('p, 'pk, 'sig, 'h, 'ad, 'w, 'ev) staging =
  st_kind :: staging_kind
  st_inputs :: "'h tx_input list"
  st_outputs :: "'ad tx_output list"
  st_valid_until :: "block_date option"
  st_witnesses :: "'w list"
  st_extra :: "'p certificate option"
  st_extra_authed :: "('p, 'pk, 'sig) signed_certificate option"
  st_evm_transaction :: "'ev option"

definition staging_kind_display :: "staging_kind \<Rightarrow> string" where
  "staging_kind_display k =
     (case k of Balancing \<Rightarrow> ''balancing'' | Finalizing \<Rightarrow> ''finalizing'' | Sealed \<Rightarrow> ''sealed'' | Authed \<Rightarrow> ''authed'')"

datatype 'le tx_error =
    SecretKeyReadFailed 'le
  | WitnessFileReadFailed
  | WitnessFileBech32Malformed
  | WitnessFileBech32HrpInvalid string
  | WitnessFileDeserializationFailed
  | TxKindToAddExtraInvalid staging_kind
  | TxKindToAddInputInvalid staging_kind
  | TxKindToAddOutputInvalid staging_kind
  | TxKindToAddWitnessInvalid staging_kind
  | TxKindToSealInvalid staging_kind
  | TxKindToFinalizeInvalid staging_kind
  | TxKindToGetMessageInvalid staging_kind
  | TxKindToSignDataHashInvalid staging_kind
  | TxKindToSetValidityTimeInvalid staging_kind
  | TooManyWitnessesToAddWitness nat nat
  | WitnessCountToSealInvalid nat nat
  | AccountAddressSingle
  | AccountAddressGroup
  | AccountAddressScript
  | TxFinalizationFailed 'le
  | InfoCalculationFailed 'le
  | InfoExpectedSingleAccount
  | MakeWitnessAccountCounterMissing
  | MakeWitnessAccountInvalidCounterLane nat nat
  | TxDoesntNeedPayloadAuth
  | TxNeedPayloadAuth
  | TxNoSigningKeys
  | CertificateError "'le cert_error"
  | TxWithOwnerStakeDelegationMultiInputs nat
  | TxWithOwnerStakeDelegationHasUtxoInput
  | TxWithOwnerStakeDelegationHasOutputs
  | InvalidBlock0HeaderHash
  | CancelByUser
  | CannotFinalizeWithoutValidUntil

datatype 'h address_kind = KAccount 'h | KMultisig 'h | KSingle | KGroup | KScript

datatype 'ad output_policy = Forget | One 'ad

datatype balance = Positive u64 | Negative u64 | Zero

text \<open>
  The libraries. \<open>ios_new\<close> says whether the builder of inputs and outputs accepts them, \<open>ios_seal\<close> balances the ones
  it was made of and \<open>ios_build\<close> gives them back.
\<close>

record ('p, 'k, 'pk, 'sig, 'h, 'ad, 'w, 'fee, 'le) tx_ops =
  tx_sign :: "('p, 'k, 'pk, 'sig, 'h, 'ad, 'w, 'le) sign_ops"
  cert_need_auth :: "'p certificate \<Rightarrow> bool"
  ios_new :: "'h tx_input list \<Rightarrow> 'ad tx_output list \<Rightarrow> bool"
  ios_seal :: "'h tx_input list \<Rightarrow> 'ad tx_output list \<Rightarrow> 'p certificate option \<Rightarrow> 'fee \<Rightarrow> 'ad output_policy
    \<Rightarrow> ('le, balance \<times> 'ad tx_output list) result"
  ios_build :: "'h tx_input list \<Rightarrow> 'ad tx_output list \<Rightarrow> 'h tx_input list \<times> 'ad tx_output list"
  sign_data_hash :: "('p, 'h, 'ad, 'w) tx_builder \<Rightarrow> 'h"
  fee_calculate :: "'fee \<Rightarrow> 'p certificate option \<Rightarrow> 8 word \<Rightarrow> 8 word \<Rightarrow> u64"
  value_sum :: "u64 list \<Rightarrow> ('le, u64) result"
  value_add :: "u64 \<Rightarrow> u64 \<Rightarrow> ('le, u64) result"
  value_sub :: "u64 \<Rightarrow> u64 \<Rightarrow> ('le, u64) result"
  value_saturating_add :: "u64 \<Rightarrow> u64 \<Rightarrow> u64"
  address_kind_of :: "'ad \<Rightarrow> 'h address_kind"
  from_single_account :: "'h \<Rightarrow> 'h"
  from_multi_account :: "'h \<Rightarrow> 'h"
  to_single_account :: "'h \<Rightarrow> 'h option"

section \<open>Balancing\<close>

definition staging_new :: "('p, 'pk, 'sig, 'h, 'ad, 'w, 'ev) staging" where
  "staging_new = \<lparr>st_kind = Balancing, st_inputs = [], st_outputs = [], st_valid_until = None, st_witnesses = [], st_extra = None,
     st_extra_authed = None, st_evm_transaction = None\<rparr>"

definition set_expiry_date :: "block_date \<Rightarrow> (('p, 'pk, 'sig, 'h, 'ad, 'w, 'ev) staging, 'le tx_error, unit) action" where
  "set_expiry_date date =
     act_bind act_get (\<lambda>s.
     if st_kind s \<noteq> Balancing then act_throw (TxKindToSetValidityTimeInvalid (st_kind s))
     else act_modify (\<lambda>s. s\<lparr>st_valid_until := Some date\<rparr>))"

definition add_input :: "'h tx_input \<Rightarrow> (('p, 'pk, 'sig, 'h, 'ad, 'w, 'ev) staging, 'le tx_error, unit) action" where
  "add_input input =
     act_bind act_get (\<lambda>s.
     if st_kind s \<noteq> Balancing then act_throw (TxKindToAddInputInvalid (st_kind s))
     else act_modify (\<lambda>s. s\<lparr>st_inputs := st_inputs s @ [input]\<rparr>))"

definition add_output :: "'ad tx_output \<Rightarrow> (('p, 'pk, 'sig, 'h, 'ad, 'w, 'ev) staging, 'le tx_error, unit) action" where
  "add_output output =
     act_bind act_get (\<lambda>s.
     if st_kind s \<noteq> Balancing then act_throw (TxKindToAddOutputInvalid (st_kind s))
     else act_modify (\<lambda>s. s\<lparr>st_outputs := st_outputs s @ [output]\<rparr>))"

definition add_account ::
  "('p, 'k, 'pk, 'sig, 'h, 'ad, 'w, 'fee, 'le) tx_ops \<Rightarrow> 'ad \<Rightarrow> u64 \<Rightarrow> (('p, 'pk, 'sig, 'h, 'ad, 'w, 'ev) staging, 'le tx_error, unit) action" where
  "add_account X account val =
     act_bind (case address_kind_of X account of
                 KAccount key \<Rightarrow> act_return (from_single_account X key)
               | KMultisig key \<Rightarrow> act_return (from_multi_account X key)
               | KSingle \<Rightarrow> act_throw AccountAddressSingle
               | KGroup \<Rightarrow> act_throw AccountAddressGroup
               | KScript \<Rightarrow> act_throw AccountAddressScript)
       (\<lambda>account_id. add_input \<lparr>ti_input = InputAccount account_id, ti_value = val\<rparr>)"

definition set_extra :: "'p certificate \<Rightarrow> (('p, 'pk, 'sig, 'h, 'ad, 'w, 'ev) staging, 'le tx_error, unit) action" where
  "set_extra extra =
     act_bind act_get (\<lambda>s.
     case st_kind s of
       Balancing \<Rightarrow> act_modify (\<lambda>s. s\<lparr>st_evm_transaction := None, st_extra := Some extra\<rparr>)
     | kind \<Rightarrow> act_throw (TxKindToAddExtraInvalid kind))"

definition set_evm_transaction :: "'ev \<Rightarrow> (('p, 'pk, 'sig, 'h, 'ad, 'w, 'ev) staging, 'le tx_error, unit) action" where
  "set_evm_transaction evm_transaction =
     act_bind act_get (\<lambda>s.
     case st_kind s of
       Balancing \<Rightarrow> act_modify (\<lambda>s. s\<lparr>st_evm_transaction := Some evm_transaction, st_extra := None\<rparr>)
     | kind \<Rightarrow> act_throw (TxKindToAddExtraInvalid kind))"

text \<open>The builder of inputs and outputs is unwrapped.\<close>

definition get_inputs_outputs ::
  "('p, 'k, 'pk, 'sig, 'h, 'ad, 'w, 'fee, 'le) tx_ops \<Rightarrow> (('p, 'pk, 'sig, 'h, 'ad, 'w, 'ev) staging, 'le tx_error, unit) action" where
  "get_inputs_outputs X = act_bind act_get (\<lambda>s. if ios_new X (st_inputs s) (st_outputs s) then act_return () else act_panic)"

fun add_outputs :: "'ad tx_output list \<Rightarrow> (('p, 'pk, 'sig, 'h, 'ad, 'w, 'ev) staging, 'le tx_error, unit) action" where
  "add_outputs [] = act_return ()"
| "add_outputs (o' # os) = act_bind (add_output o') (\<lambda>_. add_outputs os)"

definition finalize_payload ::
  "('p, 'k, 'pk, 'sig, 'h, 'ad, 'w, 'fee, 'le) tx_ops \<Rightarrow> 'p certificate option \<Rightarrow> 'fee \<Rightarrow> 'ad output_policy
    \<Rightarrow> (('p, 'pk, 'sig, 'h, 'ad, 'w, 'ev) staging, 'le tx_error, balance) action" where
  "finalize_payload X payload fee_algorithm output_policy =
     act_bind act_get (\<lambda>s.
     if st_valid_until s = None then act_throw CannotFinalizeWithoutValidUntil
     else
       act_bind (get_inputs_outputs X) (\<lambda>_.
       act_bind (act_result (map_err TxFinalizationFailed (ios_seal X (st_inputs s) (st_outputs s) payload fee_algorithm output_policy)))
         (\<lambda>(bal, added_outputs).
       act_bind (add_outputs added_outputs) (\<lambda>_.
       act_bind (act_modify (\<lambda>s. s\<lparr>st_kind := Finalizing\<rparr>)) (\<lambda>_.
       act_return bal)))))"

definition balance_inputs_outputs ::
  "('p, 'k, 'pk, 'sig, 'h, 'ad, 'w, 'fee, 'le) tx_ops \<Rightarrow> 'fee \<Rightarrow> 'ad output_policy
    \<Rightarrow> (('p, 'pk, 'sig, 'h, 'ad, 'w, 'ev) staging, 'le tx_error, balance) action" where
  "balance_inputs_outputs X fee_algorithm output_policy =
     act_bind act_get (\<lambda>s.
     if st_kind s \<noteq> Balancing then act_throw (TxKindToFinalizeInvalid (st_kind s))
     else case st_extra s of
            Some (COwnerStakeDelegation c) \<Rightarrow>
              act_bind (finalize_payload X (Some (COwnerStakeDelegation c)) fee_algorithm output_policy) (\<lambda>bal.
              act_bind act_get (\<lambda>s.
              case st_inputs s of
                [input] \<Rightarrow>
                  (case ti_input input of
                     InputUtxo _ _ \<Rightarrow> act_throw TxWithOwnerStakeDelegationHasUtxoInput
                   | InputAccount _ \<Rightarrow>
                       if st_outputs s \<noteq> [] then act_throw TxWithOwnerStakeDelegationHasOutputs else act_return bal)
              | inputs \<Rightarrow> act_throw (TxWithOwnerStakeDelegationMultiInputs (length inputs))))
          | payload \<Rightarrow> finalize_payload X payload fee_algorithm output_policy)"

section \<open>Witnesses, seal and authentication\<close>

definition add_witness :: "'w \<Rightarrow> (('p, 'pk, 'sig, 'h, 'ad, 'w, 'ev) staging, 'le tx_error, unit) action" where
  "add_witness witness =
     act_bind act_get (\<lambda>s.
     if st_kind s \<noteq> Finalizing then act_throw (TxKindToAddWitnessInvalid (st_kind s))
     else if length (st_inputs s) \<le> length (st_witnesses s)
     then act_throw (TooManyWitnessesToAddWitness (length (st_witnesses s)) (length (st_inputs s)))
     else act_modify (\<lambda>s. s\<lparr>st_witnesses := st_witnesses s @ [witness]\<rparr>))"

definition seal :: "(('p, 'pk, 'sig, 'h, 'ad, 'w, 'ev) staging, 'le tx_error, unit) action" where
  "seal =
     act_bind act_get (\<lambda>s.
     if st_kind s \<noteq> Finalizing then act_throw (TxKindToSealInvalid (st_kind s))
     else if length (st_inputs s) \<noteq> length (st_witnesses s)
     then act_throw (WitnessCountToSealInvalid (length (st_witnesses s)) (length (st_inputs s)))
     else act_modify (\<lambda>s. s\<lparr>st_kind := Sealed\<rparr>))"

definition need_auth :: "('p, 'k, 'pk, 'sig, 'h, 'ad, 'w, 'fee, 'le) tx_ops \<Rightarrow> ('p, 'pk, 'sig, 'h, 'ad, 'w, 'ev) staging \<Rightarrow> bool" where
  "need_auth X s = (case st_extra s of None \<Rightarrow> False | Some c \<Rightarrow> cert_need_auth X c)"

definition builder_after_witness ::
  "('p, 'k, 'pk, 'sig, 'h, 'ad, 'w, 'fee, 'le) tx_ops \<Rightarrow> 'p certificate option
    \<Rightarrow> (('p, 'pk, 'sig, 'h, 'ad, 'w, 'ev) staging, 'le tx_error, ('p, 'h, 'ad, 'w) tx_builder) action" where
  "builder_after_witness X payload =
     act_bind act_get (\<lambda>s.
     if length (st_witnesses s) \<noteq> length (st_inputs s) then act_throw (TxKindToFinalizeInvalid (st_kind s))
     else
       act_bind (get_inputs_outputs X) (\<lambda>_.
       act_bind (act_unwrap (st_valid_until s)) (\<lambda>valid_until.
       let (inputs, outputs) = ios_build X (st_inputs s) (st_outputs s)
       in act_return \<lparr>tb_payload = payload, tb_expiry = valid_until, tb_inputs = inputs, tb_outputs = outputs,
            tb_witnesses = st_witnesses s\<rparr>)))"

definition set_auth ::
  "('p, 'k, 'pk, 'sig, 'h, 'ad, 'w, 'fee, 'le) tx_ops \<Rightarrow> string list
    \<Rightarrow> (('p, 'pk, 'sig, 'h, 'ad, 'w, 'ev) staging, 'le tx_error, unit) action" where
  "set_auth X ks =
     act_bind act_get (\<lambda>s.
     if st_kind s \<noteq> Sealed then act_throw (TxKindToSealInvalid (st_kind s))
     else if \<not> need_auth X s then act_throw TxDoesntNeedPayloadAuth
     else case st_extra s of
            None \<Rightarrow> act_panic
          | Some (COwnerStakeDelegation _) \<Rightarrow> act_panic
          | Some (CVoteCast _) \<Rightarrow> act_panic
          | Some (CMintToken _) \<Rightarrow> act_panic
          | Some c \<Rightarrow>
              act_bind (builder_after_witness X (Some c)) (\<lambda>builder.
              act_bind (act_unwrap (sign_payload (tx_sign X) c ks builder)) (\<lambda>r.
              act_bind (act_result (map_err CertificateError r)) (\<lambda>sc.
              act_bind (act_modify (\<lambda>s. s\<lparr>st_extra_authed := Some sc\<rparr>)) (\<lambda>_.
              act_modify (\<lambda>s. s\<lparr>st_kind := Authed\<rparr>))))))"

section \<open>Reading the result\<close>

text \<open>A fragment is the kind of its payload, a transaction and the authentication of the payload.\<close>

datatype ('p, 'pk, 'sig, 'h, 'ad, 'w) tx_fragment =
    TxFragment (tf_tx: "('p, 'h, 'ad, 'w) tx_builder") (tf_auth: "('pk, 'sig) payload_auth")

definition make_fragment ::
  "('p, 'k, 'pk, 'sig, 'h, 'ad, 'w, 'fee, 'le) tx_ops \<Rightarrow> 'p certificate option \<Rightarrow> ('pk, 'sig) payload_auth
    \<Rightarrow> (('p, 'pk, 'sig, 'h, 'ad, 'w, 'ev) staging, 'le tx_error, ('p, 'pk, 'sig, 'h, 'ad, 'w) tx_fragment) action" where
  "make_fragment X payload auth = act_bind (builder_after_witness X payload) (\<lambda>tx. act_return (TxFragment tx auth))"

fun signed_auth :: "('p, 'pk, 'sig) signed_certificate \<Rightarrow> ('pk, 'sig) payload_auth" where
  "signed_auth (SStakeDelegation _ a) = a"
| "signed_auth (SOwnerStakeDelegation _ a) = a"
| "signed_auth (SPoolRegistration _ a) = a"
| "signed_auth (SPoolRetirement _ a) = a"
| "signed_auth (SPoolUpdate _ a) = a"
| "signed_auth (SVotePlan _ a) = a"
| "signed_auth (SVoteTally _ a) = a"
| "signed_auth (SUpdateProposal _ a) = a"
| "signed_auth (SUpdateVote _ a) = a"
| "signed_auth (SEvmMapping _ a) = a"

definition tx_fragment_of ::
  "('p, 'k, 'pk, 'sig, 'h, 'ad, 'w, 'fee, 'le) tx_ops
    \<Rightarrow> (('p, 'pk, 'sig, 'h, 'ad, 'w, 'ev) staging, 'le tx_error, ('p, 'pk, 'sig, 'h, 'ad, 'w) tx_fragment) action" where
  "tx_fragment_of X =
     act_bind act_get (\<lambda>s.
     case st_extra_authed s of
       None \<Rightarrow>
         if st_kind s \<noteq> Sealed then act_throw (TxKindToGetMessageInvalid (st_kind s))
         else if need_auth X s then act_throw TxNeedPayloadAuth
         else (case st_extra s of
                 None \<Rightarrow> make_fragment X None NoAuth
               | Some (COwnerStakeDelegation osd) \<Rightarrow> make_fragment X (Some (COwnerStakeDelegation osd)) NoAuth
               | Some (CVoteCast vote_cast) \<Rightarrow> make_fragment X (Some (CVoteCast vote_cast)) NoAuth
               | Some (CMintToken mint_token) \<Rightarrow> make_fragment X (Some (CMintToken mint_token)) NoAuth
               | Some _ \<Rightarrow> act_panic)
     | Some signed_cert \<Rightarrow>
         if st_kind s \<noteq> Authed then act_throw (TxKindToGetMessageInvalid (st_kind s))
         else make_fragment X (Some (strip_auth signed_cert)) (signed_auth signed_cert))"

definition transaction_sign_data_hash ::
  "('p, 'k, 'pk, 'sig, 'h, 'ad, 'w, 'fee, 'le) tx_ops \<Rightarrow> (('p, 'pk, 'sig, 'h, 'ad, 'w, 'ev) staging, 'le tx_error, 'h) action" where
  "transaction_sign_data_hash X =
     act_bind act_get (\<lambda>s.
     if st_kind s \<noteq> Finalizing then act_throw (TxKindToSignDataHashInvalid (st_kind s))
     else
       act_bind (act_unwrap (st_valid_until s)) (\<lambda>valid_until.
       act_return (sign_data_hash X \<lparr>tb_payload = st_extra s, tb_expiry = valid_until, tb_inputs = st_inputs s,
         tb_outputs = st_outputs s, tb_witnesses = []\<rparr>)))"

definition total_input ::
  "('p, 'k, 'pk, 'sig, 'h, 'ad, 'w, 'fee, 'le) tx_ops \<Rightarrow> ('p, 'pk, 'sig, 'h, 'ad, 'w, 'ev) staging \<Rightarrow> ('le, u64) result" where
  "total_input X s = value_sum X (map ti_value (st_inputs s))"

definition total_output ::
  "('p, 'k, 'pk, 'sig, 'h, 'ad, 'w, 'fee, 'le) tx_ops \<Rightarrow> ('p, 'pk, 'sig, 'h, 'ad, 'w, 'ev) staging \<Rightarrow> ('le, u64) result" where
  "total_output X s = value_sum X (map to_value (st_outputs s))"

text \<open>The numbers of inputs and outputs are cast to bytes.\<close>

definition tx_fees ::
  "('p, 'k, 'pk, 'sig, 'h, 'ad, 'w, 'fee, 'le) tx_ops \<Rightarrow> 'fee \<Rightarrow> ('p, 'pk, 'sig, 'h, 'ad, 'w, 'ev) staging \<Rightarrow> u64" where
  "tx_fees X fee_algorithm s =
     fee_calculate X fee_algorithm
       (case st_extra_authed s of Some cert \<Rightarrow> Some (strip_auth cert) | None \<Rightarrow> st_extra s)
       (of_nat (length (st_inputs s))) (of_nat (length (st_outputs s)))"

definition tx_balance ::
  "('p, 'k, 'pk, 'sig, 'h, 'ad, 'w, 'fee, 'le) tx_ops \<Rightarrow> 'fee \<Rightarrow> ('p, 'pk, 'sig, 'h, 'ad, 'w, 'ev) staging \<Rightarrow> ('le, balance) result" where
  "tx_balance X fee_algorithm s =
     rbind (value_sum X (map ti_value (st_inputs s))) (\<lambda>inputs.
     rbind (value_sum X (map to_value (st_outputs s))) (\<lambda>outputs.
     rbind (value_add X outputs (tx_fees X fee_algorithm s)) (\<lambda>z.
     if z < inputs then rbind (value_sub X inputs z) (\<lambda>d. Inr (Positive d))
     else if inputs < z then rbind (value_sub X z inputs) (\<lambda>d. Inr (Negative d))
     else Inr Zero)))"

end
