(* ===== verification/Tx_Commands.thy ===== *)
theory Tx_Commands
  imports Tx_Staging
begin

text \<open>
  The commands of \<^verbatim>\<open>jcli transaction\<close>: those that change a staging file, the making of witnesses
  (\<^verbatim>\<open>mk_witness.rs\<close>), the display of a transaction (\<^verbatim>\<open>info.rs\<close>), and the all-in-one
  command (\<^verbatim>\<open>simplified.rs\<close>). What a command reads from other files, from the node or from the user is an
  argument.
\<close>

section \<open>Fees\<close>

record common_fees =
  cf_constant :: u64
  cf_coefficient :: u64
  cf_certificate :: u64
  cf_pool_registration :: "u64 option"
  cf_stake_delegation :: "u64 option"
  cf_owner_stake_delegation :: "u64 option"
  cf_vote_plan :: "u64 option"
  cf_vote_cast :: "u64 option"

text \<open>The constructors of the fees and the decoding of a witness in the libraries.\<close>

record ('w, 'fee, 'dt) command_ops =
  linear_fee_new :: "u64 \<Rightarrow> u64 \<Rightarrow> u64 \<Rightarrow> u64 option \<times> u64 option \<times> u64 option \<Rightarrow> u64 option \<times> u64 option \<Rightarrow> 'fee"
  bech32_decode :: "string \<Rightarrow> (string \<times> 'dt) option"
  from_base32 :: "'dt \<Rightarrow> 8 word list option"
  witness_deserialize :: "8 word list \<Rightarrow> 'w option"

definition nonzero :: "u64 option \<Rightarrow> u64 option" where
  "nonzero v = Option.bind v (\<lambda>n. if n = 0 then None else Some n)"

definition linear_fee :: "('w, 'fee, 'dt) command_ops \<Rightarrow> common_fees \<Rightarrow> 'fee" where
  "linear_fee F fees =
     linear_fee_new F (cf_constant fees) (cf_coefficient fees) (cf_certificate fees)
       (nonzero (cf_pool_registration fees), nonzero (cf_stake_delegation fees), nonzero (cf_owner_stake_delegation fees))
       (nonzero (cf_vote_plan fees), nonzero (cf_vote_cast fees))"

section \<open>Commands on a staging file\<close>

definition tx_finalize ::
  "('p, 'k, 'pk, 'sig, 'h, 'ad, 'w, 'fee, 'le) tx_ops \<Rightarrow> ('w, 'fee, 'dt) command_ops \<Rightarrow> common_fees \<Rightarrow> 'ad option
    \<Rightarrow> (('p, 'pk, 'sig, 'h, 'ad, 'w, 'ev) staging, 'le tx_error, unit) action" where
  "tx_finalize X F fee change =
     act_bind (balance_inputs_outputs X (linear_fee F fee) (case change of None \<Rightarrow> Forget | Some a \<Rightarrow> One a)) (\<lambda>_. act_return ())"

text \<open>A witness is the first line of a file, in Bech32 with the prefix \<^verbatim>\<open>witness\<close>; \<open>None\<close> is a file that cannot be read.\<close>

definition read_witness :: "('w, 'fee, 'dt) command_ops \<Rightarrow> string option \<Rightarrow> ('le tx_error, 'w) result" where
  "read_witness F line =
     (case line of
        None \<Rightarrow> Inl WitnessFileReadFailed
      | Some bech32_str \<Rightarrow>
          (case bech32_decode F (str_trim bech32_str) of
             None \<Rightarrow> Inl WitnessFileBech32Malformed
           | Some (hrp, d) \<Rightarrow>
               if hrp \<noteq> ''witness'' then Inl (WitnessFileBech32HrpInvalid hrp)
               else (case from_base32 F d of
                       None \<Rightarrow> Inl WitnessFileBech32Malformed
                     | Some bytes \<Rightarrow>
                         (case witness_deserialize F bytes of
                            None \<Rightarrow> Inl WitnessFileDeserializationFailed
                          | Some w \<Rightarrow> Inr w))))"

text \<open>The keys of an authentication are files too.\<close>

fun read_keys :: "string option list \<Rightarrow> ('le tx_error, string list) result" where
  "read_keys [] = Inr []"
| "read_keys (None # _) = Inl (CertificateError InputInvalid)"
| "read_keys (Some s # ss) = rbind (read_keys ss) (\<lambda>ks. Inr (s # ks))"

definition tx_auth ::
  "('p, 'k, 'pk, 'sig, 'h, 'ad, 'w, 'fee, 'le) tx_ops \<Rightarrow> string option list
    \<Rightarrow> (('p, 'pk, 'sig, 'h, 'ad, 'w, 'ev) staging, 'le tx_error, unit) action" where
  "tx_auth X signing_keys =
     (if signing_keys = [] then act_throw TxNoSigningKeys
      else act_bind (act_result (read_keys signing_keys)) (set_auth X))"

datatype ('p, 'h, 'ad, 'ev) tx_command =
    New
  | AddInput 'h "8 word" u64
  | AddAccount 'ad u64
  | AddOutput 'ad u64
  | AddWitness "string option"
  | SetExpiryDate block_date
  | AddCertificate "'p certificate"
  | AddEvmTransaction 'ev
  | Finalize common_fees "'ad option"
  | Seal
  | Auth "string option list"

fun tx_operation ::
  "('p, 'k, 'pk, 'sig, 'h, 'ad, 'w, 'fee, 'le) tx_ops \<Rightarrow> ('w, 'fee, 'dt) command_ops \<Rightarrow> ('p, 'h, 'ad, 'ev) tx_command
    \<Rightarrow> (('p, 'pk, 'sig, 'h, 'ad, 'w, 'ev) staging, 'le tx_error, unit) action" where
  "tx_operation X F New = act_modify (\<lambda>_. staging_new)"
| "tx_operation X F (AddInput transaction_id index val) = add_input \<lparr>ti_input = InputUtxo transaction_id index, ti_value = val\<rparr>"
| "tx_operation X F (AddAccount account val) = add_account X account val"
| "tx_operation X F (AddOutput address val) = add_output \<lparr>to_address = address, to_value = val\<rparr>"
| "tx_operation X F (AddWitness line) = act_bind (act_result (read_witness F line)) add_witness"
| "tx_operation X F (SetExpiryDate date) = set_expiry_date date"
| "tx_operation X F (AddCertificate certificate) = set_extra certificate"
| "tx_operation X F (AddEvmTransaction ev) = set_evm_transaction ev"
| "tx_operation X F (Finalize fee change) = tx_finalize X F fee change"
| "tx_operation X F Seal = seal"
| "tx_operation X F (Auth signing_keys) = tx_auth X signing_keys"

text \<open>The contents of the file after a command: only a successful operation is stored.\<close>

definition tx_exec ::
  "('p, 'k, 'pk, 'sig, 'h, 'ad, 'w, 'fee, 'le) tx_ops \<Rightarrow> ('w, 'fee, 'dt) command_ops \<Rightarrow> ('p, 'h, 'ad, 'ev) tx_command
    \<Rightarrow> ('p, 'pk, 'sig, 'h, 'ad, 'w, 'ev) staging \<Rightarrow> ('p, 'pk, 'sig, 'h, 'ad, 'w, 'ev) staging" where
  "tx_exec X F c s = (case tx_operation X F c s of Some (Inr _, s') \<Rightarrow> s' | _ \<Rightarrow> s)"

section \<open>Witnesses\<close>

datatype witness_type = UTxO | OldUTxO | WAccount

definition witness_type_from_str :: "string \<Rightarrow> witness_type option" where
  "witness_type_from_str s =
     (if s = ''utxo'' then Some UTxO else if s = ''legacy-utxo'' then Some OldUTxO else if s = ''account'' then Some WAccount else None)"

record ('k, 'h, 'w) witness_ops =
  new_utxo :: "'h \<Rightarrow> 'h \<Rightarrow> 'k either_secret_key \<Rightarrow> 'w"
  new_old_utxo :: "'h \<Rightarrow> 'h \<Rightarrow> 'k either_secret_key \<Rightarrow> 'w"
  new_account :: "'h \<Rightarrow> 'h \<Rightarrow> nat \<times> u32 \<Rightarrow> 'k either_secret_key \<Rightarrow> 'w"
  counter_lanes :: nat

definition make_witness ::
  "('k, 'h, 'w) witness_ops \<Rightarrow> witness_type \<Rightarrow> 'h \<Rightarrow> 'h \<Rightarrow> (nat \<times> u32) option \<Rightarrow> 'k either_secret_key \<Rightarrow> ('le tx_error, 'w) result" where
  "make_witness V witness_type genesis_block_hash sign_hash account_spending_counter secret_key =
     (case witness_type of
        UTxO \<Rightarrow> Inr (new_utxo V genesis_block_hash sign_hash secret_key)
      | OldUTxO \<Rightarrow> Inr (new_old_utxo V genesis_block_hash sign_hash secret_key)
      | WAccount \<Rightarrow>
          (case account_spending_counter of
             None \<Rightarrow> Inl MakeWitnessAccountCounterMissing
           | Some counter \<Rightarrow> Inr (new_account V genesis_block_hash sign_hash counter secret_key)))"

definition spending_counter :: "('k, 'h, 'w) witness_ops \<Rightarrow> u32 option \<Rightarrow> nat option \<Rightarrow> ('le tx_error, (nat \<times> u32) option) result" where
  "spending_counter V account_spending_counter counter_lane =
     (case account_spending_counter of
        None \<Rightarrow> Inr None
      | Some counter \<Rightarrow>
          (let lane = (case counter_lane of None \<Rightarrow> 0 | Some l \<Rightarrow> l)
           in if counter_lanes V < lane then Inl (MakeWitnessAccountInvalidCounterLane (counter_lanes V) lane)
              else Inr (Some (lane, counter))))"

definition mk_witness ::
  "('k, 'h, 'w) witness_ops \<Rightarrow> witness_type \<Rightarrow> 'h \<Rightarrow> 'h \<Rightarrow> u32 option \<Rightarrow> nat option \<Rightarrow> ('le, 'k either_secret_key) result
    \<Rightarrow> ('le tx_error, 'w) result" where
  "mk_witness V witness_type genesis_block_hash sign_hash counter lane secret_key =
     rbind (map_err SecretKeyReadFailed secret_key) (\<lambda>secret_key.
     rbind (spending_counter V counter lane) (\<lambda>sc.
     make_witness V witness_type genesis_block_hash sign_hash sc secret_key))"

section \<open>Information\<close>

datatype 'h input_info = UtxoInfo u64 'h "8 word" | AccountInfo u64 'h

record ('h, 'ad) tx_info =
  in_status :: string
  in_sign_data_hash :: 'h
  in_num_inputs :: nat
  in_num_outputs :: nat
  in_num_witnesses :: nat
  in_input :: u64
  in_output :: u64
  in_fee :: u64
  in_balance :: u64
  in_inputs :: "'h input_info list"
  in_outputs :: "'ad tx_output list"

fun input_infos :: "('p, 'k, 'pk, 'sig, 'h, 'ad, 'w, 'fee, 'le) tx_ops \<Rightarrow> 'h tx_input list \<Rightarrow> ('le tx_error, 'h input_info list) result" where
  "input_infos X [] = Inr []"
| "input_infos X (i # is) =
     (case ti_input i of
        InputUtxo utxo_ptr index \<Rightarrow> rbind (input_infos X is) (\<lambda>rest. Inr (UtxoInfo (ti_value i) utxo_ptr index # rest))
      | InputAccount account \<Rightarrow>
          (case to_single_account X account of
             None \<Rightarrow> Inl InfoExpectedSingleAccount
           | Some account_id \<Rightarrow> rbind (input_infos X is) (\<lambda>rest. Inr (AccountInfo (ti_value i) account_id # rest))))"

definition info ::
  "('p, 'k, 'pk, 'sig, 'h, 'ad, 'w, 'fee, 'le) tx_ops \<Rightarrow> ('w, 'fee, 'dt) command_ops \<Rightarrow> common_fees
    \<Rightarrow> (('p, 'pk, 'sig, 'h, 'ad, 'w, 'ev) staging, 'le tx_error, ('h, 'ad) tx_info) action" where
  "info X F fee =
     act_bind act_get (\<lambda>s.
     act_bind (act_result (input_infos X (st_inputs s))) (\<lambda>inputs.
     let fee_algo = linear_fee F fee in
     act_bind (act_result (map_err InfoCalculationFailed (tx_balance X fee_algo s))) (\<lambda>bal.
     act_bind (transaction_sign_data_hash X) (\<lambda>hash.
     act_bind (act_result (map_err InfoCalculationFailed (total_input X s))) (\<lambda>input.
     act_bind (act_result (map_err InfoCalculationFailed (total_output X s))) (\<lambda>output.
     act_return \<lparr>in_status = staging_kind_display (st_kind s), in_sign_data_hash = hash,
       in_num_inputs = length (st_inputs s), in_num_outputs = length (st_outputs s), in_num_witnesses = length (st_witnesses s),
       in_input = input, in_output = output, in_fee = tx_fees X fee_algo s,
       in_balance = (case bal of Negative v \<Rightarrow> v | Positive v \<Rightarrow> v | Zero \<Rightarrow> 0), in_inputs = inputs,
       in_outputs = st_outputs s\<rparr>))))))"

section \<open>A transaction in one command\<close>

text \<open>
  The settings of the node hold its fees. They are read from the node, as is the spending counter of the account.
\<close>

record settings_fees =
  sf_constant :: u64
  sf_coefficient :: u64
  sf_certificate :: u64
  sf_pool_registration :: "u64 option"
  sf_stake_delegation :: "u64 option"
  sf_owner_stake_delegation :: "u64 option"
  sf_vote_plan :: "u64 option"
  sf_vote_cast :: "u64 option"

definition common_fee_from_settings :: "settings_fees \<Rightarrow> common_fees" where
  "common_fee_from_settings fees =
     \<lparr>cf_constant = sf_constant fees, cf_coefficient = sf_coefficient fees, cf_certificate = sf_certificate fees,
      cf_pool_registration = sf_pool_registration fees, cf_stake_delegation = sf_owner_stake_delegation fees,
      cf_owner_stake_delegation = sf_owner_stake_delegation fees, cf_vote_plan = sf_vote_plan fees,
      cf_vote_cast = sf_vote_cast fees\<rparr>"

text \<open>
  \<open>settings_calculate\<close> is the fee the settings give for a plain transaction with one input and one output; \<open>confirm\<close> is the
  answer of the user, \<open>header_id\<close> the parsed hash of block 0 and \<open>counter\<close> the first counter of the account.
\<close>

definition make_transaction ::
  "('p, 'k, 'pk, 'sig, 'h, 'ad, 'w, 'fee, 'le) tx_ops \<Rightarrow> ('w, 'fee, 'dt) command_ops \<Rightarrow> ('k, 'h, 'w) witness_ops
    \<Rightarrow> settings_fees \<Rightarrow> u64 \<Rightarrow> bool \<Rightarrow> 'h option \<Rightarrow> nat \<times> u32 \<Rightarrow> 'ad \<Rightarrow> 'ad \<Rightarrow> 'k either_secret_key \<Rightarrow> u64 \<Rightarrow> block_date
    \<Rightarrow> 'ad option \<Rightarrow> bool \<Rightarrow> (('p, 'pk, 'sig, 'h, 'ad, 'w, 'ev) staging, 'le tx_error, unit) action" where
  "make_transaction X F V settings settings_calculate confirm header_id counter sender_account receiver_address secret_key val
       valid_until change force =
     act_bind (act_modify (\<lambda>_. staging_new)) (\<lambda>_.
     let fee = common_fee_from_settings settings; transfer_value = value_saturating_add X val settings_calculate in
     if \<not> force \<and> \<not> confirm then act_throw CancelByUser
     else
       act_bind (add_account X sender_account transfer_value) (\<lambda>_.
       act_bind (add_output \<lparr>to_address = receiver_address, to_value = val\<rparr>) (\<lambda>_.
       act_bind (set_expiry_date valid_until) (\<lambda>_.
       act_bind (tx_finalize X F fee change) (\<lambda>_.
       case header_id of
         None \<Rightarrow> act_throw InvalidBlock0HeaderHash
       | Some block0_hash \<Rightarrow>
           act_bind (transaction_sign_data_hash X) (\<lambda>hash.
           act_bind (act_result (make_witness V WAccount block0_hash hash (Some counter) secret_key)) (\<lambda>witness.
           act_bind (add_witness witness) (\<lambda>_.
           seal))))))))"

section \<open>Well-formed stagings\<close>

text \<open>What each stage has established.\<close>

definition staging_wf :: "('p, 'k, 'pk, 'sig, 'h, 'ad, 'w, 'fee, 'le) tx_ops \<Rightarrow> ('p, 'pk, 'sig, 'h, 'ad, 'w, 'ev) staging \<Rightarrow> bool" where
  "staging_wf X s \<longleftrightarrow>
     (st_extra s = None \<or> st_evm_transaction s = None)
   \<and> (case st_kind s of
        Balancing \<Rightarrow> st_witnesses s = [] \<and> st_extra_authed s = None
      | Finalizing \<Rightarrow> length (st_witnesses s) \<le> length (st_inputs s) \<and> st_valid_until s \<noteq> None \<and> st_extra_authed s = None
      | Sealed \<Rightarrow> length (st_witnesses s) = length (st_inputs s) \<and> st_valid_until s \<noteq> None \<and> st_extra_authed s = None
      | Authed \<Rightarrow> length (st_witnesses s) = length (st_inputs s) \<and> st_valid_until s \<noteq> None \<and> need_auth X s
          \<and> (\<exists>sc. st_extra_authed s = Some sc \<and> st_extra s = Some (strip_auth sc)))
   \<and> (\<forall>c. st_kind s \<noteq> Balancing \<and> st_extra s = Some (COwnerStakeDelegation c) \<longrightarrow>
        st_outputs s = [] \<and> (\<exists>a v. st_inputs s = [\<lparr>ti_input = InputAccount a, ti_value = v\<rparr>]))"

text \<open>An operation that succeeds on a well-formed staging leaves a well-formed one.\<close>

definition keeps_wf ::
  "('p, 'k, 'pk, 'sig, 'h, 'ad, 'w, 'fee, 'le) tx_ops \<Rightarrow> (('p, 'pk, 'sig, 'h, 'ad, 'w, 'ev) staging, 'err, 'a) action \<Rightarrow> bool" where
  "keeps_wf X m \<longleftrightarrow> (\<forall>s x s'. staging_wf X s \<longrightarrow> m s = Some (Inr x, s') \<longrightarrow> staging_wf X s')"

lemma keeps_wfD: "keeps_wf X m \<Longrightarrow> staging_wf X s \<Longrightarrow> m s = Some (Inr x, s') \<Longrightarrow> staging_wf X s'"
  by (auto simp: keeps_wf_def)

lemma staging_new_wf: "staging_wf X staging_new"
  by (simp add: staging_wf_def staging_new_def)

lemma balancing_ops_wf:
  "keeps_wf X (add_input i)" "keeps_wf X (add_output o')" "keeps_wf X (set_expiry_date d)"
  "keeps_wf X (set_extra c)" "keeps_wf X (set_evm_transaction ev)"
  by (auto simp: keeps_wf_def staging_wf_def add_input_def add_output_def set_expiry_date_def set_extra_def set_evm_transaction_def
      act_basic_defs split: if_splits staging_kind.splits)

lemma add_account_wf: "keeps_wf X (add_account Y a v)"
  using balancing_ops_wf(1) by (auto simp: keeps_wf_def add_account_def act_bind_Inr act_basic_defs split: address_kind.splits)

lemma witness_ops_wf: "keeps_wf X (add_witness w)" "keeps_wf X seal"
  by (auto simp: keeps_wf_def staging_wf_def add_witness_def seal_def act_basic_defs split: if_splits)

lemma add_outputs_ok:
  "add_outputs os s = Some (Inr () :: ('le tx_error, unit) result, s') \<Longrightarrow> s' = s\<lparr>st_outputs := st_outputs s @ os\<rparr> \<and> (os \<noteq> [] \<longrightarrow> st_kind s = Balancing)"
proof (induction os arbitrary: s)
  case (Cons o' os)
  then have "st_kind s = Balancing" "add_outputs os (s\<lparr>st_outputs := st_outputs s @ [o']\<rparr>) = Some (Inr () :: ('le tx_error, unit) result, s')"
    by (auto simp: act_bind_Inr add_output_def act_basic_defs split: if_splits)
  with Cons.IH [OF this(2)] show ?case by simp
qed simp

lemma finalize_payload_ok:
  assumes "finalize_payload X payload fee policy s = Some (Inr bal, s')"
  shows "st_valid_until s \<noteq> None \<and> ios_new X (st_inputs s) (st_outputs s) \<and>
    (\<exists>added. ios_seal X (st_inputs s) (st_outputs s) payload fee policy = Inr (bal, added) \<and>
       s' = s\<lparr>st_outputs := st_outputs s @ added, st_kind := Finalizing\<rparr>)"
  using assms
  by (auto simp: finalize_payload_def get_inputs_outputs_def act_bind_Inr act_result_bind_Inr act_basic_defs map_err_eq_Inr_conv
      split: if_splits dest!: add_outputs_ok)

lemma account_input: "ti_input i = InputAccount a \<Longrightarrow> \<exists>a v. i = \<lparr>ti_input = InputAccount a, ti_value = v\<rparr>"
  by (cases i) auto

lemma balance_ok:
  assumes "balance_inputs_outputs X fee policy s = Some (Inr bal, s')"
  shows "st_kind s = Balancing \<and> finalize_payload X (st_extra s) fee policy s = Some (Inr bal, s') \<and>
    (\<forall>c. st_extra s = Some (COwnerStakeDelegation c) \<longrightarrow>
       st_outputs s' = [] \<and> (\<exists>a v. st_inputs s' = [\<lparr>ti_input = InputAccount a, ti_value = v\<rparr>]))"
proof (cases "\<exists>c. st_extra s = Some (COwnerStakeDelegation c)")
  case True
  then obtain c where c: "st_extra s = Some (COwnerStakeDelegation c)" by blast
  from assms c show ?thesis
    by (auto simp: balance_inputs_outputs_def act_bind_Inr act_basic_defs split: if_splits list.splits input_type.splits
        intro: account_input)
next
  case False
  with assms show ?thesis
    by (cases "st_extra s") (auto simp: balance_inputs_outputs_def act_basic_defs split: if_splits certificate.splits)
qed

lemma finalize_wf: "keeps_wf X (tx_finalize X F fee change)"
  unfolding keeps_wf_def
proof (intro allI impI)
  fix s s' and x :: unit
  assume "staging_wf X s" "tx_finalize X F fee change s = Some (Inr x, s')"
  then obtain bal policy where b: "balance_inputs_outputs X (linear_fee F fee) policy s = Some (Inr bal, s')"
    by (auto simp: tx_finalize_def act_bind_Inr)
  from balance_ok [OF b] finalize_payload_ok [of X "st_extra s" "linear_fee F fee" policy s bal s'] \<open>staging_wf X s\<close>
  show "staging_wf X s'" by (auto simp: staging_wf_def)
qed

lemma builder_after_witness_ok:
  assumes "builder_after_witness X payload s = Some (Inr b, s')"
  shows "s' = s \<and> length (st_witnesses s) = length (st_inputs s) \<and> ios_new X (st_inputs s) (st_outputs s)"
  using assms
  by (auto simp: builder_after_witness_def get_inputs_outputs_def act_bind_Inr act_basic_defs Let_def split_beta split: if_splits option.splits)

lemma set_auth_wf: "keeps_wf X (set_auth X ks)"
  unfolding keeps_wf_def
proof (intro allI impI)
  fix s s' and x :: unit
  assume wf: "staging_wf X s" and run: "set_auth X ks s = Some (Inr x, s')"
  from run obtain c where c: "st_kind s = Sealed" "need_auth X s" "st_extra s = Some c"
    by (auto simp: set_auth_def act_basic_defs split: if_splits option.splits)
  with run obtain b s1 sc where b: "builder_after_witness X (Some c) s = Some (Inr b, s1)"
      "sign_payload (tx_sign X) c ks b = Some (Inr sc)" "s' = s1\<lparr>st_extra_authed := Some sc, st_kind := Authed\<rparr>"
    by (cases c) (auto simp: set_auth_def act_bind_Inr act_result_bind_Inr map_err_eq_Inr_conv act_unwrap_def simp del: sign_payload.simps
      split: option.splits)
  from builder_after_witness_ok [OF b(1)] sign_payload_strip [OF b(2)] b(3) c wf show "staging_wf X s'"
    by (auto simp: staging_wf_def need_auth_def)
qed

lemma auth_wf: "keeps_wf X (tx_auth X ks)"
  by (auto simp: keeps_wf_def tx_auth_def act_result_bind_Inr act_basic_defs split: if_splits intro: keeps_wfD [OF set_auth_wf])

lemma operation_wf: "keeps_wf X (tx_operation X F c)"
proof (cases c)
  case New
  then show ?thesis by (simp add: keeps_wf_def staging_new_wf)
next
  case (AddWitness line)
  then show ?thesis by (auto simp: keeps_wf_def act_result_bind_Inr intro: keeps_wfD [OF witness_ops_wf(1)])
qed (simp_all add: balancing_ops_wf add_account_wf witness_ops_wf finalize_wf auth_wf)

lemma exec_wf:
  assumes "staging_wf X s"
  shows "staging_wf X (tx_exec X F c s)"
proof (cases "\<exists>s'. tx_operation X F c s = Some (Inr (), s')")
  case True
  then obtain s' where "tx_operation X F c s = Some (Inr (), s')" ..
  with keeps_wfD [OF operation_wf assms this] show ?thesis by (simp add: tx_exec_def)
next
  case False
  with assms show ?thesis by (auto simp: tx_exec_def split: option.splits sum.splits)
qed

lemma run_wf: "staging_wf X s \<Longrightarrow> staging_wf X (fold (tx_exec X F) cs s)"
  by (induction cs arbitrary: s) (simp_all add: exec_wf)

text \<open>
  Stagings stay well-formed (C18). Whatever commands run on a new staging file, the file holds a well-formed staging: each
  stage has what it needs (no witnesses while balancing, never more witnesses than inputs, an expiry date once
  finalized, a signature of exactly the certificate once authenticated), and a transaction that delegates its owner's
  stake has a single account input and no output once finalized.
\<close>

theorem staging_well_formed: "staging_wf X (fold (tx_exec X F) cs staging_new)"
  by (rule run_wf [OF staging_new_wf])

section \<open>The libraries\<close>

text \<open>Documented behaviour of the ledger library: which certificates are authenticated, and checked arithmetic on values.\<close>

locale tx_library =
  fixes X :: "('p, 'k, 'pk, 'sig, 'h, 'ad, 'w, 'fee, 'le) tx_ops"
  assumes authenticated: "cert_need_auth X c \<longleftrightarrow>
      (case c of COwnerStakeDelegation _ \<Rightarrow> False | CVoteCast _ \<Rightarrow> False | CMintToken _ \<Rightarrow> False | _ \<Rightarrow> True)"
    and build_same: "ios_new X is os \<Longrightarrow> ios_build X is os = (is, os)"
    and sum_ok: "sum_list (map unat vs) < 2 ^ 64 \<Longrightarrow> value_sum X vs = Inr (of_nat (sum_list (map unat vs)))"
    and sum_overflow: "2 ^ 64 \<le> sum_list (map unat vs) \<Longrightarrow> \<exists>e. value_sum X vs = Inl e"
    and add_ok: "unat a + unat b < 2 ^ 64 \<Longrightarrow> value_add X a b = Inr (a + b)"
    and add_overflow: "2 ^ 64 \<le> unat a + unat b \<Longrightarrow> \<exists>e. value_add X a b = Inl e"
    and sub_ok: "b \<le> a \<Longrightarrow> value_sub X a b = Inr (a - b)"
begin

lemma fragment_exists:
  assumes "staging_wf X s" and "ios_new X (st_inputs s) (st_outputs s)"
    and "st_kind s = Authed \<or> st_kind s = Sealed \<and> \<not> need_auth X s"
  shows "\<exists>d. st_valid_until s = Some d \<and>
    tx_fragment_of X s = Some (Inr (TxFragment
      \<lparr>tb_payload = st_extra s, tb_expiry = d, tb_inputs = st_inputs s, tb_outputs = st_outputs s, tb_witnesses = st_witnesses s\<rparr>
      (case st_extra_authed s of None \<Rightarrow> NoAuth | Some sc \<Rightarrow> signed_auth sc)), s)"
proof -
  obtain d where d: "st_valid_until s = Some d" "length (st_witnesses s) = length (st_inputs s)"
    using assms(1,3) by (auto simp: staging_wf_def)
  have builder: "builder_after_witness X payload s = Some (Inr \<lparr>tb_payload = payload, tb_expiry = d, tb_inputs = st_inputs s,
      tb_outputs = st_outputs s, tb_witnesses = st_witnesses s\<rparr> :: ('le tx_error, _) result, s)" for payload
    using d assms(2) by (simp add: builder_after_witness_def get_inputs_outputs_def build_same act_bind_def)
  have make: "make_fragment X payload auth s = Some (Inr (TxFragment \<lparr>tb_payload = payload, tb_expiry = d, tb_inputs = st_inputs s,
      tb_outputs = st_outputs s, tb_witnesses = st_witnesses s\<rparr> auth), s)" for payload and auth :: "('pk, 'sig) payload_auth"
    by (simp add: make_fragment_def act_bind_def builder)
  show ?thesis
  proof (cases "st_kind s = Authed")
    case True
    with assms(1) obtain sc where "st_extra_authed s = Some sc" "st_extra s = Some (strip_auth sc)" by (auto simp: staging_wf_def)
    with True d make show ?thesis by (simp add: tx_fragment_of_def)
  next
    case False
    with assms have *: "st_kind s = Sealed" "\<not> need_auth X s" "st_extra_authed s = None" by (auto simp: staging_wf_def)
    show ?thesis
    proof (cases "st_extra s")
      case None
      with * d make show ?thesis by (simp add: tx_fragment_of_def)
    next
      case (Some c)
      with *(2) have "\<not> cert_need_auth X c" by (simp add: need_auth_def)
      with Some * d make show ?thesis by (cases c) (simp_all add: tx_fragment_of_def authenticated)
    qed
  qed
qed

lemma balance_value:
  fixes fa :: 'fee and s :: "('p, 'pk, 'sig, 'h, 'ad, 'w, 'ev) staging"
  defines "ins \<equiv> sum_list (map (unat \<circ> ti_value) (st_inputs s))" and "outs \<equiv> sum_list (map (unat \<circ> to_value) (st_outputs s))"
    and "fee \<equiv> unat (tx_fees X fa s)"
  assumes "ins < 2 ^ 64" and "outs + fee < 2 ^ 64"
  shows "tx_balance X fa s =
    Inr (if outs + fee < ins then Positive (of_nat (ins - (outs + fee))) else if ins < outs + fee then Negative (of_nat (outs + fee - ins)) else Zero)"
proof -
  have i: "value_sum X (map ti_value (st_inputs s)) = Inr (of_nat ins)" using sum_ok [of "map ti_value (st_inputs s)"] assms(4)
    by (simp add: ins_def)
  have o: "value_sum X (map to_value (st_outputs s)) = Inr (of_nat outs)" using sum_ok [of "map to_value (st_outputs s)"] assms(5)
    by (simp add: outs_def)
  have uo: "unat (of_nat outs :: u64) = outs" and ui: "unat (of_nat ins :: u64) = ins"
    using assms(4,5) by (simp_all add: unat_of_nat)
  then have z: "value_add X (of_nat outs) (tx_fees X fa s) = Inr (of_nat outs + tx_fees X fa s)"
    using assms(5) by (intro add_ok) (simp add: fee_def)
  have uz: "unat (of_nat outs + tx_fees X fa s) = outs + fee" using assms(5) uo by (simp add: unat_word_ariths fee_def)
  have lt: "of_nat outs + tx_fees X fa s < of_nat ins \<longleftrightarrow> outs + fee < ins" "of_nat ins < of_nat outs + tx_fees X fa s \<longleftrightarrow> ins < outs + fee"
    by (simp_all add: word_less_nat_alt ui uz)
  have sum: "of_nat outs + tx_fees X fa s = of_nat (outs + fee)" by (simp add: fee_def)
  show ?thesis
    using i o z lt
    by (auto simp: tx_balance_def sub_ok of_nat_diff sum simp del: of_nat_add)
qed

lemma balance_error:
  fixes fa :: 'fee and s :: "('p, 'pk, 'sig, 'h, 'ad, 'w, 'ev) staging"
  defines "ins \<equiv> sum_list (map (unat \<circ> ti_value) (st_inputs s))" and "outs \<equiv> sum_list (map (unat \<circ> to_value) (st_outputs s))"
    and "fee \<equiv> unat (tx_fees X fa s)"
  assumes "2 ^ 64 \<le> ins \<or> 2 ^ 64 \<le> outs + fee"
  shows "\<exists>e. tx_balance X fa s = Inl e"
proof (cases "ins < 2 ^ 64 \<and> outs < 2 ^ 64")
  case True
  then have "value_sum X (map ti_value (st_inputs s)) = Inr (of_nat ins)" "value_sum X (map to_value (st_outputs s)) = Inr (of_nat outs)"
    using sum_ok [of "map ti_value (st_inputs s)"] sum_ok [of "map to_value (st_outputs s)"] by (simp_all add: ins_def outs_def)
  moreover have "\<exists>e. value_add X (of_nat outs) (tx_fees X fa s) = Inl e"
    using True assms(4) by (intro add_overflow) (simp add: unat_of_nat fee_def)
  ultimately show ?thesis by (auto simp: tx_balance_def)
next
  case False
  then consider "2 ^ 64 \<le> ins" | "ins < 2 ^ 64" "2 ^ 64 \<le> outs" by linarith
  then show ?thesis
  proof cases
    case 1
    then show ?thesis using sum_overflow [of "map ti_value (st_inputs s)"] by (auto simp: tx_balance_def ins_def)
  next
    case 2
    then show ?thesis using sum_ok [of "map ti_value (st_inputs s)"] sum_overflow [of "map to_value (st_outputs s)"]
      by (auto simp: tx_balance_def ins_def outs_def)
  qed
qed

end

end
