(* ===== verification/Tx_Properties.thy ===== *)
theory Tx_Properties
  imports Tx_Commands
begin

text \<open>
  Properties of transactions made with the command line tool: a finished staging gives its fragment, balances are exact,
  the all-in-one command, and the signatures of pool owners. The example shows that the documented
  laws of the libraries can hold together.
\<close>

section \<open>An example of the libraries\<close>

definition example_sign_ops :: "(unit, nat, nat, nat, nat, nat, nat, unit) sign_ops" where
  "example_sign_ops =
     \<lparr>extended_from_bech32 = (\<lambda>s. Inl ()), normal_from_bech32 = (\<lambda>s. Inr (length s)),
      to_public = (\<lambda>k. case k of Extended n \<Rightarrow> n | Normal n \<Rightarrow> n), sign_builder = (\<lambda>k b. length (tb_inputs b)),
      block0_payload_builder = (\<lambda>c. \<lparr>tb_payload = Some c, tb_expiry = BlockDate 0 0, tb_inputs = [], tb_outputs = [], tb_witnesses = []\<rparr>),
      pool_owners = (\<lambda>_. [1, 2]), delegation_account = (\<lambda>_. None), tally_private = (\<lambda>_. False)\<rparr>"

definition example_sum :: "u64 list \<Rightarrow> (unit, u64) result" where
  "example_sum vs = (if sum_list (map unat vs) < 2 ^ 64 then Inr (of_nat (sum_list (map unat vs))) else Inl ())"

definition example_tx_ops :: "(unit, nat, nat, nat, nat, nat, nat, u64, unit) tx_ops" where
  "example_tx_ops =
     \<lparr>tx_sign = example_sign_ops,
      cert_need_auth = (\<lambda>c. case c of COwnerStakeDelegation _ \<Rightarrow> False | CVoteCast _ \<Rightarrow> False | CMintToken _ \<Rightarrow> False | _ \<Rightarrow> True),
      ios_new = (\<lambda>is os. length is < 256 \<and> length os < 256), ios_seal = (\<lambda>_ _ _ _ _. Inr (Zero, [])), ios_build = Pair,
      sign_data_hash = (\<lambda>b. length (tb_inputs b)), fee_calculate = (\<lambda>f _ _ _. f), value_sum = example_sum,
      value_add = (\<lambda>a b. if unat a + unat b < 2 ^ 64 then Inr (a + b) else Inl ()),
      value_sub = (\<lambda>a b. if b \<le> a then Inr (a - b) else Inl ()), value_saturating_add = (\<lambda>a b. if unat a + unat b < 2 ^ 64 then a + b else - 1),
      address_kind_of = KAccount, from_single_account = id,
      from_multi_account = id, to_single_account = Some\<rparr>"

interpretation example_tx: tx_library example_tx_ops
  by unfold_locales (auto simp: example_tx_ops_def example_sum_def)

definition example_command_ops :: "(nat, u64, nat) command_ops" where
  "example_command_ops =
     \<lparr>linear_fee_new = (\<lambda>c _ _ _ _. c), bech32_decode = (\<lambda>s. Some (''witness'', length s)), from_base32 = (\<lambda>n. Some [of_nat n]),
      witness_deserialize = (\<lambda>bs. Some (length bs))\<rparr>"





section \<open>Properties of the staging\<close>



text \<open>The value of the inputs, and of the outputs with the fees, as unbounded numbers.\<close>

definition inputs_value :: "('p, 'pk, 'sig, 'h, 'ad, 'w, 'ev) staging \<Rightarrow> nat" where
  "inputs_value s = sum_list (map (unat \<circ> ti_value) (st_inputs s))"

definition spent_value :: "('p, 'k, 'pk, 'sig, 'h, 'ad, 'w, 'fee, 'le) tx_ops \<Rightarrow> 'fee \<Rightarrow> ('p, 'pk, 'sig, 'h, 'ad, 'w, 'ev) staging \<Rightarrow> nat" where
  "spent_value X fa s = sum_list (map (unat \<circ> to_value) (st_outputs s)) + unat (tx_fees X fa s)"

text \<open>
  The balance is exact (C20). The balance of a transaction is the value of its inputs minus the value of its outputs and the
  fees, with its sign, computed without wrapping around; it is an error exactly when one of the two sides does
  not fit 64 bits.
\<close>

theorem balance_exact:
  assumes "tx_library X"
  shows "if inputs_value s < 2 ^ 64 \<and> spent_value X fa s < 2 ^ 64
    then tx_balance X fa s = Inr (if spent_value X fa s < inputs_value s then Positive (of_nat (inputs_value s - spent_value X fa s))
      else if inputs_value s < spent_value X fa s then Negative (of_nat (spent_value X fa s - inputs_value s)) else Zero)
    else \<exists>e. tx_balance X fa s = Inl e"
proof (cases "inputs_value s < 2 ^ 64 \<and> spent_value X fa s < 2 ^ 64")
  case True
  with tx_library.balance_value [OF assms, of s fa] show ?thesis by (simp add: inputs_value_def spent_value_def)
next
  case False
  then have "2 ^ 64 \<le> inputs_value s \<or> 2 ^ 64 \<le> spent_value X fa s" by linarith
  with tx_library.balance_error [OF assms, of s fa] False show ?thesis by (simp only: inputs_value_def spent_value_def if_False)
qed

definition example_funded :: "(unit, nat, nat, nat, nat, nat, unit) staging" where
  "example_funded = staging_new\<lparr>st_inputs := [\<lparr>ti_input = InputAccount 7, ti_value = 12\<rparr>]\<rparr>"

lemma balance_exact_witness: "tx_balance example_tx_ops 1 example_funded = Inr (Positive 11)"
proof -
  have "inputs_value example_funded = 12" "spent_value example_tx_ops 1 example_funded = 1"
    by (simp_all add: inputs_value_def spent_value_def tx_fees_def staging_new_def example_tx_ops_def example_funded_def)
  with balance_exact [OF example_tx.tx_library_axioms, of example_funded 1] show ?thesis by simp
qed

text \<open>
  The signatures of pool owners (C22). Sign the registration of a stake pool with at most 256 owners, with keys that can be
  parsed. When every key belongs to an owner, there is one signature for each key, in the order of the keys; it carries
  the position of the key among the owners and is made with the key. Otherwise signing fails with the position
  of the first key that belongs to no owner.
\<close>

theorem pool_registration_signatures:
  assumes "parse_keys K keys_str = Inr ks" and "length (pool_owners K reg) \<le> 256"
  shows "if set (map (to_public K) ks) \<subseteq> set (pool_owners K reg)
    then \<exists>sigs. sign_payload K (CPoolRegistration reg) keys_str b = Some (Inr (SPoolRegistration reg (PoolOwners sigs)))
         \<and> length sigs = length ks
         \<and> (\<forall>n<length ks. unat (fst (sigs ! n)) < length (pool_owners K reg)
              \<and> pool_owners K reg ! unat (fst (sigs ! n)) = to_public K (ks ! n) \<and> snd (sigs ! n) = sign_builder K (ks ! n) b)
    else \<exists>n<length ks. sign_payload K (CPoolRegistration reg) keys_str b = Some (Inl (KeyNotFound n))
         \<and> to_public K (ks ! n) \<notin> set (pool_owners K reg) \<and> (\<forall>m<n. to_public K (ks ! m) \<in> set (pool_owners K reg))"
proof (cases "set (map (to_public K) ks) \<subseteq> set (pool_owners K reg)")
  case True
  let ?pos = "\<lambda>k. the (find_position (to_public K k) (pool_owners K reg))"
  have pos: "?pos k < length (pool_owners K reg) \<and> pool_owners K reg ! ?pos k = to_public K k \<and> unat (of_nat (?pos k) :: 8 word) = ?pos k"
    if "k \<in> set ks" for k
  proof -
    from True that obtain i where i: "find_position (to_public K k) (pool_owners K reg) = Some i"
      using find_position_None [of "to_public K k" "pool_owners K reg"] by (metis image_eqI list.set_map not_None_eq subsetD)
    from find_position_Some [OF i] assms(2) i show ?thesis by (simp add: unat_of_nat)
  qed
  with True assms(1) owner_keys_found [OF True, of 0] show ?thesis by (simp add: pool_owner_sign_def)
next
  case False
  from owner_keys_error [OF False, of 0] obtain j where j: "j < length ks" "owner_keys K (pool_owners K reg) 0 ks = Inl (KeyNotFound j)"
      "to_public K (ks ! j) \<notin> set (pool_owners K reg)" "\<forall>m<j. to_public K (ks ! m) \<in> set (pool_owners K reg)" by auto
  from assms(1) j(2) have "sign_payload K (CPoolRegistration reg) keys_str b = Some (Inl (KeyNotFound j))"
    by (simp add: pool_owner_sign_def)
  with j show ?thesis unfolding if_not_P [OF False] by blast
qed

definition example_builder :: "(unit, nat, nat, nat) tx_builder" where
  "example_builder = block0_payload_builder example_sign_ops (CPoolRegistration ())"

lemma pool_registration_signatures_witness:
  "\<exists>sigs. sign_payload example_sign_ops (CPoolRegistration ()) [''ab'', ''c''] example_builder = Some (Inr (SPoolRegistration () (PoolOwners sigs)))
     \<and> length sigs = 2 \<and> [1, 2] ! unat (fst (sigs ! 0)) = (2 :: nat) \<and> [1, 2] ! unat (fst (sigs ! 1)) = (1 :: nat)"
proof -
  have ks: "parse_keys example_sign_ops [''ab'', ''c''] = Inr [Normal 2, Normal 1]"
    by (simp add: parse_key_def parse_ed25519_secret_key_def example_sign_ops_def str_trim_def white_space_def)
  have owners: "pool_owners example_sign_ops () = [1, 2]" "to_public example_sign_ops (Normal n) = n" for n
    by (simp_all add: example_sign_ops_def)
  from pool_registration_signatures [OF ks, of "()" example_builder] obtain sigs where
      "sign_payload example_sign_ops (CPoolRegistration ()) [''ab'', ''c''] example_builder = Some (Inr (SPoolRegistration () (PoolOwners sigs)))"
      "length sigs = 2" "\<forall>n<2. [1, 2] ! unat (fst (sigs ! n)) = to_public example_sign_ops ([Normal 2, Normal 1] ! n)"
    by (auto simp: owners)
  moreover from this(3) have "[1, 2] ! unat (fst (sigs ! 0)) = (2 :: nat)" "[1, 2] ! unat (fst (sigs ! 1)) = (1 :: nat)"
    by (auto simp: owners dest: spec [of _ 0] spec [of _ 1])
  ultimately show ?thesis by blast
qed

lemma finalized_staging:
  assumes "tx_finalize X F fee change s = Some (Inr (), s')" and "st_extra s = None"
  shows "\<exists>bal added. ios_seal X (st_inputs s) (st_outputs s) None (linear_fee F fee) (case change of None \<Rightarrow> Forget | Some a \<Rightarrow> One a)
      = Inr (bal, added) \<and> s' = s\<lparr>st_outputs := st_outputs s @ added, st_kind := Finalizing\<rparr>"
proof -
  from assms(1) obtain bal where
    b: "balance_inputs_outputs X (linear_fee F fee) (case change of None \<Rightarrow> Forget | Some a \<Rightarrow> One a) s = Some (Inr bal, s')"
    by (auto simp: tx_finalize_def act_bind_Inr)
  from balance_ok [OF b] have "finalize_payload X None (linear_fee F fee) (case change of None \<Rightarrow> Forget | Some a \<Rightarrow> One a) s = Some (Inr bal, s')"
    using assms(2) by simp
  from finalize_payload_ok [OF this] show ?thesis by blast
qed

text \<open>
  The all-in-one command (C21). When it succeeds, the transaction is sealed: it has one input, the account of the sender with
  the value and the fees; its first output is the receiver with the value, followed by the change; and its one witness is made
  by the key of the sender for exactly these inputs and outputs.
\<close>

theorem make_transaction_correct:
  assumes "make_transaction X F V settings fees confirm header_id counter sender receiver secret_key val valid_until change force s0
    = Some (Inr (), s)" and "address_kind_of X sender = KAccount key"
  shows "\<exists>added block0_hash.
    s = \<lparr>st_kind = Sealed, st_inputs = [\<lparr>ti_input = InputAccount (from_single_account X key), ti_value = value_saturating_add X val fees\<rparr>],
      st_outputs = \<lparr>to_address = receiver, to_value = val\<rparr> # added, st_valid_until = Some valid_until,
      st_witnesses = [new_account V block0_hash (sign_data_hash X \<lparr>tb_payload = None, tb_expiry = valid_until, tb_inputs = st_inputs s,
        tb_outputs = st_outputs s, tb_witnesses = []\<rparr>) counter secret_key],
      st_extra = None, st_extra_authed = None, st_evm_transaction = None\<rparr>
    \<and> header_id = Some block0_hash \<and> (force \<or> confirm)
    \<and> (\<exists>bal. ios_seal X (st_inputs s) [\<lparr>to_address = receiver, to_value = val\<rparr>] None (linear_fee F (common_fee_from_settings settings))
        (case change of None \<Rightarrow> Forget | Some a \<Rightarrow> One a) = Inr (bal, added))"
proof -
  let ?s1 = "staging_new\<lparr>st_inputs := [\<lparr>ti_input = InputAccount (from_single_account X key), ti_value = value_saturating_add X val fees\<rparr>],
    st_outputs := [\<lparr>to_address = receiver, to_value = val\<rparr>], st_valid_until := Some valid_until\<rparr>"
  let ?fee = "common_fee_from_settings settings"
  from assms have ok: "force \<or> confirm"
    by (auto simp: make_transaction_def act_basic_defs Let_def split: if_splits)
  with assms obtain s2 where fin: "tx_finalize X F ?fee change ?s1 = Some (Inr (), s2)"
    and rest: "(case header_id of None \<Rightarrow> act_throw InvalidBlock0HeaderHash | Some block0_hash \<Rightarrow>
        act_bind (transaction_sign_data_hash X) (\<lambda>hash.
        act_bind (act_result (make_witness V WAccount block0_hash hash (Some counter) secret_key)) (\<lambda>witness.
        act_bind (add_witness witness) (\<lambda>_. seal)))) s2 = Some (Inr (), s)"
    by (auto simp: make_transaction_def Let_def act_bind_Inr add_account_def add_input_def add_output_def set_expiry_date_def
        staging_new_def)
  from finalized_staging [OF fin] obtain bal added where seal: "ios_seal X (st_inputs ?s1) (st_outputs ?s1) None (linear_fee F ?fee)
      (case change of None \<Rightarrow> Forget | Some a \<Rightarrow> One a) = Inr (bal, added)"
    and s2: "s2 = ?s1\<lparr>st_outputs := st_outputs ?s1 @ added, st_kind := Finalizing\<rparr>" by (auto simp: staging_new_def)
  from rest obtain block0_hash where "header_id = Some block0_hash" by (cases header_id) (auto simp: act_throw_def)
  with rest seal s2 ok show ?thesis
    by (auto simp: act_bind_Inr transaction_sign_data_hash_def make_witness_def act_result_bind_Inr add_witness_def seal_def staging_new_def)
qed

definition example_witness_ops :: "(nat, nat, nat) witness_ops" where
  "example_witness_ops = \<lparr>new_utxo = (\<lambda>g h k. h), new_old_utxo = (\<lambda>g h k. h), new_account = (\<lambda>g h c k. g + h), counter_lanes = 8\<rparr>"

definition example_settings :: settings_fees where
  "example_settings = \<lparr>sf_constant = 2, sf_coefficient = 0, sf_certificate = 0, sf_pool_registration = None, sf_stake_delegation = Some 5,
     sf_owner_stake_delegation = None, sf_vote_plan = None, sf_vote_cast = None\<rparr>"

lemma make_transaction_correct_witness:
  "\<exists>s :: (unit, nat, nat, nat, nat, nat, unit) staging.
     make_transaction example_tx_ops example_command_ops example_witness_ops example_settings 2 True (Some 1) (0, 3) 7 8 (Normal 4) 10
       (BlockDate 3 1) None False staging_new = Some (Inr (), s) \<and> st_kind s = Sealed \<and> st_witnesses s = [2]"
proof -
  let ?run = "make_transaction example_tx_ops example_command_ops example_witness_ops example_settings 2 True (Some 1) (0, 3) 7 8 (Normal 4) 10
    (BlockDate 3 1) None False :: ((unit, nat, nat, nat, nat, nat, unit) staging, unit tx_error, unit) action"
  have "\<exists>s. ?run staging_new = Some (Inr (), s)"
    by (simp add: make_transaction_def Let_def add_account_def add_input_def add_output_def set_expiry_date_def tx_finalize_def
        balance_inputs_outputs_def finalize_payload_def get_inputs_outputs_def transaction_sign_data_hash_def make_witness_def
        add_witness_def seal_def staging_new_def act_bind_def act_result_def example_tx_ops_def example_command_ops_def)
  then obtain s where run: "?run staging_new = Some (Inr (), s)" ..
  have kind: "address_kind_of example_tx_ops 7 = KAccount 7" by (simp add: example_tx_ops_def)
  from make_transaction_correct [OF run kind] obtain added block0_hash where
      "st_kind s = Sealed" "block0_hash = 1" "length (st_inputs s) = 1"
      "st_witnesses s = [new_account example_witness_ops block0_hash (sign_data_hash example_tx_ops \<lparr>tb_payload = None,
        tb_expiry = BlockDate 3 1, tb_inputs = st_inputs s, tb_outputs = st_outputs s, tb_witnesses = []\<rparr>) (0, 3) (Normal 4)]"
    by (cases s) auto
  then have "st_witnesses s = [2]" by (simp add: example_witness_ops_def example_tx_ops_def)
  with run \<open>st_kind s = Sealed\<close> show ?thesis by blast
qed

end
