(* ===== verification/Spec2Isabelle.thy ===== *)
theory Spec2Isabelle
  imports Blockchain_Heads Peer_Sync Peers Topology_Task Leadership_Module Tx_Properties
begin

text \<open>
  A verification development for \<^verbatim>\<open>jormungandr\<close>, a blockchain node written in Rust, and for the transactions of its
  command line tool \<^verbatim>\<open>jcli\<close>.

  \<^bold>\<open>The program.\<close> The node is a set of tasks that exchange messages. The blockchain task receives blocks and headers from the
  network task and blocks from the leadership task, checks and stores them and offers new references to the tip updater;
  the tip updater moves the tip, tells the fragment task which fragments are now in a block, and informs the watchers.
  The fragment task keeps the pool of pending fragments and selects fragments when the leadership task makes a block. The client
  task answers the requests of peers from the storage. The topology task decides which peers to talk to; the
  network task keeps the map of connected peers. \<^verbatim>\<open>jcli\<close> makes the transactions that users send to a node.

  \<^bold>\<open>Conventions.\<close> A \<^verbatim>\<open>Result\<close> is a sum, \<open>Inl\<close> the error; a panic is \<open>None\<close>; a task or a locked
  object is a record, and its operations are functions or actions (\<open>Actions\<close>) on that record; a channel is
  the list of the messages that went through and the answers of its receiver (\<open>Message_Box\<close>). Machine integers are
  words where their width matters. Readings of the clock, random numbers and the behaviour of receivers are arguments, and
  the theorems hold for all of them. Code of other crates is a record of operations, with what its documentation promises
  as the assumptions of a locale, and every such locale is interpreted.

  \<^bold>\<open>Theories.\<close> Paths are relative to \<^verbatim>\<open>src/\<close>.
  \<^item> \<open>Prelude\<close>, \<open>Actions\<close>, \<open>Message_Box\<close>, \<open>Lru_Cache\<close>, \<open>Linked_Map\<close>: the shared vocabulary, and the interfaces of the
    containers \<^verbatim>\<open>LruCache\<close> and \<^verbatim>\<open>LinkedHashMap\<close>.
  \<^item> \<open>Block_Date\<close> (\<^verbatim>\<open>jormungandr-lib/src/interfaces/blockdate.rs\<close>): dates and their order.
  \<^item> \<open>Indexed_Deque\<close>, \<open>Fragments\<close>, \<open>Fragment_Pool\<close>, \<open>Fragment_Logs\<close>, \<open>Fragment_Selection\<close>, \<open>Mempool\<close>
    (\<^verbatim>\<open>jormungandr/src/fragment\<close>): the linked queue with its raw pointers on an explicit heap (\<open>deque\<close>), the pool with its
    expiry queue (\<open>pool\<close>), the logs, the selection of fragments for a block, and the fragment task (\<open>mempool\<close>,
    \<open>handle_transaction_msg\<close>). The queue implements a list of keyed entries without dangling accesses; the
    pool and the selection refine operations on that list; the task never panics on acceptable messages and answers every
    fragment of a submission.
  \<^item> \<open>Reference_Chain\<close>, \<open>Blockchain_Heads\<close> (\<^verbatim>\<open>modules/blockchain/src\<close>): references to blocks, common ancestors and the set of
    branches. References form linked chains down to block 0, and the tip never gets shorter.
  \<^item> \<open>Block_Storage\<close>, \<open>Node_Chain\<close> (\<^verbatim>\<open>jormungandr/src/blockchain\<close>: \<^verbatim>\<open>storage.rs\<close>, \<^verbatim>\<open>chain.rs\<close>,
    \<^verbatim>\<open>reference.rs\<close>, \<^verbatim>\<open>reference_cache.rs\<close>, \<^verbatim>\<open>multiverse.rs\<close>, \<^verbatim>\<open>chain_selection.rs\<close>,
    \<^verbatim>\<open>checkpoints.rs\<close>): the record \<open>node_chain\<close> shared by the tasks. They give the exact conditions under which a block is
    accepted, the history of every cached reference, and the replay of the chain at a restart.
  \<^item> \<open>Header_Candidate\<close> (\<^verbatim>\<open>candidate.rs\<close>), \<open>Tip_Update\<close> (\<^verbatim>\<open>tip.rs\<close>), \<open>Fire_Forget\<close>
    (\<^verbatim>\<open>jormungandr/src/utils/fire_forget_scheduler.rs\<close>), \<open>Blockchain_Process\<close> (\<^verbatim>\<open>process.rs\<close>): header streams,
    the tip updater, the scheduler of network requests, and the blockchain task with all of its handlers. In every reachable state
    all that is cached, offered or propagated belongs to chains linked down to block 0; what the tip updater sends
    is acceptable to the fragment task; the scheduler respects its limits.
  \<^item> \<open>Peer_Sync\<close> (\<^verbatim>\<open>jormungandr/src/client.rs\<close>, \<^verbatim>\<open>bootstrap.rs\<close>): serving a chain and following it.
  \<^item> \<open>Peer_Comms\<close>, \<open>Peer_Map\<close>, \<open>Peers\<close> (\<^verbatim>\<open>jormungandr/src/network/p2p\<close>): the handles of a peer, the map of peers and its
    operations; a run is a sequence of calls. Peers stay within the capacity, and an identity is known only after a handshake.
  \<^item> \<open>Gossip_Codec\<close>, \<open>Quarantine\<close>, \<open>Topology_Task\<close> (\<^verbatim>\<open>jormungandr/src/topology\<close>): the wire format of gossips, reports
    against nodes, and the topology task.
  \<^item> \<open>Leadership_Schedule\<close>, \<open>Leadership_Module\<close> (\<^verbatim>\<open>jormungandr/src/secure/enclave.rs\<close>,
    \<^verbatim>\<open>jormungandr/src/leadership\<close>): the schedule of a leader lists exactly the elected slots, and the blocks of the
    leadership task pass the link check of \<open>Node_Chain\<close> on the tip.
  \<^item> \<open>Tx_Certificate\<close>, \<open>Tx_Staging\<close>, \<open>Tx_Commands\<close>, \<open>Tx_Properties\<close> (\<^verbatim>\<open>jcli/src/jcli_lib/transaction\<close>,
    \<^verbatim>\<open>jcli/src/jcli_lib/certificate/sign.rs\<close>): signatures of certificates, the stages of a transaction, the commands on a
    staging file. Stagings stay well-formed, finished ones give their fragment, and balances are exact.

  Some theorems state where the code departs from what it means to do, for example the fragments that a branch switch does
  not report, or the deadline of a block near the end of an epoch.

  \<^bold>\<open>Loops and bounds.\<close> Loops over lists and over the links of references are structural recursion. The loops of
  the selection and of the lifting of reports carry fuel, which is the number of entries of the container they empty; the
  theorems show that this is enough. The loops that are not structural (launching scheduled tasks, polling a header stream,
  the slots of a schedule, common ancestors, checkpoints) have termination proofs with a measure. Sizes are 64-bit words; where a sum must not wrap around, the bound is proved (the
  contents of a block) or is the condition of an error in the code (the balance of a transaction).

  \<^bold>\<open>Not modelled.\<close> A handler runs to its end before the next one of its task starts: the interleavings of
  handlers that the runtime may produce inside a task are not modelled, and the memory model of Rust references is not. The
  ledger, consensus and cryptographic libraries, the stores, codecs and network libraries are parameters. The network
  task with its gRPC client and server, the watch service, the REST and JSON-RPC interfaces, metrics back ends, settings
  and start-up are not modelled: they are I/O around those libraries and around the tasks above. The
  explorer is a separate program over persistent hash maps and a GraphQL library and is not modelled, nor are the other
  commands of \<^verbatim>\<open>jcli\<close>, which are front ends of the libraries, the textual and serde formats of the interface types,
  and the testing frameworks.
\<close>

end
